theory Spec2Isabelle
  imports Main
begin

section \<open>Python strings and integers, as the programs use them\<close>

text \<open>
  Strings are lists of ASCII characters.  \<open>str.split()\<close> without an argument splits at
  runs of whitespace and drops empty pieces; \<open>str.split(sep)\<close> splits at every occurrence
  of a one-character separator and keeps empty pieces; \<open>str.strip()\<close> removes whitespace at
  both ends.
\<close>

datatype py_error =
  ValueError | KeyError | AttributeError | TypeError | JSONDecodeError | OSError
  | ConflictingIdError

definition is_space :: "char \<Rightarrow> bool" where
  "is_space c \<longleftrightarrow>
     c = CHR '' '' \<or> c = CHR 0x09 \<or> c = CHR 0x0A \<or> c = CHR 0x0B \<or> c = CHR 0x0C \<or>
     c = CHR 0x0D \<or> c = CHR 0x1C \<or> c = CHR 0x1D \<or> c = CHR 0x1E \<or> c = CHR 0x1F"

fun split_ws :: "string \<Rightarrow> string \<Rightarrow> string list" where
  "split_ws cur [] = (if cur = [] then [] else [rev cur])"
| "split_ws cur (c # cs) =
     (if is_space c then (if cur = [] then split_ws [] cs else rev cur # split_ws [] cs)
      else split_ws (c # cur) cs)"

definition py_split :: "string \<Rightarrow> string list" where
  "py_split s = split_ws [] s"

text \<open>
  The unpacking \<open>minute, hour, day, month, day_of_week = parts\<close> of a list that was tested
  to have five elements; \<open>None\<close> is the case of any other length.
\<close>

fun unpack5 :: "'a list \<Rightarrow> ('a \<times> 'a \<times> 'a \<times> 'a \<times> 'a) option" where
  "unpack5 [a, b, c, d, e] = Some (a, b, c, d, e)"
| "unpack5 xs = None"

fun split_on :: "char \<Rightarrow> string \<Rightarrow> string list" where
  "split_on sep [] = [[]]"
| "split_on sep (c # cs) =
     (if c = sep then [] # split_on sep cs
      else (case split_on sep cs of [] \<Rightarrow> [[c]] | w # ws \<Rightarrow> (c # w) # ws))"

definition strip :: "string \<Rightarrow> string" where
  "strip s = rev (dropWhile is_space (rev (dropWhile is_space s)))"

text \<open>
  \<open>int(s)\<close> on a string: surrounding whitespace is ignored, one sign is allowed, and the
  digits may be grouped by single underscores.  Anything else raises \<open>ValueError\<close>, which
  is the value \<open>None\<close> here.
\<close>

definition is_digit :: "char \<Rightarrow> bool" where
  "is_digit c \<longleftrightarrow> 48 \<le> (of_char c :: nat) \<and> (of_char c :: nat) \<le> 57"

definition digit_val :: "char \<Rightarrow> nat" where
  "digit_val c = of_char c - 48"

fun parse_digits :: "nat \<Rightarrow> string \<Rightarrow> nat option" where
  "parse_digits acc [] = Some acc"
| "parse_digits acc [c] = (if is_digit c then Some (acc * 10 + digit_val c) else None)"
| "parse_digits acc (c # d # ds) =
     (if is_digit c then parse_digits (acc * 10 + digit_val c) (d # ds)
      else if c = CHR ''_'' \<and> is_digit d then parse_digits (acc * 10 + digit_val d) ds
      else None)"

definition parse_nat :: "string \<Rightarrow> nat option" where
  "parse_nat s =
     (case s of [] \<Rightarrow> None
      | c # cs \<Rightarrow> if is_digit c then parse_digits (digit_val c) cs else None)"

definition py_int :: "string \<Rightarrow> int option" where
  "py_int s =
     (case strip s of [] \<Rightarrow> None
      | c # cs \<Rightarrow>
          if c = CHR ''-'' then map_option (\<lambda>n. - int n) (parse_nat cs)
          else if c = CHR ''+'' then map_option int (parse_nat cs)
          else map_option int (parse_nat (c # cs)))"


section \<open>The cron expression validator (dev/deb-arm/validate\_cron.py)\<close>

text \<open>
  The builtin \<open>all\<close> over a generator stops at the first false element; an exception
  raised by an element before that propagates.
\<close>

fun py_all :: "('a \<Rightarrow> py_error + bool) \<Rightarrow> 'a list \<Rightarrow> py_error + bool" where
  "py_all f [] = Inr True"
| "py_all f (x # xs) =
     (case f x of Inl e \<Rightarrow> Inl e | Inr b \<Rightarrow> if b then py_all f xs else Inr False)"

lemma py_all_cong [fundef_cong]:
  "xs = ys \<Longrightarrow> (\<And>x. x \<in> set ys \<Longrightarrow> f x = g x) \<Longrightarrow> py_all f xs = py_all g ys"
  by (induction ys arbitrary: xs) (auto split: sum.splits)

lemma split_on_not_Nil: "split_on sep s \<noteq> []"
  by (induction s) (auto split: list.splits)

lemma split_on_length_le: "x \<in> set (split_on sep s) \<Longrightarrow> length x \<le> length s"
proof (induction s arbitrary: x)
  case Nil
  then show ?case by simp
next
  case (Cons c cs)
  obtain w ws where ws: "split_on sep cs = w # ws"
    using split_on_not_Nil [of sep cs] by (cases "split_on sep cs") auto
  have "\<forall>y \<in> set (w # ws). length y \<le> length cs" using Cons.IH ws by simp
  then show ?case using Cons.prems ws by (fastforce split: if_splits)
qed

lemma split_on_length_less:
  "sep \<in> set s \<Longrightarrow> x \<in> set (split_on sep s) \<Longrightarrow> length x < length s"
proof (induction s arbitrary: x)
  case Nil
  then show ?case by simp
next
  case (Cons c cs)
  obtain w ws where ws: "split_on sep cs = w # ws"
    using split_on_not_Nil [of sep cs] by (cases "split_on sep cs") auto
  show ?case
  proof (cases "c = sep")
    case True
    then have "x = [] \<or> x \<in> set (split_on sep cs)" using Cons.prems by simp
    then show ?thesis using split_on_length_le [of x sep cs] by auto
  next
    case False
    then have in_cs: "sep \<in> set cs" using Cons.prems by simp
    have "\<forall>y \<in> set (w # ws). length y < length cs" using Cons.IH [OF in_cs] ws by simp
    then show ?thesis using Cons.prems False ws by fastforce
  qed
qed

lemma length_strip_le: "length (strip s) \<le> length s"
proof -
  have "length (strip s) \<le> length (dropWhile is_space s)"
    unfolding strip_def using length_dropWhile_le [of is_space "rev (dropWhile is_space s)"]
    by simp
  also have "\<dots> \<le> length s" by (rule length_dropWhile_le)
  finally show ?thesis .
qed

text \<open>
  \<open>validate_field\<close>, the function nested in \<open>validate_cron_expression\<close>.  The branches are
  tried in the order of the source: the wildcard, then a value containing \<open>/\<close>, then a
  value containing \<open>-\<close>, then a value containing a comma, then a plain integer.  The
  unpacking \<open>base, step = value.split('/')\<close> stands outside the \<open>try\<close>, so a value with two
  slashes raises \<open>ValueError\<close> out of the function; the unpacking of a range stands inside
  its \<open>try\<close>.
\<close>

function validate_field :: "string \<Rightarrow> int \<Rightarrow> int \<Rightarrow> string \<Rightarrow> py_error + bool" where
  "validate_field value min_val max_val name =
     (if value = ''*'' then Inr True
      else if CHR ''/'' \<in> set value then
        (case split_on CHR ''/'' value of
           [base, step] \<Rightarrow>
             (case (if base = ''*'' then Some min_val else py_int base) of
                None \<Rightarrow> Inr False
              | Some base_int \<Rightarrow>
                  (case py_int step of
                     None \<Rightarrow> Inr False
                   | Some step_int \<Rightarrow>
                       Inr (min_val \<le> base_int \<and> base_int \<le> max_val \<and> step_int > 0)))
         | _ \<Rightarrow> Inl ValueError)
      else if CHR ''-'' \<in> set value then
        (case split_on CHR ''-'' value of
           [start, end] \<Rightarrow>
             (case py_int start of
                None \<Rightarrow> Inr False
              | Some start_int \<Rightarrow>
                  (case py_int end of
                     None \<Rightarrow> Inr False
                   | Some end_int \<Rightarrow>
                       Inr (min_val \<le> start_int \<and> start_int \<le> end_int \<and> end_int \<le> max_val)))
         | _ \<Rightarrow> Inr False)
      else if CHR '','' \<in> set value then
        py_all (\<lambda>v. validate_field (strip v) min_val max_val name) (split_on CHR '','' value)
      else
        (case py_int value of
           None \<Rightarrow> Inr False
         | Some val \<Rightarrow> Inr (min_val \<le> val \<and> val \<le> max_val)))"
  by pat_completeness auto
termination
proof (relation "measure (\<lambda>(value, min_val, max_val, name). length value)")
  show "wf (measure (\<lambda>(value, min_val, max_val, name). length value))" by simp
next
  fix v :: string and min_val max_val :: int and n :: string and x :: string
  assume "CHR '','' \<in> set v" and "x \<in> set (split_on CHR '','' v)"
  then have "length x < length v" by (rule split_on_length_less)
  with length_strip_le [of x]
  show "((strip x, min_val, max_val, n), (v, min_val, max_val, n))
          \<in> measure (\<lambda>(value, min_val, max_val, name). length value)"
    by simp
qed

declare validate_field.simps [simp del]

datatype message =
  Valid_cron_expression
  | Wrong_number_of_parts nat
  | Invalid_field string
  | Invalid_cron_expression py_error

text \<open>
  One \<open>if not validate_field(...): return False, "Invalid ... field"\<close> of the source: the
  result of the field, the field's name in the message, and the rest of the function.  An
  exception raised by the field reaches the \<open>except Exception\<close> at the end of
  \<open>validate_cron_expression\<close>.
\<close>

definition check_field :: "py_error + bool \<Rightarrow> string \<Rightarrow> bool \<times> message \<Rightarrow> bool \<times> message" where
  "check_field r name rest =
     (case r of
        Inl e \<Rightarrow> (False, Invalid_cron_expression e)
      | Inr ok \<Rightarrow> if ok then rest else (False, Invalid_field name))"

definition validate_cron_expression :: "string \<Rightarrow> bool \<times> message" where
  "validate_cron_expression cron_expr =
     (let parts = py_split cron_expr in
      if length parts \<noteq> 5 then (False, Wrong_number_of_parts (length parts))
      else
        (case parts of
           [minute, hour, day, month, day_of_week] \<Rightarrow>
             check_field (validate_field minute 0 59 ''minute'') ''minute''
              (check_field (validate_field hour 0 23 ''hour'') ''hour''
               (check_field (validate_field day 1 31 ''day'') ''day''
                (check_field (validate_field month 1 12 ''month'') ''month''
                 (check_field (validate_field day_of_week 0 7 ''day_of_week'') ''day_of_week''
                  (True, Valid_cron_expression)))))
         | _ \<Rightarrow> (False, Wrong_number_of_parts (length parts))))"

subsection \<open>The validator as the specification words it\<close>

text \<open>
  The specification's grammar of one field: a comma list is split first and every member
  is read by the rest of the grammar; a member is the wildcard, a step \<open>base/step\<close>
  (\<open>base\<close> may be \<open>*\<close>, the field's minimum; \<open>step\<close> a positive integer), a range
  \<open>start-end\<close> with \<open>start \<le> end\<close>, or a literal integer, all inside the field's domain.
  The members of a split list hold no comma, so reading a member never splits again.
\<close>

definition spec_member :: "string \<Rightarrow> int \<Rightarrow> int \<Rightarrow> bool" where
  "spec_member v lo hi =
     (if v = ''*'' then True
      else if CHR ''/'' \<in> set v then
        (case split_on CHR ''/'' v of
           [base, step] \<Rightarrow>
             (case (if base = ''*'' then Some lo else py_int base, py_int step) of
                (Some b, Some s) \<Rightarrow> lo \<le> b \<and> b \<le> hi \<and> 0 < s
              | _ \<Rightarrow> False)
         | _ \<Rightarrow> False)
      else if CHR ''-'' \<in> set v then
        (case split_on CHR ''-'' v of
           [start, end] \<Rightarrow>
             (case (py_int start, py_int end) of
                (Some a, Some b) \<Rightarrow> lo \<le> a \<and> a \<le> b \<and> b \<le> hi
              | _ \<Rightarrow> False)
         | _ \<Rightarrow> False)
      else (case py_int v of Some n \<Rightarrow> lo \<le> n \<and> n \<le> hi | None \<Rightarrow> False))"

definition spec_field :: "string \<Rightarrow> int \<Rightarrow> int \<Rightarrow> bool" where
  "spec_field v lo hi =
     (if CHR '','' \<in> set v
      then list_all (\<lambda>m. spec_member (strip m) lo hi) (split_on CHR '','' v)
      else spec_member v lo hi)"

definition spec_validate :: "string \<Rightarrow> bool" where
  "spec_validate cron_expr =
     (case py_split cron_expr of
        [minute, hour, day, month, day_of_week] \<Rightarrow>
          spec_field minute 0 59 \<and> spec_field hour 0 23 \<and> spec_field day 1 31 \<and>
          spec_field month 1 12 \<and> spec_field day_of_week 0 7
      | _ \<Rightarrow> False)"


section \<open>JSON values and the operations the applications apply to them\<close>

text \<open>
  What \<open>json.load\<close> and \<open>request.get_json()\<close> return.  An object is the list of its
  items; numbers are the integers (a schedule document holds no others).  The operations
  are Python's: truth value, \<open>d.get(key, default)\<close>, \<open>d[key]\<close>, iteration, and
  \<open>s.split()\<close>; each raises on the values Python raises on.
\<close>

datatype json =
  JNull | JBool bool | JInt int | JStr string | JArr "json list" | JObj "(string \<times> json) list"

fun truthy :: "json \<Rightarrow> bool" where
  "truthy JNull = False"
| "truthy (JBool b) = b"
| "truthy (JInt n) = (n \<noteq> 0)"
| "truthy (JStr s) = (s \<noteq> [])"
| "truthy (JArr xs) = (xs \<noteq> [])"
| "truthy (JObj kvs) = (kvs \<noteq> [])"

fun py_get :: "json \<Rightarrow> string \<Rightarrow> json \<Rightarrow> py_error + json" where
  "py_get (JObj kvs) key dflt = Inr (case map_of kvs key of Some v \<Rightarrow> v | None \<Rightarrow> dflt)"
| "py_get _ key dflt = Inl AttributeError"

fun py_item :: "json \<Rightarrow> string \<Rightarrow> py_error + json" where
  "py_item (JObj kvs) key = (case map_of kvs key of Some v \<Rightarrow> Inr v | None \<Rightarrow> Inl KeyError)"
| "py_item _ key = Inl TypeError"

fun py_items :: "json \<Rightarrow> string list \<Rightarrow> py_error + json list" where
  "py_items d [] = Inr []"
| "py_items d (key # keys) =
     (case py_item d key of
        Inl e \<Rightarrow> Inl e
      | Inr v \<Rightarrow> (case py_items d keys of Inl e \<Rightarrow> Inl e | Inr vs \<Rightarrow> Inr (v # vs)))"

fun py_iter :: "json \<Rightarrow> py_error + json list" where
  "py_iter (JArr xs) = Inr xs"
| "py_iter (JStr s) = Inr (map (\<lambda>c. JStr [c]) s)"
| "py_iter (JObj kvs) = Inr (map (\<lambda>kv. JStr (fst kv)) kvs)"
| "py_iter _ = Inl TypeError"

fun py_str_split :: "json \<Rightarrow> py_error + string list" where
  "py_str_split (JStr s) = Inr (py_split s)"
| "py_str_split _ = Inl AttributeError"

text \<open>\<open>str(n)\<close> of a natural number, as the f-strings of the job ids print it.\<close>

definition digit_char :: "nat \<Rightarrow> char" where
  "digit_char n = char_of (48 + n)"

fun str_nat :: "nat \<Rightarrow> string" where
  "str_nat n = (if n < 10 then [digit_char n] else str_nat (n div 10) @ [digit_char (n mod 10)])"

declare str_nat.simps [simp del]

definition str_int :: "int \<Rightarrow> string" where
  "str_int n = (if n < 0 then CHR ''-'' # str_nat (nat (- n)) else str_nat (nat n))"

text \<open>
  \<open>str(v)\<close> as an f-string applies it.  The text of a list or an object is Python's
  \<open>repr\<close> of it, which the programs never look at: it is the parameter \<open>repr\<close>.
\<close>

fun py_str :: "(json \<Rightarrow> string) \<Rightarrow> json \<Rightarrow> string" where
  "py_str repr JNull = ''None''"
| "py_str repr (JBool b) = (if b then ''True'' else ''False'')"
| "py_str repr (JInt n) = str_int n"
| "py_str repr (JStr s) = s"
| "py_str repr v = repr v"

section \<open>The state of the application (win64/app.py)\<close>

text \<open>
  The module's globals and the part of the machine it touches.  A file either holds a
  JSON document or some other content (an audio clip, or text that \<open>json.load\<close> rejects);
  paths are relative to \<open>BASE_DIR\<close>, the directory of \<open>app.py\<close>.  The scheduler is the
  APScheduler \<open>BackgroundScheduler\<close>, seen through the three calls the program makes:
  \<open>remove_all_jobs\<close>, \<open>add_job\<close> (which refuses an id that is already stored) and
  \<open>get_jobs\<close>.  A job keeps the callback it was registered with (by the kind of the
  announcement), its arguments and the trigger \<open>CronTrigger\<close> built.  The class
  \<open>CronTrigger\<close> belongs to APScheduler and is a parameter of everything below: a function
  from the five keyword arguments to a trigger, or to the exception it raises.
\<close>

datatype kind = Station | Promo | Safety

record 'trig job =
  job_id :: string
  job_name :: string
  func :: kind
  args :: "json list"
  trigger :: 'trig

type_synonym 'trig cron_trigger =
  "string \<Rightarrow> string \<Rightarrow> string option \<Rightarrow> string option \<Rightarrow> string option \<Rightarrow> py_error + 'trig"

datatype file_content = Document json | Other

datatype thread = Sequence_thread "string list" | Audio_thread string

text \<open>The lines the program prints, by their format string.\<close>

datatype line =
    Scheduled json json
  | Error_scheduling kind nat py_error
  | Scheduler_updated
  | Station_announcement json json json json
  | Playing string
  | Missing_audio_file string
  | Audio_not_available string
  | Audio_file_not_found string
  | Playing_audio string
  | Audio_playback_error
  | Error_loading_file string

text \<open>
  The state: the files, the scheduler's job table, the three globals of the module that
  matter here, the threads started, the lines printed, and the files
  \<open>pygame.mixer.music.load\<close> was called with, in the order of the calls.
\<close>

record 'trig world =
  fs :: "string \<Rightarrow> file_content option"
  jobs :: "'trig job list"
  current_announcement :: "string option"
  AUDIO_AVAILABLE :: bool
  mixer_plays :: "string \<Rightarrow> bool"
  mixer_loaded :: "string list"
  threads :: "thread list"
  printed :: "line list"

definition os_path_exists :: "'trig world \<Rightarrow> string \<Rightarrow> bool" where
  "os_path_exists w path \<longleftrightarrow> fs w path \<noteq> None"

definition py_print :: "line \<Rightarrow> 'trig world \<Rightarrow> 'trig world" where
  "py_print l w = w\<lparr>printed := printed w @ [l]\<rparr>"

text \<open>
  \<open>os.path.basename\<close> (POSIX): what follows the last slash.  \<open>os.path.join\<close> of two
  components: an absolute second component wins.
\<close>

definition os_path_basename :: "string \<Rightarrow> string" where
  "os_path_basename path = rev (takeWhile (\<lambda>c. c \<noteq> CHR ''/'') (rev path))"

definition os_path_join :: "string \<Rightarrow> string \<Rightarrow> string" where
  "os_path_join a b =
     (if b \<noteq> [] \<and> hd b = CHR ''/'' then b
      else if a = [] \<or> last a = CHR ''/'' then a @ b
      else a @ ''/'' @ b)"

definition JSON_DIR :: string where
  "JSON_DIR = ''json''"

definition MP3_DIR :: string where
  "MP3_DIR = os_path_join ''static'' ''mp3''"

text \<open>\<open>MP3_PATHS\<close> is only ever read at the seven literal keys.\<close>

datatype mp3_key = K_train | K_direction | K_destination | K_track | K_promo | K_safety | K_chime

fun MP3_PATHS :: "mp3_key \<Rightarrow> string" where
  "MP3_PATHS K_train = os_path_join MP3_DIR ''train''"
| "MP3_PATHS K_direction = os_path_join MP3_DIR ''direction''"
| "MP3_PATHS K_destination = os_path_join MP3_DIR ''destination''"
| "MP3_PATHS K_track = os_path_join MP3_DIR ''track''"
| "MP3_PATHS K_promo = os_path_join MP3_DIR ''promo''"
| "MP3_PATHS K_safety = os_path_join MP3_DIR ''safety''"
| "MP3_PATHS K_chime = os_path_join MP3_DIR ''chime.mp3''"

definition JSON_FILES :: "string \<Rightarrow> string option" where
  "JSON_FILES = map_of
     [(''trains'', os_path_join JSON_DIR ''trains.json''),
      (''directions'', os_path_join JSON_DIR ''directions.json''),
      (''destinations'', os_path_join JSON_DIR ''destinations.json''),
      (''tracks'', os_path_join JSON_DIR ''tracks.json''),
      (''promo'', os_path_join JSON_DIR ''promo.json''),
      (''safety'', os_path_join JSON_DIR ''safety.json''),
      (''cron'', os_path_join JSON_DIR ''cron.json'')]"


section \<open>Loading and saving (load\_json, save\_json)\<close>

text \<open>
  \<open>load_json\<close>: a missing file gives the empty list; an object that has the key \<open>name\<close>
  gives the value under it; an object with exactly one key gives that key's value; anything
  else is returned as it was read.
\<close>

definition load_json :: "string \<Rightarrow> 'trig world \<Rightarrow> py_error + json" where
  "load_json name w =
     (case JSON_FILES name of
        None \<Rightarrow> Inl KeyError
      | Some path \<Rightarrow>
          (case fs w path of
             None \<Rightarrow> Inr (JArr [])
           | Some Other \<Rightarrow> Inl JSONDecodeError
           | Some (Document data) \<Rightarrow>
               (case data of
                  JObj kvs \<Rightarrow>
                    (case map_of kvs name of
                       Some v \<Rightarrow> Inr v
                     | None \<Rightarrow> (case kvs of [(key, v)] \<Rightarrow> Inr v | _ \<Rightarrow> Inr data))
                | _ \<Rightarrow> Inr data)))"

text \<open>
  \<open>save_json\<close> opens the file itself for writing, which empties it at once, and dumps the
  document into it.  Either step can fail in the operating system; \<open>io_fault\<close> says which
  one does.  After a failed dump the file holds cut-off text, no document.
\<close>

datatype io_fault = No_fault | Open_fails | Dump_fails

definition save_json :: "io_fault \<Rightarrow> string \<Rightarrow> json \<Rightarrow> 'trig world \<Rightarrow> py_error option \<times> 'trig world" where
  "save_json fault name data w =
     (case JSON_FILES name of
        None \<Rightarrow> (Some KeyError, w)
      | Some path \<Rightarrow>
          (case fault of
             Open_fails \<Rightarrow> (Some OSError, w)
           | Dump_fails \<Rightarrow> (Some OSError, w\<lparr>fs := (fs w)(path \<mapsto> Other)\<rparr>)
           | No_fault \<Rightarrow> (None, w\<lparr>fs := (fs w)(path \<mapsto> Document data)\<rparr>)))"

section \<open>The scheduler update (update\_scheduler)\<close>

definition remove_all_jobs :: "'trig world \<Rightarrow> 'trig world" where
  "remove_all_jobs w = w\<lparr>jobs := []\<rparr>"

definition add_job :: "'trig job \<Rightarrow> 'trig world \<Rightarrow> py_error + 'trig world" where
  "add_job j w =
     (if job_id j \<in> set (map job_id (jobs w)) then Inl ConflictingIdError
      else Inr (w\<lparr>jobs := jobs w @ [j]\<rparr>))"

definition get_jobs :: "'trig world \<Rightarrow> 'trig job list" where
  "get_jobs w = jobs w"

text \<open>
  The three loops of \<open>update_scheduler\<close> are the same text up to the list they read, the
  callback, the keys of the arguments, and the prefixes of the id and of the name; these
  are functions of the kind here, and the loop is written once.
\<close>

fun list_key :: "kind \<Rightarrow> string" where
  "list_key Station = ''station_announcements''"
| "list_key Promo = ''promo_announcements''"
| "list_key Safety = ''safety_announcements''"

fun arg_keys :: "kind \<Rightarrow> string list" where
  "arg_keys Station = [''train_number'', ''direction'', ''destination'', ''track_number'']"
| "arg_keys Promo = [''file'']"
| "arg_keys Safety = [''language'']"

fun id_prefix :: "kind \<Rightarrow> string" where
  "id_prefix Station = ''station_''"
| "id_prefix Promo = ''promo_''"
| "id_prefix Safety = ''safety_''"

fun name_prefix :: "kind \<Rightarrow> string" where
  "name_prefix Station = ''Station Announcement ''"
| "name_prefix Promo = ''Promo Announcement ''"
| "name_prefix Safety = ''Safety Announcement ''"

text \<open>
  The arguments of \<open>scheduler.add_job\<close>, evaluated in the order they are written: the
  split of \<open>item['cron']\<close>, the test for five parts, the trigger, the arguments.  \<open>None\<close> is
  the case of another number of parts, where the \<open>if\<close> has no \<open>else\<close>.
\<close>

definition new_job :: "'trig cron_trigger \<Rightarrow> kind \<Rightarrow> nat \<Rightarrow> json \<Rightarrow> py_error + 'trig job option" where
  "new_job CronTrigger k i item =
     (case py_item item ''cron'' of
        Inl e \<Rightarrow> Inl e
      | Inr cron \<Rightarrow>
          (case py_str_split cron of
             Inl e \<Rightarrow> Inl e
           | Inr cron_parts \<Rightarrow>
               (case unpack5 cron_parts of
                  None \<Rightarrow> Inr None
                | Some (minute, hour, day, month, day_of_week) \<Rightarrow>
                    (case CronTrigger minute hour
                            (if day \<noteq> ''*'' then Some day else None)
                            (if month \<noteq> ''*'' then Some month else None)
                            (if day_of_week \<noteq> ''*'' then Some day_of_week else None) of
                       Inl e \<Rightarrow> Inl e
                     | Inr trig \<Rightarrow>
                         (case py_items item (arg_keys k) of
                            Inl e \<Rightarrow> Inl e
                          | Inr vs \<Rightarrow>
                              Inr (Some \<lparr>job_id = id_prefix k @ str_nat i,
                                         job_name = name_prefix k @ str_nat (i + 1),
                                         func = k, args = vs, trigger = trig\<rparr>))))))"

text \<open>
  The line printed after a job was added: the cron text and the first argument
  (\<open>item['train_number']\<close>, \<open>item['file']\<close>, \<open>item['language']\<close>).
\<close>

definition scheduled_line :: "json \<Rightarrow> 'trig job \<Rightarrow> line" where
  "scheduled_line item j =
     Scheduled (case py_item item ''cron'' of Inr c \<Rightarrow> c | Inl e \<Rightarrow> JNull)
       (case args j of v # vs \<Rightarrow> v | [] \<Rightarrow> JNull)"

text \<open>
  One round of a loop.  \<open>item.get('enabled')\<close> stands outside the \<open>try\<close>: an item that is
  no object ends the whole update with \<open>AttributeError\<close>.  Everything else is inside it,
  and an exception there prints one line and goes on to the next item.
\<close>

definition schedule_item ::
  "'trig cron_trigger \<Rightarrow> kind \<Rightarrow> nat \<Rightarrow> json \<Rightarrow> 'trig world \<Rightarrow> py_error option \<times> 'trig world" where
  "schedule_item CronTrigger k i item w =
     (case py_get item ''enabled'' JNull of
        Inl e \<Rightarrow> (Some e, w)
      | Inr enabled \<Rightarrow>
          if truthy enabled then
            (case new_job CronTrigger k i item of
               Inl e \<Rightarrow> (None, py_print (Error_scheduling k i e) w)
             | Inr None \<Rightarrow> (None, w)
             | Inr (Some j) \<Rightarrow>
                 (case add_job j w of
                    Inl e \<Rightarrow> (None, py_print (Error_scheduling k i e) w)
                  | Inr w' \<Rightarrow> (None, py_print (scheduled_line item j) w')))
          else (None, w))"

fun schedule_items ::
  "'trig cron_trigger \<Rightarrow> kind \<Rightarrow> nat \<Rightarrow> json list \<Rightarrow> 'trig world \<Rightarrow> py_error option \<times> 'trig world" where
  "schedule_items CronTrigger k i [] w = (None, w)"
| "schedule_items CronTrigger k i (item # items) w =
     (case schedule_item CronTrigger k i item w of
        (Some e, w') \<Rightarrow> (Some e, w')
      | (None, w') \<Rightarrow> schedule_items CronTrigger k (Suc i) items w')"

definition schedule_kind ::
  "'trig cron_trigger \<Rightarrow> kind \<Rightarrow> json \<Rightarrow> 'trig world \<Rightarrow> py_error option \<times> 'trig world" where
  "schedule_kind CronTrigger k cron_data w =
     (case py_get cron_data (list_key k) (JArr []) of
        Inl e \<Rightarrow> (Some e, w)
      | Inr l \<Rightarrow>
          (case py_iter l of
             Inl e \<Rightarrow> (Some e, w)
           | Inr items \<Rightarrow> schedule_items CronTrigger k 0 items w))"

definition cron_file :: string where
  "cron_file = os_path_join JSON_DIR ''cron.json''"

definition update_scheduler :: "'trig cron_trigger \<Rightarrow> 'trig world \<Rightarrow> py_error option \<times> 'trig world" where
  "update_scheduler CronTrigger w =
     (case fs w cron_file of
        None \<Rightarrow> (None, w)
      | Some Other \<Rightarrow> (Some JSONDecodeError, w)
      | Some (Document cron_data) \<Rightarrow>
          (case schedule_kind CronTrigger Station cron_data (remove_all_jobs w) of
             (Some e, w1) \<Rightarrow> (Some e, w1)
           | (None, w1) \<Rightarrow>
               (case schedule_kind CronTrigger Promo cron_data w1 of
                  (Some e, w2) \<Rightarrow> (Some e, w2)
                | (None, w2) \<Rightarrow>
                    (case schedule_kind CronTrigger Safety cron_data w2 of
                       (Some e, w3) \<Rightarrow> (Some e, w3)
                     | (None, w3) \<Rightarrow> (None, py_print Scheduler_updated w3)))))"

section \<open>The schedule endpoint (api\_schedule)\<close>

text \<open>
  \<open>'schedule' in data\<close>: a key of an object, an element of a list, a substring of a
  string; a number or a boolean raises \<open>TypeError\<close>.
\<close>

fun contains_str :: "string \<Rightarrow> string \<Rightarrow> bool" where
  "contains_str sub [] = (sub = [])"
| "contains_str sub (c # cs) = (take (length sub) (c # cs) = sub \<or> contains_str sub cs)"

fun py_in :: "string \<Rightarrow> json \<Rightarrow> py_error + bool" where
  "py_in key (JObj kvs) = Inr (map_of kvs key \<noteq> None)"
| "py_in key (JArr xs) = Inr (JStr key \<in> set xs)"
| "py_in key (JStr s) = Inr (contains_str key s)"
| "py_in key _ = Inl TypeError"

datatype response =
    Schedule json
  | Success nat
  | Announcement_triggered
  | Bad_request
  | Server_error py_error
  | Unhandled py_error

text \<open>
  \<open>GET\<close> answers with \<open>load_json('cron')\<close>.  \<open>POST\<close> refuses a body that is empty or has no
  \<open>'schedule'\<close>; otherwise it saves the document, updates the scheduler and reports the
  number of jobs, and any exception on the way becomes the answer 500.  \<open>Success n\<close> is the
  answer \<open>{'success': True, ..., 'active_jobs': n}\<close>.
\<close>

definition api_schedule_get :: "'trig world \<Rightarrow> response" where
  "api_schedule_get w = (case load_json ''cron'' w of Inl e \<Rightarrow> Unhandled e | Inr v \<Rightarrow> Schedule v)"

definition api_schedule ::
  "'trig cron_trigger \<Rightarrow> io_fault \<Rightarrow> json \<Rightarrow> 'trig world \<Rightarrow> response \<times> 'trig world" where
  "api_schedule CronTrigger fault data w =
     (if \<not> truthy data then (Bad_request, w)
      else
        (case py_in ''schedule'' data of
           Inl e \<Rightarrow> (Unhandled e, w)
         | Inr present \<Rightarrow>
             if \<not> present then (Bad_request, w)
             else
               (case py_item data ''schedule'' of
                  Inl e \<Rightarrow> (Server_error e, w)
                | Inr schedule \<Rightarrow>
                    (case save_json fault ''cron'' schedule w of
                       (Some e, w1) \<Rightarrow> (Server_error e, w1)
                     | (None, w1) \<Rightarrow>
                         (case update_scheduler CronTrigger w1 of
                            (Some e, w2) \<Rightarrow> (Server_error e, w2)
                          | (None, w2) \<Rightarrow> (Success (length (get_jobs w2)), w2))))))"


section \<open>The standalone validator of the in-process variant (dev/win64/validate\_cron.py)\<close>

definition validate_cron_expression_win :: "'trig cron_trigger \<Rightarrow> string \<Rightarrow> bool \<times> message" where
  "validate_cron_expression_win CronTrigger cron_expr =
     (let parts = py_split cron_expr in
      case unpack5 parts of
        None \<Rightarrow> (False, Wrong_number_of_parts (length parts))
      | Some (minute, hour, day, month, day_of_week) \<Rightarrow>
          (case CronTrigger minute hour
                  (if day \<noteq> ''*'' then Some day else None)
                  (if month \<noteq> ''*'' then Some month else None)
                  (if day_of_week \<noteq> ''*'' then Some day_of_week else None) of
             Inl e \<Rightarrow> (False, Invalid_cron_expression e)
           | Inr trig \<Rightarrow> (True, Valid_cron_expression)))"

section \<open>Playback (play\_audio, play\_audio\_sequence and the three announcements)\<close>

text \<open>
  \<open>play_audio\<close> prints its line and hands the file to the mixer; \<open>mixer_plays\<close> says whether
  pygame loads and plays it without raising; the line of the \<open>except\<close> branch is kept
  without the text of pygame's exception.  \<open>play_audio_sequence\<close> goes through the list once; the
  pause between two clips changes nothing in the state.
\<close>

definition mixer_music_load :: "string \<Rightarrow> 'trig world \<Rightarrow> 'trig world" where
  "mixer_music_load file_path w = w\<lparr>mixer_loaded := mixer_loaded w @ [file_path]\<rparr>"

definition play_audio :: "string \<Rightarrow> 'trig world \<Rightarrow> bool \<times> 'trig world" where
  "play_audio file_path w =
     (if \<not> AUDIO_AVAILABLE w then (False, py_print (Audio_not_available file_path) w)
      else if \<not> os_path_exists w file_path then (False, py_print (Audio_file_not_found file_path) w)
      else if mixer_plays w file_path
      then (True, mixer_music_load file_path (py_print (Playing_audio file_path) w))
      else (False, py_print Audio_playback_error
                     (mixer_music_load file_path (py_print (Playing_audio file_path) w))))"

fun play_audio_sequence :: "string list \<Rightarrow> 'trig world \<Rightarrow> 'trig world" where
  "play_audio_sequence [] w = w"
| "play_audio_sequence (file_path # file_list) w =
     (if os_path_exists w file_path
      then play_audio_sequence file_list
             (snd (play_audio file_path (py_print (Playing (os_path_basename file_path)) w)))
      else play_audio_sequence file_list (py_print (Missing_audio_file file_path) w))"

definition stop_safety_announcement :: "'trig world \<Rightarrow> 'trig world" where
  "stop_safety_announcement w = w\<lparr>current_announcement := None\<rparr>"

text \<open>
  A started \<open>threading.Thread\<close> is recorded with the work of its target; \<open>run_thread\<close> is
  that work.
\<close>

definition start_thread :: "thread \<Rightarrow> 'trig world \<Rightarrow> 'trig world" where
  "start_thread t w = w\<lparr>threads := threads w @ [t]\<rparr>"

fun run_thread :: "thread \<Rightarrow> 'trig world \<Rightarrow> 'trig world" where
  "run_thread (Sequence_thread file_list) w = play_audio_sequence file_list w"
| "run_thread (Audio_thread file_path) w = snd (play_audio file_path w)"

definition audio_sequence :: "(json \<Rightarrow> string) \<Rightarrow> json \<Rightarrow> json \<Rightarrow> json \<Rightarrow> json \<Rightarrow> string list" where
  "audio_sequence repr train_number direction destination track_number =
     [MP3_PATHS K_chime,
      os_path_join (MP3_PATHS K_train) (py_str repr train_number @ ''.mp3''),
      os_path_join (MP3_PATHS K_direction) (py_str repr direction @ ''.mp3''),
      os_path_join (MP3_PATHS K_destination) (py_str repr destination @ ''.mp3''),
      os_path_join (MP3_PATHS K_track) (py_str repr track_number @ ''.mp3'')]"

definition play_station_announcement ::
  "(json \<Rightarrow> string) \<Rightarrow> json \<Rightarrow> json \<Rightarrow> json \<Rightarrow> json \<Rightarrow> 'trig world \<Rightarrow> 'trig world" where
  "play_station_announcement repr train_number direction destination track_number w =
     start_thread
       (Sequence_thread (audio_sequence repr train_number direction destination track_number))
       (py_print (Station_announcement train_number direction destination track_number) w)"

text \<open>\<open>os.path.join\<close> takes strings only: a promo file that is none raises \<open>TypeError\<close>.\<close>

definition play_promo :: "json \<Rightarrow> 'trig world \<Rightarrow> py_error option \<times> 'trig world" where
  "play_promo file w =
     (case file of
        JStr f \<Rightarrow> (None, start_thread (Audio_thread (os_path_join (MP3_PATHS K_promo) f)) w)
      | _ \<Rightarrow> (Some TypeError, w))"

definition play_safety :: "(json \<Rightarrow> string) \<Rightarrow> json \<Rightarrow> 'trig world \<Rightarrow> 'trig world" where
  "play_safety repr language w =
     start_thread
       (Audio_thread (os_path_join (MP3_PATHS K_safety) (''safety_'' @ py_str repr language @ ''.mp3'')))
       w"

section \<open>The entry points that start an announcement\<close>

text \<open>\<open>request.form.get(key)\<close>: the string of the field, or \<open>None\<close>.\<close>

definition form_get :: "(string \<Rightarrow> string option) \<Rightarrow> string \<Rightarrow> json" where
  "form_get form key = (case form key of None \<Rightarrow> JNull | Some v \<Rightarrow> JStr v)"

definition play_announcement_route ::
  "(json \<Rightarrow> string) \<Rightarrow> (string \<Rightarrow> string option) \<Rightarrow> 'trig world \<Rightarrow> 'trig world" where
  "play_announcement_route repr form w =
     play_station_announcement repr
       (form_get form ''train_number'') (form_get form ''direction'')
       (form_get form ''destination'') (form_get form ''track_number'')
       (stop_safety_announcement w)"

definition play_safety_route ::
  "(json \<Rightarrow> string) \<Rightarrow> (string \<Rightarrow> string option) \<Rightarrow> 'trig world \<Rightarrow> 'trig world" where
  "play_safety_route repr form w =
     play_safety repr (form_get form ''language'') (stop_safety_announcement w)"

text \<open>
  \<open>validate_announcement_params\<close>: valid when no required field is missing or falsy.
  \<open>params.get\<close> raises on a body that is no object.
\<close>

fun validate_announcement_params :: "json \<Rightarrow> string list \<Rightarrow> py_error + bool" where
  "validate_announcement_params params [] = Inr True"
| "validate_announcement_params params (field # required_fields) =
     (case py_get params field JNull of
        Inl e \<Rightarrow> Inl e
      | Inr v \<Rightarrow>
          (case validate_announcement_params params required_fields of
             Inl e \<Rightarrow> Inl e
           | Inr ok \<Rightarrow> Inr (truthy v \<and> ok)))"

definition api_station_announcement ::
  "(json \<Rightarrow> string) \<Rightarrow> json \<Rightarrow> 'trig world \<Rightarrow> response \<times> 'trig world" where
  "api_station_announcement repr data w =
     (case validate_announcement_params data
             [''train_number'', ''direction'', ''destination'', ''track_number''] of
        Inl e \<Rightarrow> (Unhandled e, w)
      | Inr valid \<Rightarrow>
          if \<not> valid then (Bad_request, w)
          else
            (case py_items data [''train_number'', ''direction'', ''destination'', ''track_number''] of
               Inr [train_number, direction, destination, track_number] \<Rightarrow>
                 (Announcement_triggered,
                  play_station_announcement repr train_number direction destination track_number w)
             | Inr _ \<Rightarrow> (Server_error TypeError, w)
             | Inl e \<Rightarrow> (Server_error e, w)))"

text \<open>
  A job that fires: the scheduler calls the job's callback with the job's arguments.
\<close>

definition run_job :: "(json \<Rightarrow> string) \<Rightarrow> 'trig job \<Rightarrow> 'trig world \<Rightarrow> py_error option \<times> 'trig world" where
  "run_job repr j w =
     (case func j of
        Station \<Rightarrow>
          (case args j of
             [train_number, direction, destination, track_number] \<Rightarrow>
               (None, play_station_announcement repr train_number direction destination track_number w)
           | _ \<Rightarrow> (Some TypeError, w))
      | Promo \<Rightarrow> (case args j of [file] \<Rightarrow> play_promo file w | _ \<Rightarrow> (Some TypeError, w))
      | Safety \<Rightarrow>
          (case args j of
             [language] \<Rightarrow> (None, play_safety repr language w)
           | _ \<Rightarrow> (Some TypeError, w)))"

text \<open>
  Modelled from the spec: \<open>tick\<close> of the Trigger Scheduler, which runs inside APScheduler
  and is not part of the repository.  The specification's words: for every registered job
  whose cron rule matches \<open>now\<close>, invoke that job's callback with its arguments.  Whether a
  trigger matches a minute is the library's; it is the parameter \<open>matches\<close>.
\<close>

definition due_jobs :: "('trig \<Rightarrow> 'time \<Rightarrow> bool) \<Rightarrow> 'time \<Rightarrow> 'trig world \<Rightarrow> 'trig job list" where
  "due_jobs matches now w = filter (\<lambda>j. matches (trigger j) now) (get_jobs w)"

fun run_jobs :: "(json \<Rightarrow> string) \<Rightarrow> 'trig job list \<Rightarrow> 'trig world \<Rightarrow> 'trig world" where
  "run_jobs repr [] w = w"
| "run_jobs repr (j # js) w = run_jobs repr js (snd (run_job repr j w))"

definition tick :: "('trig \<Rightarrow> 'time \<Rightarrow> bool) \<Rightarrow> (json \<Rightarrow> string) \<Rightarrow> 'time \<Rightarrow> 'trig world \<Rightarrow> 'trig world" where
  "tick matches repr now w = run_jobs repr (due_jobs matches now w) w"

section \<open>The first version of the program (legacy\_py/app.py)\<close>

text \<open>
  The station announcement of the first version loads every clip with pydub, adds the
  clips that load to one stream and plays the stream.  \<open>from_mp3\<close> is pydub's loader, a
  parameter; a clip is a list of samples.
\<close>

fun combine_audio :: "(string \<Rightarrow> py_error + 'a list) \<Rightarrow> string list \<Rightarrow> 'a list \<times> line list \<Rightarrow> 'a list \<times> line list" where
  "combine_audio from_mp3 [] acc = acc"
| "combine_audio from_mp3 (mp3_file # mp3_files) (combined_audio, out) =
     (case from_mp3 mp3_file of
        Inr audio \<Rightarrow> combine_audio from_mp3 mp3_files (combined_audio @ audio, out)
      | Inl e \<Rightarrow> combine_audio from_mp3 mp3_files (combined_audio, out @ [Error_loading_file mp3_file]))"

definition legacy_mp3_files :: "(json \<Rightarrow> string) \<Rightarrow> json \<Rightarrow> json \<Rightarrow> json \<Rightarrow> json \<Rightarrow> string list" where
  "legacy_mp3_files repr train_number direction destination track_number =
     [''static/mp3/chime.mp3'',
      os_path_join ''static/mp3/train/'' (py_str repr train_number @ ''.mp3''),
      os_path_join ''static/mp3/direction/'' (py_str repr direction @ ''.mp3''),
      os_path_join ''static/mp3/destination/'' (py_str repr destination @ ''.mp3''),
      os_path_join ''static/mp3/track/'' (py_str repr track_number @ ''.mp3'')]"

definition legacy_play_station_announcement ::
  "(string \<Rightarrow> py_error + 'a list) \<Rightarrow> (json \<Rightarrow> string) \<Rightarrow> json \<Rightarrow> json \<Rightarrow> json \<Rightarrow> json \<Rightarrow> 'a list \<times> line list" where
  "legacy_play_station_announcement from_mp3 repr train_number direction destination track_number =
     combine_audio from_mp3
       (legacy_mp3_files repr train_number direction destination track_number) ([], [])"

section \<open>The crontab variant (deb-arm/app.py, update\_crontab)\<close>

text \<open>
  \<open>update_crontab\<close> reads the same document and writes one crontab line for every enabled
  entry: the cron text as it stands, a blank, and the command that plays the
  announcement.  Nothing looks at the cron text.  \<open>BASE_DIR\<close> and \<open>script_path\<close> are the
  directory and the path of \<open>app.py\<close> on the machine, parameters here.  \<open>command\<close> is the
  f-string of the kind, given the texts of the values it prints (as many as the kind has
  argument keys).  The part after the loops, which hands the lines to the \<open>crontab\<close>
  program, is not modelled.
\<close>

fun command :: "string \<Rightarrow> string \<Rightarrow> kind \<Rightarrow> string list \<Rightarrow> string" where
  "command BASE_DIR script_path Station [train_number, direction, destination, track_number] =
     ''cd '' @ BASE_DIR @ '' && python3 '' @ script_path @ '' --station --train ''
       @ [CHR 0x27] @ train_number @ [CHR 0x27] @ '' --direction ''
       @ [CHR 0x27] @ direction @ [CHR 0x27] @ '' --destination ''
       @ [CHR 0x27] @ destination @ [CHR 0x27] @ '' --track ''
       @ [CHR 0x27] @ track_number @ [CHR 0x27] @ '' >> /var/log/tarr-announcer.log 2>&1''"
| "command BASE_DIR script_path Promo [file] =
     ''cd '' @ BASE_DIR @ '' && python3 '' @ script_path @ '' --promo --file ''
       @ [CHR 0x27] @ file @ [CHR 0x27] @ '' >> /var/log/tarr-announcer.log 2>&1''"
| "command BASE_DIR script_path Safety [language] =
     ''cd '' @ BASE_DIR @ '' && python3 '' @ script_path @ '' --safety --language ''
       @ [CHR 0x27] @ language @ [CHR 0x27] @ '' >> /var/log/tarr-announcer.log 2>&1''"
| "command BASE_DIR script_path k vs = []"

definition crontab_item ::
  "(json \<Rightarrow> string) \<Rightarrow> string \<Rightarrow> string \<Rightarrow> kind \<Rightarrow> nat \<Rightarrow> json \<Rightarrow> string list \<times> line list
     \<Rightarrow> py_error + string list \<times> line list" where
  "crontab_item repr BASE_DIR script_path k i item st =
     (case py_get item ''enabled'' JNull of
        Inl e \<Rightarrow> Inl e
      | Inr enabled \<Rightarrow>
          if truthy enabled then
            (case py_item item ''cron'' of
               Inl e \<Rightarrow> Inr (fst st, snd st @ [Error_scheduling k i e])
             | Inr cron_expr \<Rightarrow>
                 (case py_items item (arg_keys k) of
                    Inl e \<Rightarrow> Inr (fst st, snd st @ [Error_scheduling k i e])
                  | Inr vs \<Rightarrow>
                      Inr (fst st @ [py_str repr cron_expr @ '' ''
                                      @ command BASE_DIR script_path k (map (py_str repr) vs)],
                           snd st @ [Scheduled cron_expr (case vs of v # _ \<Rightarrow> v | [] \<Rightarrow> JNull)])))
          else Inr st)"

fun crontab_items ::
  "(json \<Rightarrow> string) \<Rightarrow> string \<Rightarrow> string \<Rightarrow> kind \<Rightarrow> nat \<Rightarrow> json list \<Rightarrow> string list \<times> line list
     \<Rightarrow> py_error + string list \<times> line list" where
  "crontab_items repr BASE_DIR script_path k i [] st = Inr st"
| "crontab_items repr BASE_DIR script_path k i (item # items) st =
     (case crontab_item repr BASE_DIR script_path k i item st of
        Inl e \<Rightarrow> Inl e
      | Inr st' \<Rightarrow> crontab_items repr BASE_DIR script_path k (Suc i) items st')"

definition crontab_kind ::
  "(json \<Rightarrow> string) \<Rightarrow> string \<Rightarrow> string \<Rightarrow> kind \<Rightarrow> json \<Rightarrow> string list \<times> line list
     \<Rightarrow> py_error + string list \<times> line list" where
  "crontab_kind repr BASE_DIR script_path k cron_data st =
     (case py_get cron_data (list_key k) (JArr []) of
        Inl e \<Rightarrow> Inl e
      | Inr l \<Rightarrow>
          (case py_iter l of
             Inl e \<Rightarrow> Inl e
           | Inr items \<Rightarrow> crontab_items repr BASE_DIR script_path k 0 items st))"

definition cron_entries ::
  "(json \<Rightarrow> string) \<Rightarrow> string \<Rightarrow> string \<Rightarrow> json \<Rightarrow> py_error + string list \<times> line list" where
  "cron_entries repr BASE_DIR script_path cron_data =
     (case crontab_kind repr BASE_DIR script_path Station cron_data
             ([''# TARR Annunciator scheduled announcements''], []) of
        Inl e \<Rightarrow> Inl e
      | Inr st1 \<Rightarrow>
          (case crontab_kind repr BASE_DIR script_path Promo cron_data st1 of
             Inl e \<Rightarrow> Inl e
           | Inr st2 \<Rightarrow> crontab_kind repr BASE_DIR script_path Safety cron_data st2))"


section \<open>What an update of the scheduler is to register\<close>

text \<open>
  The words used to state what \<open>update_scheduler\<close> does to a document.  A document is
  well formed when it is an object whose three lists, where present, are lists of objects.
  An entry is enabled when its \<open>enabled\<close> is truthy; the update registers it when
  \<open>new_job\<close> builds a job from it, and that does not depend on the entry's place in its
  list.  \<open>job_ids\<close> are the ids of the entries of one list that are enabled and registered,
  each named after the kind and the entry's index; \<open>lines\<close> are the lines the loop over
  one list prints.
\<close>

fun is_obj :: "json \<Rightarrow> bool" where
  "is_obj (JObj kvs) = True"
| "is_obj v = False"

definition entries :: "kind \<Rightarrow> json \<Rightarrow> json list" where
  "entries k cron_data =
     (case py_get cron_data (list_key k) (JArr []) of Inr (JArr items) \<Rightarrow> items | _ \<Rightarrow> [])"

definition well_formed :: "json \<Rightarrow> bool" where
  "well_formed cron_data \<longleftrightarrow>
     is_obj cron_data \<and>
     list_all
       (\<lambda>k. case py_get cron_data (list_key k) (JArr []) of
               Inr (JArr items) \<Rightarrow> list_all is_obj items
             | _ \<Rightarrow> False)
       [Station, Promo, Safety]"

definition entry_enabled :: "json \<Rightarrow> bool" where
  "entry_enabled item =
     (case py_get item ''enabled'' JNull of Inr enabled \<Rightarrow> truthy enabled | Inl e \<Rightarrow> False)"

definition registers :: "'trig cron_trigger \<Rightarrow> kind \<Rightarrow> json \<Rightarrow> bool" where
  "registers CronTrigger k item =
     (case new_job CronTrigger k 0 item of Inr (Some j) \<Rightarrow> True | _ \<Rightarrow> False)"

definition job_ids :: "'trig cron_trigger \<Rightarrow> kind \<Rightarrow> json list \<Rightarrow> string list" where
  "job_ids CronTrigger k items =
     map (\<lambda>(i, item). id_prefix k @ str_nat i)
       (filter (\<lambda>(i, item). entry_enabled item \<and> registers CronTrigger k item)
          (enumerate 0 items))"

fun planned :: "'trig cron_trigger \<Rightarrow> kind \<Rightarrow> nat \<Rightarrow> json list \<Rightarrow> 'trig job list" where
  "planned CronTrigger k i [] = []"
| "planned CronTrigger k i (item # items) =
     (if entry_enabled item
      then (case new_job CronTrigger k i item of Inr (Some j) \<Rightarrow> [j] | _ \<Rightarrow> [])
      else [])
     @ planned CronTrigger k (Suc i) items"

fun lines :: "'trig cron_trigger \<Rightarrow> kind \<Rightarrow> nat \<Rightarrow> json list \<Rightarrow> line list" where
  "lines CronTrigger k i [] = []"
| "lines CronTrigger k i (item # items) =
     (if entry_enabled item
      then (case new_job CronTrigger k i item of
              Inl e \<Rightarrow> [Error_scheduling k i e]
            | Inr None \<Rightarrow> []
            | Inr (Some j) \<Rightarrow> [scheduled_line item j])
      else [])
     @ lines CronTrigger k (Suc i) items"

definition planned_jobs :: "'trig cron_trigger \<Rightarrow> json \<Rightarrow> 'trig job list" where
  "planned_jobs CronTrigger cron_data =
     planned CronTrigger Station 0 (entries Station cron_data)
     @ planned CronTrigger Promo 0 (entries Promo cron_data)
     @ planned CronTrigger Safety 0 (entries Safety cron_data)"

definition printed_lines :: "'trig cron_trigger \<Rightarrow> json \<Rightarrow> line list" where
  "printed_lines CronTrigger cron_data =
     lines CronTrigger Station 0 (entries Station cron_data)
     @ lines CronTrigger Promo 0 (entries Promo cron_data)
     @ lines CronTrigger Safety 0 (entries Safety cron_data)
     @ [Scheduler_updated]"

definition all_job_ids :: "'trig cron_trigger \<Rightarrow> json \<Rightarrow> string list" where
  "all_job_ids CronTrigger cron_data =
     job_ids CronTrigger Station (entries Station cron_data)
     @ job_ids CronTrigger Promo (entries Promo cron_data)
     @ job_ids CronTrigger Safety (entries Safety cron_data)"

section \<open>Reading the printed lines\<close>

text \<open>
  Every call of \<open>play_audio\<close> prints first one of three lines, each with the path it was
  called with, and nothing else prints these lines: the clips attempted are read off them.
  The clips reported missing are read off the lines \<open>Missing audio file: ...\<close>.
\<close>

fun attempted :: "line list \<Rightarrow> string list" where
  "attempted [] = []"
| "attempted (Audio_not_available file_path # ls) = file_path # attempted ls"
| "attempted (Audio_file_not_found file_path # ls) = file_path # attempted ls"
| "attempted (Playing_audio file_path # ls) = file_path # attempted ls"
| "attempted (l # ls) = attempted ls"

fun reported_missing :: "line list \<Rightarrow> string list" where
  "reported_missing [] = []"
| "reported_missing (Missing_audio_file file_path # ls) = file_path # reported_missing ls"
| "reported_missing (l # ls) = reported_missing ls"

section \<open>Example states and documents\<close>

text \<open>
  A machine on which the clip of the direction \<open>westbound\<close> is missing and the other four
  clips of the announcement of train 1 to Goodwin Station on track 1 are there.
\<close>

definition station_world :: "unit world" where
  "station_world =
     \<lparr>fs = [''static/mp3/chime.mp3'' \<mapsto> Other, ''static/mp3/train/1.mp3'' \<mapsto> Other,
             ''static/mp3/destination/goodwin_station.mp3'' \<mapsto> Other,
             ''static/mp3/track/1.mp3'' \<mapsto> Other],
      jobs = [], current_announcement = None, AUDIO_AVAILABLE = True,
      mixer_plays = (\<lambda>p. True), mixer_loaded = [], threads = [], printed = []\<rparr>"

text \<open>The body of a request to \<open>/api/announce/station\<close>.\<close>

definition station_request :: json where
  "station_request =
     JObj [(''train_number'', JStr ''1''), (''direction'', JStr ''westbound''),
           (''destination'', JStr ''goodwin_station''), (''track_number'', JStr ''1'')]"

text \<open>
  A trigger constructor to run the examples with: it accepts the five fields exactly when
  the repository's own \<open>validate_field\<close> accepts each of them (an argument that is \<open>None\<close>
  stands for the wildcard), and builds a trigger that holds nothing.
\<close>

definition field_trigger :: "unit cron_trigger" where
  "field_trigger minute hour day month day_of_week =
     (if validate_field minute 0 59 ''minute'' = Inr True
         \<and> validate_field hour 0 23 ''hour'' = Inr True
         \<and> (case day of None \<Rightarrow> True | Some v \<Rightarrow> validate_field v 1 31 ''day'' = Inr True)
         \<and> (case month of None \<Rightarrow> True | Some v \<Rightarrow> validate_field v 1 12 ''month'' = Inr True)
         \<and> (case day_of_week of None \<Rightarrow> True
             | Some v \<Rightarrow> validate_field v 0 7 ''day_of_week'' = Inr True)
      then Inr () else Inl ValueError)"

text \<open>
  Scenario C of the specification: a station entry with minute 99 and a promo entry that
  is in order, both enabled.  Then the same two entries with a cron text of four fields in
  the station entry; the station entry of scenario A, disabled (scenario B); and a promo
  entry whose cron text is the single word \<open>bogus\<close>.
\<close>

definition station_entry :: "string \<Rightarrow> bool \<Rightarrow> json" where
  "station_entry cron enabled =
     JObj [(''cron'', JStr cron), (''enabled'', JBool enabled), (''train_number'', JStr ''1''),
           (''direction'', JStr ''westbound''), (''destination'', JStr ''goodwin_station''),
           (''track_number'', JStr ''1'')]"

definition promo_entry :: "string \<Rightarrow> bool \<Rightarrow> json" where
  "promo_entry cron enabled =
     JObj [(''cron'', JStr cron), (''enabled'', JBool enabled), (''file'', JStr ''promo_english'')]"

definition document :: "json list \<Rightarrow> json list \<Rightarrow> json list \<Rightarrow> json" where
  "document stations promos safeties =
     JObj [(''station_announcements'', JArr stations), (''promo_announcements'', JArr promos),
           (''safety_announcements'', JArr safeties)]"

definition scenario_c :: json where
  "scenario_c = document [station_entry ''99 8 * * *'' True] [promo_entry ''0 12 * * *'' True] []"

definition four_fields :: json where
  "four_fields = document [station_entry ''0 8 * *'' True] [promo_entry ''0 12 * * *'' True] []"

definition scenario_b :: json where
  "scenario_b = document [station_entry ''0 8 * * 1-5'' False] [] []"

definition bogus_promo :: json where
  "bogus_promo = document [] [promo_entry ''bogus'' True] []"

definition post :: "json \<Rightarrow> json" where
  "post schedule = JObj [(''schedule'', schedule)]"

text \<open>
  A machine whose schedule file holds the document of scenario B, and a document with
  the three lists, all empty, and a fourth key.
\<close>

definition scheduled_world :: "unit world" where
  "scheduled_world = station_world\<lparr>fs := (fs station_world)(cron_file \<mapsto> Document scenario_b)\<rparr>"

definition annotated :: json where
  "annotated =
     JObj [(''station_announcements'', JArr []), (''promo_announcements'', JArr []),
           (''safety_announcements'', JArr []), (''note'', JStr ''summer timetable'')]"

definition annotated_world :: "unit world" where
  "annotated_world = station_world\<lparr>fs := (fs station_world)(cron_file \<mapsto> Document annotated)\<rparr>"

section \<open>The states the program can be in\<close>

text \<open>
  When the module is loaded there is no job, no marker of a current announcement, no
  thread, and nothing is printed or played; the files and the audio device are as the
  machine has them.  From there the state changes only by the functions above, in any
  order and with any arguments, and by the machine changing under the program.  Every
  route, every job that fires and every thread that runs is made of these steps.
\<close>

definition initial_world ::
  "(string \<Rightarrow> file_content option) \<Rightarrow> bool \<Rightarrow> (string \<Rightarrow> bool) \<Rightarrow> 'trig world" where
  "initial_world files audio mixer =
     \<lparr>fs = files, jobs = [], current_announcement = None, AUDIO_AVAILABLE = audio,
      mixer_plays = mixer, mixer_loaded = [], threads = [], printed = []\<rparr>"

inductive reachable :: "'trig cron_trigger \<Rightarrow> (json \<Rightarrow> string) \<Rightarrow> 'trig world \<Rightarrow> bool"
  for CronTrigger :: "'trig cron_trigger" and repr :: "json \<Rightarrow> string" where
  loaded: "reachable CronTrigger repr (initial_world files audio mixer)"
| machine:
    "reachable CronTrigger repr w \<Longrightarrow>
     reachable CronTrigger repr (w\<lparr>fs := files, AUDIO_AVAILABLE := audio, mixer_plays := mixer\<rparr>)"
| stop: "reachable CronTrigger repr w \<Longrightarrow> reachable CronTrigger repr (stop_safety_announcement w)"
| station:
    "reachable CronTrigger repr w \<Longrightarrow>
     reachable CronTrigger repr
       (play_station_announcement repr train_number direction destination track_number w)"
| promo: "reachable CronTrigger repr w \<Longrightarrow> reachable CronTrigger repr (snd (play_promo file w))"
| safety: "reachable CronTrigger repr w \<Longrightarrow> reachable CronTrigger repr (play_safety repr language w)"
| thread: "reachable CronTrigger repr w \<Longrightarrow> reachable CronTrigger repr (run_thread t w)"
| save:
    "reachable CronTrigger repr w \<Longrightarrow> reachable CronTrigger repr (snd (save_json fault name data w))"
| update:
    "reachable CronTrigger repr w \<Longrightarrow> reachable CronTrigger repr (snd (update_scheduler CronTrigger w))"

section \<open>Schedule entries as the specification types them\<close>

text \<open>
  The specification's schedule entry carries a cron text, the flag \<open>enabled\<close> and the
  fields of its kind; \<open>typed_entry\<close> says this of a value, and \<open>typed_document\<close> says it of
  every entry of a well-formed document.  The cron expression of an entry is valid when
  the standalone validator of the in-process variant accepts its text.  \<open>entry_log\<close> is
  the line to be found in the log for one entry, told from the validator's answer: the
  confirmation for an enabled entry that is valid, the error for an enabled entry whose
  five fields the trigger refuses, and nothing otherwise.
\<close>

definition cron_text :: "json \<Rightarrow> string" where
  "cron_text item = (case py_item item ''cron'' of Inr (JStr s) \<Rightarrow> s | _ \<Rightarrow> [])"

definition typed_entry :: "kind \<Rightarrow> json \<Rightarrow> bool" where
  "typed_entry k item \<longleftrightarrow>
     is_obj item
     \<and> (case py_item item ''cron'' of Inr (JStr s) \<Rightarrow> True | _ \<Rightarrow> False)
     \<and> (case py_items item (arg_keys k) of Inr vs \<Rightarrow> True | Inl e \<Rightarrow> False)"

definition typed_document :: "json \<Rightarrow> bool" where
  "typed_document cron_data \<longleftrightarrow>
     well_formed cron_data
     \<and> list_all (\<lambda>k. list_all (typed_entry k) (entries k cron_data)) [Station, Promo, Safety]"

definition valid_entry :: "'trig cron_trigger \<Rightarrow> json \<Rightarrow> bool" where
  "valid_entry CronTrigger item \<longleftrightarrow> fst (validate_cron_expression_win CronTrigger (cron_text item))"

definition entry_log :: "'trig cron_trigger \<Rightarrow> kind \<Rightarrow> nat \<Rightarrow> json \<Rightarrow> line list" where
  "entry_log CronTrigger k i item =
     (if \<not> entry_enabled item then []
      else
        (case validate_cron_expression_win CronTrigger (cron_text item) of
           (True, m) \<Rightarrow>
             [Scheduled (JStr (cron_text item))
                (case py_items item (arg_keys k) of Inr (v # vs) \<Rightarrow> v | _ \<Rightarrow> JNull)]
         | (False, Invalid_cron_expression e) \<Rightarrow> [Error_scheduling k i e]
         | (False, m) \<Rightarrow> []))"

definition kind_log :: "'trig cron_trigger \<Rightarrow> kind \<Rightarrow> json list \<Rightarrow> line list" where
  "kind_log CronTrigger k items =
     concat (map (\<lambda>(i, item). entry_log CronTrigger k i item) (enumerate 0 items))"

section \<open>Properties\<close>

subsection \<open>The validator and comma lists\<close>

text \<open>
  Claim C1.  The validator should accept exactly the expressions of the specification's
  grammar, in which a comma list is split first and each member may be a step, a range
  or a literal.  The code looks for a slash and for a dash before it looks for a comma.
  The minute field \<open>1-5,10\<close> is therefore read as a range whose end is \<open>5,10\<close>, which is no
  integer, and the expression is refused, although the grammar accepts it.
\<close>

theorem C1_list_with_range_refused:
  "validate_cron_expression ''1-5,10 * * * *'' = (False, Invalid_field ''minute'')
   \<and> spec_validate ''1-5,10 * * * *''"
  by code_simp

subsection \<open>A missing clip does not end the sequence\<close>

lemma attempted_append: "attempted (xs @ ys) = attempted xs @ attempted ys"
  by (induction xs rule: attempted.induct) auto

lemma reported_missing_append:
  "reported_missing (xs @ ys) = reported_missing xs @ reported_missing ys"
  by (induction xs rule: reported_missing.induct) auto

lemma play_audio_machine:
  "fs (snd (play_audio p w)) = fs w"
  "AUDIO_AVAILABLE (snd (play_audio p w)) = AUDIO_AVAILABLE w"
  "mixer_plays (snd (play_audio p w)) = mixer_plays w"
  by (simp_all add: play_audio_def py_print_def mixer_music_load_def)

lemma play_audio_printed:
  "os_path_exists w p \<Longrightarrow>
     printed (snd (play_audio p w))
       = printed w @ (if \<not> AUDIO_AVAILABLE w then [Audio_not_available p]
                      else if mixer_plays w p then [Playing_audio p]
                      else [Playing_audio p, Audio_playback_error])"
  by (simp add: play_audio_def py_print_def mixer_music_load_def os_path_exists_def)

lemma play_audio_mixer_loaded:
  "os_path_exists w p \<Longrightarrow>
     mixer_loaded (snd (play_audio p w)) = mixer_loaded w @ (if AUDIO_AVAILABLE w then [p] else [])"
  by (simp add: play_audio_def py_print_def mixer_music_load_def os_path_exists_def)

lemma os_path_exists_cong: "fs w' = fs w \<Longrightarrow> os_path_exists w' = os_path_exists w"
  by (simp add: os_path_exists_def fun_eq_iff)

lemma play_audio_sequence_step:
  "os_path_exists w p \<Longrightarrow>
     \<exists>w'. play_audio_sequence (p # ps) w = play_audio_sequence ps w'
        \<and> fs w' = fs w \<and> AUDIO_AVAILABLE w' = AUDIO_AVAILABLE w \<and> mixer_plays w' = mixer_plays w
        \<and> printed w' = printed w
             @ Playing (os_path_basename p)
               # (if \<not> AUDIO_AVAILABLE w then [Audio_not_available p]
                  else if mixer_plays w p then [Playing_audio p]
                  else [Playing_audio p, Audio_playback_error])
        \<and> mixer_loaded w' = mixer_loaded w @ (if AUDIO_AVAILABLE w then [p] else [])"
proof -
  assume ex: "os_path_exists w p"
  define v where "v = py_print (Playing (os_path_basename p)) w"
  have v: "fs v = fs w" "AUDIO_AVAILABLE v = AUDIO_AVAILABLE w" "mixer_plays v = mixer_plays w"
    "printed v = printed w @ [Playing (os_path_basename p)]" "mixer_loaded v = mixer_loaded w"
    by (simp_all add: v_def py_print_def)
  from ex v(1) have exv: "os_path_exists v p" by (simp add: os_path_exists_def)
  have "play_audio_sequence (p # ps) w = play_audio_sequence ps (snd (play_audio p v))"
    using ex by (simp add: v_def)
  moreover have "fs (snd (play_audio p v)) = fs w"
    "AUDIO_AVAILABLE (snd (play_audio p v)) = AUDIO_AVAILABLE w"
    "mixer_plays (snd (play_audio p v)) = mixer_plays w"
    by (simp_all add: play_audio_machine v)
  moreover have "printed (snd (play_audio p v)) = printed w
             @ Playing (os_path_basename p)
               # (if \<not> AUDIO_AVAILABLE w then [Audio_not_available p]
                  else if mixer_plays w p then [Playing_audio p]
                  else [Playing_audio p, Audio_playback_error])"
    by (simp add: play_audio_printed [OF exv] v)
  moreover have "mixer_loaded (snd (play_audio p v))
      = mixer_loaded w @ (if AUDIO_AVAILABLE w then [p] else [])"
    by (simp add: play_audio_mixer_loaded [OF exv] v)
  ultimately show ?thesis by blast
qed

lemma play_audio_sequence_printed:
  "printed (play_audio_sequence file_list w)
     = printed w
       @ concat (map (\<lambda>file_path.
           if os_path_exists w file_path
           then Playing (os_path_basename file_path)
                # (if \<not> AUDIO_AVAILABLE w then [Audio_not_available file_path]
                   else if mixer_plays w file_path then [Playing_audio file_path]
                   else [Playing_audio file_path, Audio_playback_error])
           else [Missing_audio_file file_path]) file_list)"
proof (induction file_list arbitrary: w)
  case Nil
  show ?case by simp
next
  case (Cons p ps)
  show ?case
  proof (cases "os_path_exists w p")
    case True
    from play_audio_sequence_step [OF True, of ps] obtain w'
      where s: "play_audio_sequence (p # ps) w = play_audio_sequence ps w'"
        and m: "fs w' = fs w" "AUDIO_AVAILABLE w' = AUDIO_AVAILABLE w" "mixer_plays w' = mixer_plays w"
        and pr: "printed w' = printed w
             @ Playing (os_path_basename p)
               # (if \<not> AUDIO_AVAILABLE w then [Audio_not_available p]
                  else if mixer_plays w p then [Playing_audio p]
                  else [Playing_audio p, Audio_playback_error])"
      by blast
    from m(1) have e: "os_path_exists w' = os_path_exists w" by (rule os_path_exists_cong)
    show ?thesis unfolding s Cons.IH [of w'] e m(2,3) pr using True by simp
  next
    case False
    define w' where "w' = py_print (Missing_audio_file p) w"
    have m: "fs w' = fs w" "AUDIO_AVAILABLE w' = AUDIO_AVAILABLE w" "mixer_plays w' = mixer_plays w"
      and pr: "printed w' = printed w @ [Missing_audio_file p]"
      by (simp_all add: w'_def py_print_def)
    from m(1) have e: "os_path_exists w' = os_path_exists w" by (rule os_path_exists_cong)
    have s: "play_audio_sequence (p # ps) w = play_audio_sequence ps w'"
      using False by (simp add: w'_def)
    show ?thesis unfolding s Cons.IH [of w'] e m(2,3) pr using False by simp
  qed
qed

lemma play_audio_sequence_mixer_loaded:
  "mixer_loaded (play_audio_sequence file_list w)
     = mixer_loaded w @ (if AUDIO_AVAILABLE w then filter (os_path_exists w) file_list else [])"
proof (induction file_list arbitrary: w)
  case Nil
  show ?case by simp
next
  case (Cons p ps)
  show ?case
  proof (cases "os_path_exists w p")
    case True
    from play_audio_sequence_step [OF True, of ps] obtain w'
      where s: "play_audio_sequence (p # ps) w = play_audio_sequence ps w'"
        and m: "fs w' = fs w" "AUDIO_AVAILABLE w' = AUDIO_AVAILABLE w"
        and ld: "mixer_loaded w' = mixer_loaded w @ (if AUDIO_AVAILABLE w then [p] else [])"
      by blast
    from m(1) have e: "os_path_exists w' = os_path_exists w" by (rule os_path_exists_cong)
    show ?thesis unfolding s Cons.IH [of w'] e m(2) ld using True by simp
  next
    case False
    define w' where "w' = py_print (Missing_audio_file p) w"
    have m: "fs w' = fs w" "AUDIO_AVAILABLE w' = AUDIO_AVAILABLE w"
      and ld: "mixer_loaded w' = mixer_loaded w"
      by (simp_all add: w'_def py_print_def)
    from m(1) have e: "os_path_exists w' = os_path_exists w" by (rule os_path_exists_cong)
    have s: "play_audio_sequence (p # ps) w = play_audio_sequence ps w'"
      using False by (simp add: w'_def)
    show ?thesis unfolding s Cons.IH [of w'] e m(2) ld using False by simp
  qed
qed

lemma play_audio_sequence_attempted:
  "attempted (printed (play_audio_sequence file_list w))
     = attempted (printed w) @ filter (os_path_exists w) file_list"
  unfolding play_audio_sequence_printed attempted_append
  by (induction file_list) (simp_all add: attempted_append)

lemma play_audio_sequence_reported_missing:
  "reported_missing (printed (play_audio_sequence file_list w))
     = reported_missing (printed w) @ filter (\<lambda>file_path. \<not> os_path_exists w file_path) file_list"
  unfolding play_audio_sequence_printed reported_missing_append
  by (induction file_list) (simp_all add: reported_missing_append)

lemma combine_audio_fst:
  "fst (combine_audio from_mp3 mp3_files (combined_audio, out))
     = combined_audio
       @ concat (map (\<lambda>f. case from_mp3 f of Inr audio \<Rightarrow> audio | Inl e \<Rightarrow> []) mp3_files)"
  by (induction mp3_files arbitrary: combined_audio out) (auto split: sum.splits)

lemma combine_audio_snd:
  "snd (combine_audio from_mp3 mp3_files (combined_audio, out))
     = out @ map Error_loading_file (filter (\<lambda>f. isl (from_mp3 f)) mp3_files)"
  by (induction mp3_files arbitrary: combined_audio out) (auto split: sum.splits)

text \<open>
  Claim C9.  While a sequence plays, a clip whose file is missing is reported and passed
  over, and the rest of the sequence goes on.  \<open>play_audio_sequence\<close> prints, clip by clip
  in the order of the list, the line \<open>Playing: ...\<close> with the clip's file name followed by
  the lines of \<open>play_audio\<close> for a clip whose file exists, and the line
  \<open>Missing audio file: ...\<close> for a clip whose file does not.  So \<open>play_audio\<close> is called on
  exactly the clips whose files exist, in the order of the list, the clips reported
  missing are exactly the others, and with the audio device in order the mixer is handed
  exactly the existing clips, in that order.  For five clips of which the third is
  missing, the first, second, fourth and fifth are attempted in this order and the third
  is reported.  The first version of the program builds one stream of the clips that
  load, in the order of the list; a clip that does not load adds nothing and is reported.
\<close>

theorem C9_missing_clip_reported_and_skipped:
  "printed (play_audio_sequence file_list w)
     = printed w
       @ concat (map (\<lambda>file_path.
           if os_path_exists w file_path
           then Playing (os_path_basename file_path)
                # (if \<not> AUDIO_AVAILABLE w then [Audio_not_available file_path]
                   else if mixer_plays w file_path then [Playing_audio file_path]
                   else [Playing_audio file_path, Audio_playback_error])
           else [Missing_audio_file file_path]) file_list)
   \<and> attempted (printed (play_audio_sequence file_list w))
       = attempted (printed w) @ filter (os_path_exists w) file_list
   \<and> reported_missing (printed (play_audio_sequence file_list w))
       = reported_missing (printed w)
         @ filter (\<lambda>file_path. \<not> os_path_exists w file_path) file_list
   \<and> mixer_loaded (play_audio_sequence file_list w)
       = mixer_loaded w @ (if AUDIO_AVAILABLE w then filter (os_path_exists w) file_list else [])
   \<and> (os_path_exists w c1 \<and> os_path_exists w c2 \<and> \<not> os_path_exists w c3
        \<and> os_path_exists w c4 \<and> os_path_exists w c5
      \<longrightarrow> attempted (printed (play_audio_sequence [c1, c2, c3, c4, c5] w))
            = attempted (printed w) @ [c1, c2, c4, c5]
          \<and> reported_missing (printed (play_audio_sequence [c1, c2, c3, c4, c5] w))
            = reported_missing (printed w) @ [c3])
   \<and> fst (combine_audio from_mp3 mp3_files ([], []))
       = concat (map (\<lambda>f. case from_mp3 f of Inr audio \<Rightarrow> audio | Inl e \<Rightarrow> []) mp3_files)
   \<and> snd (combine_audio from_mp3 mp3_files ([], []))
       = map Error_loading_file (filter (\<lambda>f. isl (from_mp3 f)) mp3_files)"
proof (intro conjI impI)
  show "printed (play_audio_sequence file_list w)
     = printed w
       @ concat (map (\<lambda>file_path.
           if os_path_exists w file_path
           then Playing (os_path_basename file_path)
                # (if \<not> AUDIO_AVAILABLE w then [Audio_not_available file_path]
                   else if mixer_plays w file_path then [Playing_audio file_path]
                   else [Playing_audio file_path, Audio_playback_error])
           else [Missing_audio_file file_path]) file_list)"
    by (rule play_audio_sequence_printed)
  show "attempted (printed (play_audio_sequence file_list w))
       = attempted (printed w) @ filter (os_path_exists w) file_list"
    by (rule play_audio_sequence_attempted)
  show "reported_missing (printed (play_audio_sequence file_list w))
       = reported_missing (printed w)
         @ filter (\<lambda>file_path. \<not> os_path_exists w file_path) file_list"
    by (rule play_audio_sequence_reported_missing)
  show "mixer_loaded (play_audio_sequence file_list w)
       = mixer_loaded w @ (if AUDIO_AVAILABLE w then filter (os_path_exists w) file_list else [])"
    by (rule play_audio_sequence_mixer_loaded)
  show "fst (combine_audio from_mp3 mp3_files ([], []))
       = concat (map (\<lambda>f. case from_mp3 f of Inr audio \<Rightarrow> audio | Inl e \<Rightarrow> []) mp3_files)"
    using combine_audio_fst [of from_mp3 mp3_files "[]" "[]"] by simp
  show "snd (combine_audio from_mp3 mp3_files ([], []))
       = map Error_loading_file (filter (\<lambda>f. isl (from_mp3 f)) mp3_files)"
    using combine_audio_snd [of from_mp3 mp3_files "[]" "[]"] by simp
next
  assume a: "os_path_exists w c1 \<and> os_path_exists w c2 \<and> \<not> os_path_exists w c3
        \<and> os_path_exists w c4 \<and> os_path_exists w c5"
  then show "attempted (printed (play_audio_sequence [c1, c2, c3, c4, c5] w))
            = attempted (printed w) @ [c1, c2, c4, c5]"
    by (simp only: play_audio_sequence_attempted) simp
  from a show "reported_missing (printed (play_audio_sequence [c1, c2, c3, c4, c5] w))
            = reported_missing (printed w) @ [c3]"
    by (simp only: play_audio_sequence_reported_missing) simp
qed

lemma station_sequence_example:
  "audio_sequence (\<lambda>v. []) (JStr ''1'') (JStr ''westbound'') (JStr ''goodwin_station'') (JStr ''1'')
   = [''static/mp3/chime.mp3'', ''static/mp3/train/1.mp3'', ''static/mp3/direction/westbound.mp3'',
      ''static/mp3/destination/goodwin_station.mp3'', ''static/mp3/track/1.mp3'']"
  by (simp add: audio_sequence_def os_path_join_def MP3_DIR_def)

lemma station_world_clips:
  "os_path_exists station_world ''static/mp3/chime.mp3''
   \<and> os_path_exists station_world ''static/mp3/train/1.mp3''
   \<and> \<not> os_path_exists station_world ''static/mp3/direction/westbound.mp3''
   \<and> os_path_exists station_world ''static/mp3/destination/goodwin_station.mp3''
   \<and> os_path_exists station_world ''static/mp3/track/1.mp3''"
  by (simp add: os_path_exists_def station_world_def)

theorem C9_missing_clip_reported_and_skipped_witness:
  "attempted (printed (play_audio_sequence
      (audio_sequence (\<lambda>v. []) (JStr ''1'') (JStr ''westbound'') (JStr ''goodwin_station'') (JStr ''1''))
      station_world))
   = [''static/mp3/chime.mp3'', ''static/mp3/train/1.mp3'',
      ''static/mp3/destination/goodwin_station.mp3'', ''static/mp3/track/1.mp3'']
   \<and> reported_missing (printed (play_audio_sequence
      (audio_sequence (\<lambda>v. []) (JStr ''1'') (JStr ''westbound'') (JStr ''goodwin_station'') (JStr ''1''))
      station_world))
   = [''static/mp3/direction/westbound.mp3'']
   \<and> mixer_loaded (play_audio_sequence
      (audio_sequence (\<lambda>v. []) (JStr ''1'') (JStr ''westbound'') (JStr ''goodwin_station'') (JStr ''1''))
      station_world)
   = [''static/mp3/chime.mp3'', ''static/mp3/train/1.mp3'',
      ''static/mp3/destination/goodwin_station.mp3'', ''static/mp3/track/1.mp3'']
   \<and> printed (play_audio_sequence
      (audio_sequence (\<lambda>v. []) (JStr ''1'') (JStr ''westbound'') (JStr ''goodwin_station'') (JStr ''1''))
      station_world)
   = [Playing ''chime.mp3'', Playing_audio ''static/mp3/chime.mp3'',
      Playing ''1.mp3'', Playing_audio ''static/mp3/train/1.mp3'',
      Missing_audio_file ''static/mp3/direction/westbound.mp3'',
      Playing ''goodwin_station.mp3'', Playing_audio ''static/mp3/destination/goodwin_station.mp3'',
      Playing ''1.mp3'', Playing_audio ''static/mp3/track/1.mp3'']"
proof -
  note ex = station_world_clips
  have start: "printed station_world = []" "mixer_loaded station_world = []"
    "AUDIO_AVAILABLE station_world" "mixer_plays station_world = (\<lambda>p. True)"
    by (simp_all add: station_world_def)
  note inst = C9_missing_clip_reported_and_skipped [of
      "[''static/mp3/chime.mp3'', ''static/mp3/train/1.mp3'', ''static/mp3/direction/westbound.mp3'',
        ''static/mp3/destination/goodwin_station.mp3'', ''static/mp3/track/1.mp3'']"
      station_world
      "''static/mp3/chime.mp3''" "''static/mp3/train/1.mp3''"
      "''static/mp3/direction/westbound.mp3''"
      "''static/mp3/destination/goodwin_station.mp3''" "''static/mp3/track/1.mp3''"
      "\<lambda>f. Inl OSError" "[]"]
  from inst ex have a: "attempted (printed (play_audio_sequence
          [''static/mp3/chime.mp3'', ''static/mp3/train/1.mp3'',
           ''static/mp3/direction/westbound.mp3'',
           ''static/mp3/destination/goodwin_station.mp3'', ''static/mp3/track/1.mp3'']
          station_world))
        = attempted (printed station_world)
          @ [''static/mp3/chime.mp3'', ''static/mp3/train/1.mp3'',
             ''static/mp3/destination/goodwin_station.mp3'', ''static/mp3/track/1.mp3'']"
    and r: "reported_missing (printed (play_audio_sequence
          [''static/mp3/chime.mp3'', ''static/mp3/train/1.mp3'',
           ''static/mp3/direction/westbound.mp3'',
           ''static/mp3/destination/goodwin_station.mp3'', ''static/mp3/track/1.mp3'']
          station_world))
        = reported_missing (printed station_world) @ [''static/mp3/direction/westbound.mp3'']"
    by blast+
  from inst have l: "mixer_loaded (play_audio_sequence
          [''static/mp3/chime.mp3'', ''static/mp3/train/1.mp3'',
           ''static/mp3/direction/westbound.mp3'',
           ''static/mp3/destination/goodwin_station.mp3'', ''static/mp3/track/1.mp3'']
          station_world)
       = mixer_loaded station_world
         @ (if AUDIO_AVAILABLE station_world
            then filter (os_path_exists station_world)
              [''static/mp3/chime.mp3'', ''static/mp3/train/1.mp3'',
               ''static/mp3/direction/westbound.mp3'',
               ''static/mp3/destination/goodwin_station.mp3'', ''static/mp3/track/1.mp3'']
            else [])"
    by blast
  from inst have p: "printed (play_audio_sequence
          [''static/mp3/chime.mp3'', ''static/mp3/train/1.mp3'',
           ''static/mp3/direction/westbound.mp3'',
           ''static/mp3/destination/goodwin_station.mp3'', ''static/mp3/track/1.mp3'']
          station_world)
     = printed station_world
       @ concat (map (\<lambda>file_path.
           if os_path_exists station_world file_path
           then Playing (os_path_basename file_path)
                # (if \<not> AUDIO_AVAILABLE station_world then [Audio_not_available file_path]
                   else if mixer_plays station_world file_path then [Playing_audio file_path]
                   else [Playing_audio file_path, Audio_playback_error])
           else [Missing_audio_file file_path])
          [''static/mp3/chime.mp3'', ''static/mp3/train/1.mp3'',
           ''static/mp3/direction/westbound.mp3'',
           ''static/mp3/destination/goodwin_station.mp3'', ''static/mp3/track/1.mp3''])"
    by blast
  have names: "os_path_basename ''static/mp3/chime.mp3'' = ''chime.mp3''"
    "os_path_basename ''static/mp3/train/1.mp3'' = ''1.mp3''"
    "os_path_basename ''static/mp3/destination/goodwin_station.mp3'' = ''goodwin_station.mp3''"
    "os_path_basename ''static/mp3/track/1.mp3'' = ''1.mp3''"
    by (simp_all add: os_path_basename_def)
  show ?thesis
    unfolding station_sequence_example a r l p
    by (simp add: ex start names)
qed

subsection \<open>The marker of the current announcement\<close>

text \<open>
  What a step leaves alone.  Playing prints and loads; the update of the scheduler writes
  the job table and prints; saving writes a file.
\<close>

lemma play_audio_marker: "current_announcement (snd (play_audio p w)) = current_announcement w"
  by (simp add: play_audio_def py_print_def mixer_music_load_def)

lemma play_audio_sequence_marker:
  "current_announcement (play_audio_sequence file_list w) = current_announcement w"
  by (induction file_list arbitrary: w) (simp_all add: play_audio_marker, simp_all add: py_print_def)

lemma run_thread_marker: "current_announcement (run_thread t w) = current_announcement w"
  by (cases t) (simp_all add: play_audio_sequence_marker play_audio_marker)

lemma save_json_marker:
  "current_announcement (snd (save_json fault name data w)) = current_announcement w"
  by (simp add: save_json_def split: option.splits io_fault.splits)

lemma frame_trans:
  assumes "w1\<lparr>jobs := jobs w, printed := printed w\<rparr> = w"
    and "w2\<lparr>jobs := jobs w1, printed := printed w1\<rparr> = w1"
  shows "w2\<lparr>jobs := jobs w, printed := printed w\<rparr> = w"
proof -
  from assms(2) have "w2\<lparr>jobs := jobs w1, printed := printed w1\<rparr>\<lparr>jobs := jobs w, printed := printed w\<rparr>
      = w1\<lparr>jobs := jobs w, printed := printed w\<rparr>" by (rule arg_cong)
  with assms(1) show ?thesis by simp
qed

lemma schedule_item_frame:
  "(snd (schedule_item ct k i item w))\<lparr>jobs := jobs w, printed := printed w\<rparr> = w"
  unfolding schedule_item_def
  by (auto simp: add_job_def py_print_def split: sum.splits option.splits if_splits)

lemma schedule_items_frame:
  "(snd (schedule_items ct k i items w))\<lparr>jobs := jobs w, printed := printed w\<rparr> = w"
proof (induction items arbitrary: i w)
  case Nil
  show ?case by simp
next
  case (Cons item items)
  obtain r w1 where s: "schedule_item ct k i item w = (r, w1)" by (cases "schedule_item ct k i item w")
  from schedule_item_frame [where ct = ct and k = k and i = i and item = item and w = w] s
  have f1: "w1\<lparr>jobs := jobs w, printed := printed w\<rparr> = w" by simp
  show ?case
  proof (cases r)
    case None
    with s have "snd (schedule_items ct k i (item # items) w) = snd (schedule_items ct k (Suc i) items w1)"
      by simp
    with frame_trans [OF f1 Cons.IH [where i = "Suc i" and w = w1]] show ?thesis by simp
  next
    case (Some e)
    with s f1 show ?thesis by simp
  qed
qed

lemma schedule_kind_frame:
  "(snd (schedule_kind ct k doc w))\<lparr>jobs := jobs w, printed := printed w\<rparr> = w"
  unfolding schedule_kind_def
  by (auto simp: schedule_items_frame split: sum.splits)

lemma update_scheduler_frame:
  "(snd (update_scheduler ct w))\<lparr>jobs := jobs w, printed := printed w\<rparr> = w"
proof (cases "fs w cron_file")
  case None
  then show ?thesis by (simp add: update_scheduler_def)
next
  case (Some c)
  show ?thesis
  proof (cases c)
    case Other
    with Some show ?thesis by (simp add: update_scheduler_def)
  next
    case (Document doc)
    define w0 where "w0 = remove_all_jobs w"
    have f0: "w0\<lparr>jobs := jobs w, printed := printed w\<rparr> = w"
      by (simp add: w0_def remove_all_jobs_def)
    obtain r1 w1 where s1: "schedule_kind ct Station doc w0 = (r1, w1)"
      by (cases "schedule_kind ct Station doc w0")
    obtain r2 w2 where s2: "schedule_kind ct Promo doc w1 = (r2, w2)"
      by (cases "schedule_kind ct Promo doc w1")
    obtain r3 w3 where s3: "schedule_kind ct Safety doc w2 = (r3, w3)"
      by (cases "schedule_kind ct Safety doc w2")
    from schedule_kind_frame [where ct = ct and k = Station and doc = doc and w = w0] s1
    have "w1\<lparr>jobs := jobs w0, printed := printed w0\<rparr> = w0" by simp
    with f0 have f1: "w1\<lparr>jobs := jobs w, printed := printed w\<rparr> = w" by (rule frame_trans)
    from schedule_kind_frame [where ct = ct and k = Promo and doc = doc and w = w1] s2
    have "w2\<lparr>jobs := jobs w1, printed := printed w1\<rparr> = w1" by simp
    with f1 have f2: "w2\<lparr>jobs := jobs w, printed := printed w\<rparr> = w" by (rule frame_trans)
    from schedule_kind_frame [where ct = ct and k = Safety and doc = doc and w = w2] s3
    have "w3\<lparr>jobs := jobs w2, printed := printed w2\<rparr> = w2" by simp
    with f2 have f3: "w3\<lparr>jobs := jobs w, printed := printed w\<rparr> = w" by (rule frame_trans)
    have "(py_print Scheduler_updated w3)\<lparr>jobs := jobs w3, printed := printed w3\<rparr> = w3"
      by (simp add: py_print_def)
    with f3 have f4: "(py_print Scheduler_updated w3)\<lparr>jobs := jobs w, printed := printed w\<rparr> = w"
      by (rule frame_trans)
    have "snd (update_scheduler ct w) = w1 \<or> snd (update_scheduler ct w) = w2
        \<or> snd (update_scheduler ct w) = w3
        \<or> snd (update_scheduler ct w) = py_print Scheduler_updated w3"
      using Some Document s1 s2 s3
      by (simp add: update_scheduler_def w0_def split: option.splits)
    with f1 f2 f3 f4 show ?thesis by (elim disjE) simp_all
  qed
qed

lemma update_scheduler_same:
  "fs (snd (update_scheduler ct w)) = fs w"
  "current_announcement (snd (update_scheduler ct w)) = current_announcement w"
  "threads (snd (update_scheduler ct w)) = threads w"
proof -
  note f = update_scheduler_frame [where ct = ct and w = w]
  show "fs (snd (update_scheduler ct w)) = fs w"
    using arg_cong [OF f, of fs] by simp
  show "current_announcement (snd (update_scheduler ct w)) = current_announcement w"
    using arg_cong [OF f, of current_announcement] by simp
  show "threads (snd (update_scheduler ct w)) = threads w"
    using arg_cong [OF f, of threads] by simp
qed

lemma play_station_announcement_marker:
  "current_announcement (play_station_announcement repr a b c d w) = current_announcement w"
  by (simp add: play_station_announcement_def start_thread_def py_print_def)

lemma play_safety_marker: "current_announcement (play_safety repr l w) = current_announcement w"
  by (simp add: play_safety_def start_thread_def)

lemma play_promo_marker: "current_announcement (snd (play_promo f w)) = current_announcement w"
  by (simp add: play_promo_def start_thread_def split: json.splits)

lemma reachable_marker: "reachable ct repr w \<Longrightarrow> current_announcement w = None"
proof (induction rule: reachable.induct)
  case (loaded files audio mixer)
  show ?case by (simp add: initial_world_def)
next
  case (machine w files audio mixer)
  then show ?case by simp
next
  case (stop w)
  show ?case by (simp add: stop_safety_announcement_def)
next
  case (station w train_number direction destination track_number)
  then show ?case by (simp add: play_station_announcement_marker)
next
  case (promo w f)
  then show ?case by (simp add: play_promo_marker)
next
  case (safety w language)
  then show ?case by (simp add: play_safety_marker)
next
  case (thread w t)
  then show ?case by (simp add: run_thread_marker)
next
  case (save w fault name data)
  then show ?case by (simp add: save_json_marker)
next
  case (update w)
  then show ?case by (simp add: update_scheduler_same)
qed

text \<open>The routes and a job that fires are made of the steps.\<close>

lemma reachable_play_announcement_route:
  "reachable ct repr w \<Longrightarrow> reachable ct repr (play_announcement_route repr form w)"
  unfolding play_announcement_route_def by (intro reachable.station reachable.stop)

lemma reachable_play_safety_route:
  "reachable ct repr w \<Longrightarrow> reachable ct repr (play_safety_route repr form w)"
  unfolding play_safety_route_def by (intro reachable.safety reachable.stop)

lemma reachable_api_station_announcement:
  "reachable ct repr w \<Longrightarrow> reachable ct repr (snd (api_station_announcement repr data w))"
  by (auto simp: api_station_announcement_def intro: reachable.station
      split: sum.splits list.splits)

lemma reachable_run_job:
  "reachable ct repr w \<Longrightarrow> reachable ct repr (snd (run_job repr j w))"
  by (auto simp: run_job_def intro: reachable.station reachable.safety reachable.promo
      split: kind.splits list.splits)

lemma reachable_api_schedule:
  assumes "reachable ct repr w"
  shows "reachable ct repr (snd (api_schedule ct fault data w))"
proof -
  have sv: "\<And>v. reachable ct repr (snd (save_json fault ''cron'' v w))"
    using assms by (rule reachable.save)
  have up: "\<And>v. reachable ct repr (snd (update_scheduler ct (snd (save_json fault ''cron'' v w))))"
    using sv by (rule reachable.update)
  have "snd (api_schedule ct fault data w) = w
      \<or> (\<exists>v. snd (api_schedule ct fault data w) = snd (save_json fault ''cron'' v w))
      \<or> (\<exists>v. snd (api_schedule ct fault data w)
              = snd (update_scheduler ct (snd (save_json fault ''cron'' v w))))"
    unfolding api_schedule_def
    by (auto split: sum.splits prod.splits option.splits) (metis snd_conv)+
  with assms sv up show ?thesis by (elim disjE exE) simp_all
qed

text \<open>
  Claim C10.  On every path that starts a station or safety announcement, the marker of
  the current announcement is empty when the sequence starts.  The two web forms empty
  it themselves, whatever it holds: they call \<open>stop_safety_announcement\<close> first.  The API
  trigger and a job fired by the scheduler call \<open>play_station_announcement\<close> or
  \<open>play_safety\<close> at once; there the marker is empty because it is empty in every state
  the program can be in: it is empty when the module is loaded and no step stores
  anything in it.  Each path prints at most a line and starts its thread, so the state
  after the call is the state the thread starts in; the marker stays empty while the
  thread plays, and every path leads to a state the program can be in again.
\<close>

theorem C10_marker_is_empty_when_a_sequence_starts:
  assumes "reachable CronTrigger repr w"
  shows "current_announcement w = None
         \<and> current_announcement (play_announcement_route repr form w) = None
         \<and> threads (play_announcement_route repr form w)
             = threads w
               @ [Sequence_thread
                    (audio_sequence repr (form_get form ''train_number'')
                       (form_get form ''direction'') (form_get form ''destination'')
                       (form_get form ''track_number''))]
         \<and> current_announcement (play_safety_route repr form w) = None
         \<and> threads (play_safety_route repr form w)
             = threads w
               @ [Audio_thread
                    (os_path_join (MP3_PATHS K_safety)
                       (''safety_'' @ py_str repr (form_get form ''language'') @ ''.mp3''))]
         \<and> (fst (api_station_announcement repr data w) = Announcement_triggered
            \<longrightarrow> current_announcement (snd (api_station_announcement repr data w)) = None
                \<and> (\<exists>a b c d.
                      py_items data [''train_number'', ''direction'', ''destination'', ''track_number'']
                        = Inr [a, b, c, d]
                      \<and> threads (snd (api_station_announcement repr data w))
                          = threads w @ [Sequence_thread (audio_sequence repr a b c d)]))
         \<and> (func j = Station \<and> args j = [train_number, direction, destination, track_number]
            \<longrightarrow> current_announcement (snd (run_job repr j w)) = None
                \<and> threads (snd (run_job repr j w))
                    = threads w
                      @ [Sequence_thread
                           (audio_sequence repr train_number direction destination track_number)])
         \<and> (func j = Safety \<and> args j = [language]
            \<longrightarrow> current_announcement (snd (run_job repr j w)) = None
                \<and> threads (snd (run_job repr j w))
                    = threads w
                      @ [Audio_thread
                           (os_path_join (MP3_PATHS K_safety)
                              (''safety_'' @ py_str repr language @ ''.mp3''))])
         \<and> current_announcement (play_safety repr language w) = None
         \<and> current_announcement (run_thread t w) = None
         \<and> current_announcement (play_announcement_route repr form v) = None
         \<and> current_announcement (play_safety_route repr form v) = None
         \<and> reachable CronTrigger repr (play_announcement_route repr form w)
         \<and> reachable CronTrigger repr (play_safety_route repr form w)
         \<and> reachable CronTrigger repr (snd (api_station_announcement repr data w))
         \<and> reachable CronTrigger repr (snd (run_job repr j w))
         \<and> reachable CronTrigger repr (run_thread t w)
         \<and> reachable CronTrigger repr (snd (api_schedule CronTrigger fault body w))"
proof -
  note r = assms
  have m: "\<And>w'. reachable CronTrigger repr w' \<Longrightarrow> current_announcement w' = None"
    by (rule reachable_marker)
  have r1: "reachable CronTrigger repr (play_announcement_route repr form w)"
    using r by (rule reachable_play_announcement_route)
  have r2: "reachable CronTrigger repr (play_safety_route repr form w)"
    using r by (rule reachable_play_safety_route)
  have r3: "reachable CronTrigger repr (snd (api_station_announcement repr data w))"
    using r by (rule reachable_api_station_announcement)
  have r4: "reachable CronTrigger repr (snd (run_job repr j w))"
    using r by (rule reachable_run_job)
  have r6: "reachable CronTrigger repr (run_thread t w)"
    using r by (rule reachable.thread)
  have r7: "reachable CronTrigger repr (snd (api_schedule CronTrigger fault body w))"
    using r by (rule reachable_api_schedule)
  have r8: "reachable CronTrigger repr (play_safety repr language w)"
    using r by (rule reachable.safety)
  have t1: "threads (play_announcement_route repr form w)
             = threads w
               @ [Sequence_thread
                    (audio_sequence repr (form_get form ''train_number'')
                       (form_get form ''direction'') (form_get form ''destination'')
                       (form_get form ''track_number''))]"
    by (simp add: play_announcement_route_def play_station_announcement_def start_thread_def
        py_print_def stop_safety_announcement_def)
  have t2: "threads (play_safety_route repr form w)
             = threads w
               @ [Audio_thread
                    (os_path_join (MP3_PATHS K_safety)
                       (''safety_'' @ py_str repr (form_get form ''language'') @ ''.mp3''))]"
    by (simp add: play_safety_route_def play_safety_def start_thread_def
        stop_safety_announcement_def)
  have t3: "fst (api_station_announcement repr data w) = Announcement_triggered
            \<longrightarrow> (\<exists>a b c d.
                      py_items data [''train_number'', ''direction'', ''destination'', ''track_number'']
                        = Inr [a, b, c, d]
                      \<and> threads (snd (api_station_announcement repr data w))
                          = threads w @ [Sequence_thread (audio_sequence repr a b c d)])"
    unfolding api_station_announcement_def
    by (auto simp: play_station_announcement_def start_thread_def py_print_def
        split: sum.splits list.splits if_splits)
  have t4: "func j = Station \<and> args j = [train_number, direction, destination, track_number]
            \<longrightarrow> threads (snd (run_job repr j w))
                    = threads w
                      @ [Sequence_thread
                           (audio_sequence repr train_number direction destination track_number)]"
    by (simp add: run_job_def play_station_announcement_def start_thread_def py_print_def)
  have t5: "func j = Safety \<and> args j = [language]
            \<longrightarrow> threads (snd (run_job repr j w))
                    = threads w
                      @ [Audio_thread
                           (os_path_join (MP3_PATHS K_safety)
                              (''safety_'' @ py_str repr language @ ''.mp3''))]"
    by (simp add: run_job_def play_safety_def start_thread_def)
  have v1: "current_announcement (play_announcement_route repr form v) = None"
    by (simp add: play_announcement_route_def play_station_announcement_marker
        stop_safety_announcement_def)
  have v2: "current_announcement (play_safety_route repr form v) = None"
    by (simp add: play_safety_route_def play_safety_marker stop_safety_announcement_def)
  from m [OF r] m [OF r1] m [OF r2] m [OF r3] m [OF r4] m [OF r6] m [OF r8]
    r1 r2 r3 r4 r6 r7 t1 t2 t3 t4 t5 v1 v2
  show ?thesis by (intro conjI impI) blast+
qed

lemma station_world_loaded:
  "station_world = initial_world (fs station_world) True (\<lambda>p. True)"
  by (simp add: station_world_def initial_world_def)

theorem C10_marker_is_empty_when_a_sequence_starts_witness:
  "fst (api_station_announcement (\<lambda>v. []) station_request station_world) = Announcement_triggered
   \<and> current_announcement (snd (api_station_announcement (\<lambda>v. []) station_request station_world))
       = None
   \<and> threads (snd (api_station_announcement (\<lambda>v. []) station_request station_world))
       = [Sequence_thread
            [''static/mp3/chime.mp3'', ''static/mp3/train/1.mp3'',
             ''static/mp3/direction/westbound.mp3'',
             ''static/mp3/destination/goodwin_station.mp3'', ''static/mp3/track/1.mp3'']]"
proof -
  have "reachable field_trigger (\<lambda>v. []) (initial_world (fs station_world) True (\<lambda>p. True))"
    by (rule reachable.loaded)
  then have r: "reachable field_trigger (\<lambda>v. []) station_world"
    by (simp only: station_world_loaded [symmetric])
  have ok: "fst (api_station_announcement (\<lambda>v. []) station_request station_world)
      = Announcement_triggered"
    by (simp add: api_station_announcement_def station_request_def)
  have items: "py_items station_request [''train_number'', ''direction'', ''destination'', ''track_number'']
      = Inr [JStr ''1'', JStr ''westbound'', JStr ''goodwin_station'', JStr ''1'']"
    by (simp add: station_request_def)
  have none: "threads station_world = []" by (simp add: station_world_def)
  note inst = C10_marker_is_empty_when_a_sequence_starts [OF r, of "\<lambda>k. None" station_request]
  note api = inst [THEN conjunct2, THEN conjunct2, THEN conjunct2, THEN conjunct2, THEN conjunct2,
      THEN conjunct1, rule_format, OF ok]
  from api
  have m: "current_announcement (snd (api_station_announcement (\<lambda>v. []) station_request station_world))
       = None"
    by (rule conjunct1)
  from api
  have "\<exists>a b c d.
          py_items station_request [''train_number'', ''direction'', ''destination'', ''track_number'']
            = Inr [a, b, c, d]
          \<and> threads (snd (api_station_announcement (\<lambda>v. []) station_request station_world))
              = threads station_world @ [Sequence_thread (audio_sequence (\<lambda>v. []) a b c d)]"
    by (rule conjunct2)
  then have "threads (snd (api_station_announcement (\<lambda>v. []) station_request station_world))
      = threads station_world
        @ [Sequence_thread (audio_sequence (\<lambda>v. []) (JStr ''1'') (JStr ''westbound'')
             (JStr ''goodwin_station'') (JStr ''1''))]"
    unfolding items by auto
  then have t: "threads (snd (api_station_announcement (\<lambda>v. []) station_request station_world))
       = [Sequence_thread
            [''static/mp3/chime.mp3'', ''static/mp3/train/1.mp3'',
             ''static/mp3/direction/westbound.mp3'',
             ''static/mp3/destination/goodwin_station.mp3'', ''static/mp3/track/1.mp3'']]"
    by (simp only: station_sequence_example none append_Nil)
  from ok m t show ?thesis by (intro conjI)
qed

subsection \<open>What the update registers, for a well-formed document\<close>

text \<open>
  Job ids are the prefix of the kind followed by the index in decimal; two ids are equal
  only for the same kind and the same index.  So \<open>add_job\<close> never meets an id twice
  during one update, and the update of a well-formed document runs through all three
  lists without an exception.
\<close>

lemma of_char_digit_char: "m < 10 \<Longrightarrow> of_char (digit_char m) = (48 + m :: nat)"
  by (simp add: digit_char_def)

lemma digit_char_inj: "m < 10 \<Longrightarrow> n < 10 \<Longrightarrow> digit_char m = digit_char n \<Longrightarrow> m = n"
proof -
  assume m: "m < 10" and n: "n < 10" and e: "digit_char m = digit_char n"
  from e have "(of_char (digit_char m) :: nat) = of_char (digit_char n)" by (rule arg_cong)
  then have "48 + m = 48 + n"
    by (simp only: of_char_digit_char [OF m] of_char_digit_char [OF n])
  then show "m = n" by (simp only: add_left_cancel)
qed

lemma str_nat_not_Nil: "str_nat n \<noteq> []"
  by (subst str_nat.simps) simp

lemma str_nat_inj: "str_nat m = str_nat n \<Longrightarrow> m = n"
proof (induction m arbitrary: n rule: str_nat.induct)
  case (1 m)
  show ?case
  proof (cases "m < 10")
    case True
    then have sm: "str_nat m = [digit_char m]" by (subst str_nat.simps) simp
    show ?thesis
    proof (cases "n < 10")
      case nt: True
      then have "str_nat n = [digit_char n]" by (subst str_nat.simps) simp
      with sm "1.prems" have "digit_char m = digit_char n" by simp
      with True nt show ?thesis by (simp add: digit_char_inj)
    next
      case False
      then have "str_nat n = str_nat (n div 10) @ [digit_char (n mod 10)]"
        by (subst str_nat.simps) simp
      with sm "1.prems" str_nat_not_Nil [of "n div 10"] show ?thesis by simp
    qed
  next
    case False
    then have sm: "str_nat m = str_nat (m div 10) @ [digit_char (m mod 10)]"
      by (subst str_nat.simps) simp
    show ?thesis
    proof (cases "n < 10")
      case True
      then have "str_nat n = [digit_char n]" by (subst str_nat.simps) simp
      with sm "1.prems" str_nat_not_Nil [of "m div 10"] show ?thesis by simp
    next
      case nf: False
      then have sn: "str_nat n = str_nat (n div 10) @ [digit_char (n mod 10)]"
        by (subst str_nat.simps) simp
      from "1.prems" [unfolded sm sn]
      have e1: "str_nat (m div 10) = str_nat (n div 10)"
        and e2: "digit_char (m mod 10) = digit_char (n mod 10)"
        by (simp_all only: append1_eq_conv)
      from "1.IH" [OF False e1] have d: "m div 10 = n div 10" .
      have r: "m mod 10 = n mod 10"
        by (rule digit_char_inj [OF _ _ e2]) simp_all
      have "m = m div 10 * 10 + m mod 10" by simp
      also have "\<dots> = n div 10 * 10 + n mod 10" by (simp only: d r)
      also have "\<dots> = n" by simp
      finally show ?thesis .
    qed
  qed
qed

lemma id_prefix_inj: "id_prefix k @ s = id_prefix k' @ t \<Longrightarrow> k = k'"
  by (cases k; cases k') auto

lemma job_id_inj: "id_prefix k @ str_nat m = id_prefix k' @ str_nat n \<longleftrightarrow> k = k' \<and> m = n"
proof
  assume e: "id_prefix k @ str_nat m = id_prefix k' @ str_nat n"
  from e have k: "k = k'" by (rule id_prefix_inj)
  with e have "str_nat m = str_nat n" by simp
  then have "m = n" by (rule str_nat_inj)
  with k show "k = k' \<and> m = n" by simp
next
  assume "k = k' \<and> m = n"
  then show "id_prefix k @ str_nat m = id_prefix k' @ str_nat n" by simp
qed

lemma new_job_cases:
  obtains (error) e where "\<And>i. new_job ct k i item = Inl e"
  | (skip) "\<And>i. new_job ct k i item = Inr None"
  | (job) trig vs where
      "\<And>i. new_job ct k i item =
         Inr (Some \<lparr>job_id = id_prefix k @ str_nat i, job_name = name_prefix k @ str_nat (i + 1),
                    func = k, args = vs, trigger = trig\<rparr>)"
proof (cases "py_item item ''cron''")
  case (Inl e)
  then have "\<And>i. new_job ct k i item = Inl e" by (simp add: new_job_def)
  then show ?thesis by (rule error)
next
  case c: (Inr cron)
  show ?thesis
  proof (cases "py_str_split cron")
    case (Inl e)
    with c have "\<And>i. new_job ct k i item = Inl e" by (simp add: new_job_def)
    then show ?thesis by (rule error)
  next
    case sp: (Inr parts)
    show ?thesis
    proof (cases "unpack5 parts")
      case None
      with c sp have "\<And>i. new_job ct k i item = Inr None" by (simp add: new_job_def)
      then show ?thesis by (rule skip)
    next
      case (Some t)
      obtain mi h d mo dw where t: "t = (mi, h, d, mo, dw)" by (cases t)
      show ?thesis
      proof (cases "ct mi h (if d \<noteq> ''*'' then Some d else None)
                     (if mo \<noteq> ''*'' then Some mo else None)
                     (if dw \<noteq> ''*'' then Some dw else None)")
        case (Inl e)
        with c sp Some t have "\<And>i. new_job ct k i item = Inl e" by (simp add: new_job_def)
        then show ?thesis by (rule error)
      next
        case tr: (Inr trig)
        show ?thesis
        proof (cases "py_items item (arg_keys k)")
          case (Inl e)
          with c sp Some t tr have "\<And>i. new_job ct k i item = Inl e" by (simp add: new_job_def)
          then show ?thesis by (rule error)
        next
          case (Inr vs)
          with c sp Some t tr have "\<And>i. new_job ct k i item =
             Inr (Some \<lparr>job_id = id_prefix k @ str_nat i, job_name = name_prefix k @ str_nat (i + 1),
                    func = k, args = vs, trigger = trig\<rparr>)" by (simp add: new_job_def)
          then show ?thesis by (rule job)
        qed
      qed
    qed
  qed
qed

lemma new_job_id: "new_job ct k i item = Inr (Some j) \<Longrightarrow> job_id j = id_prefix k @ str_nat i"
  by (cases rule: new_job_cases [of ct k item]) auto

lemma new_job_registers:
  "(\<exists>j. new_job ct k i item = Inr (Some j)) \<longleftrightarrow> registers ct k item"
  by (cases rule: new_job_cases [of ct k item]) (auto simp: registers_def)

lemma planned_Cons_job:
  "entry_enabled item \<Longrightarrow> new_job ct k i item = Inr (Some j) \<Longrightarrow>
     planned ct k i (item # items) = j # planned ct k (Suc i) items"
  by simp

lemma planned_Cons_none:
  "\<not> entry_enabled item \<or> new_job ct k i item = Inr None \<or> (\<exists>e. new_job ct k i item = Inl e) \<Longrightarrow>
     planned ct k i (item # items) = planned ct k (Suc i) items"
  by (cases "entry_enabled item") auto

lemma lines_Cons_job:
  "entry_enabled item \<Longrightarrow> new_job ct k i item = Inr (Some j) \<Longrightarrow>
     lines ct k i (item # items) = scheduled_line item j # lines ct k (Suc i) items"
  by simp

lemma lines_Cons_error:
  "entry_enabled item \<Longrightarrow> new_job ct k i item = Inl e \<Longrightarrow>
     lines ct k i (item # items) = Error_scheduling k i e # lines ct k (Suc i) items"
  by simp

lemma lines_Cons_none:
  "\<not> entry_enabled item \<or> new_job ct k i item = Inr None \<Longrightarrow>
     lines ct k i (item # items) = lines ct k (Suc i) items"
  by (cases "entry_enabled item") auto

lemma planned_Cons_mem:
  assumes "j \<in> set (planned ct k i (item # items))"
  shows "new_job ct k i item = Inr (Some j) \<or> j \<in> set (planned ct k (Suc i) items)"
proof (cases "entry_enabled item")
  case False
  with assms show ?thesis by (simp del: planned.simps add: planned_Cons_none)
next
  case True
  show ?thesis
  proof (cases rule: new_job_cases [of ct k item])
    case (error e)
    then have "\<exists>e. new_job ct k i item = Inl e" by blast
    with assms show ?thesis by (simp del: planned.simps add: planned_Cons_none)
  next
    case skip
    with assms show ?thesis by (simp del: planned.simps add: planned_Cons_none)
  next
    case (job trig vs)
    from planned_Cons_job [OF True job [of i]] assms job [of i] show ?thesis
      by (auto simp del: planned.simps)
  qed
qed

lemma planned_ids:
  "j \<in> set (planned ct k i items) \<Longrightarrow> \<exists>n\<ge>i. job_id j = id_prefix k @ str_nat n"
proof (induction items arbitrary: i)
  case Nil
  then show ?case by simp
next
  case (Cons item items)
  from planned_Cons_mem [OF Cons.prems] show ?case
  proof (elim disjE)
    assume "new_job ct k i item = Inr (Some j)"
    then have "job_id j = id_prefix k @ str_nat i" by (rule new_job_id)
    then show ?thesis by (intro exI [of _ i]) simp
  next
    assume "j \<in> set (planned ct k (Suc i) items)"
    from Cons.IH [OF this] obtain n where "n \<ge> Suc i" "job_id j = id_prefix k @ str_nat n"
      by blast
    then show ?thesis by (intro exI [of _ n]) simp
  qed
qed

lemma world_same: "w\<lparr>jobs := jobs w, printed := printed w\<rparr> = w"
  by simp

lemma schedule_item_obj:
  assumes obj: "is_obj item"
    and fresh: "id_prefix k @ str_nat i \<notin> set (map job_id (jobs w))"
  shows "schedule_item ct k i item w =
           (None, w\<lparr>jobs := jobs w @ planned ct k i [item],
                     printed := printed w @ lines ct k i [item]\<rparr>)"
proof -
  from obj obtain kvs where item: "item = JObj kvs" by (cases item) auto
  show ?thesis
  proof (cases "entry_enabled item")
    case False
    then have "\<not> truthy (case map_of kvs ''enabled'' of None \<Rightarrow> JNull | Some v \<Rightarrow> v)"
      by (simp add: entry_enabled_def item)
    then have "schedule_item ct k i item w = (None, w)"
      by (simp add: schedule_item_def item)
    moreover from False have "planned ct k i [item] = []" "lines ct k i [item] = []"
      by simp_all
    ultimately show ?thesis by simp
  next
    case True
    then have en: "truthy (case map_of kvs ''enabled'' of None \<Rightarrow> JNull | Some v \<Rightarrow> v)"
      by (simp add: entry_enabled_def item)
    show ?thesis
    proof (cases rule: new_job_cases [of ct k item])
      case (error e)
      from error [of i] en have "schedule_item ct k i item w = (None, py_print (Error_scheduling k i e) w)"
        by (simp add: schedule_item_def item)
      moreover from True error [of i]
      have "planned ct k i [item] = []" "lines ct k i [item] = [Error_scheduling k i e]"
        by simp_all
      ultimately show ?thesis by (simp add: py_print_def)
    next
      case skip
      from skip [of i] en have "schedule_item ct k i item w = (None, w)"
        by (simp add: schedule_item_def item)
      moreover from True skip [of i]
      have "planned ct k i [item] = []" "lines ct k i [item] = []"
        by simp_all
      ultimately show ?thesis by simp
    next
      case (job trig vs)
      define j where "j = \<lparr>job_id = id_prefix k @ str_nat i, job_name = name_prefix k @ str_nat (i + 1),
                    func = k, args = vs, trigger = trig\<rparr>"
      have nj: "new_job ct k i item = Inr (Some j)" unfolding j_def by (rule job)
      have idj: "job_id j = id_prefix k @ str_nat i" by (simp add: j_def)
      from fresh idj have "add_job j w = Inr (w\<lparr>jobs := jobs w @ [j]\<rparr>)"
        by (simp add: add_job_def)
      with nj en have "schedule_item ct k i item w
          = (None, py_print (scheduled_line item j) (w\<lparr>jobs := jobs w @ [j]\<rparr>))"
        by (simp add: schedule_item_def item)
      moreover from True nj
      have "planned ct k i [item] = [j]" "lines ct k i [item] = [scheduled_line item j]"
        by simp_all
      ultimately show ?thesis by (simp add: py_print_def)
    qed
  qed
qed

lemma planned_Cons_append:
  "planned ct k i (item # items) = planned ct k i [item] @ planned ct k (Suc i) items"
  by (simp only: planned.simps append_Nil2)

lemma lines_Cons_append:
  "lines ct k i (item # items) = lines ct k i [item] @ lines ct k (Suc i) items"
  by (simp only: lines.simps append_Nil2)

lemma planned_ids_kind:
  "j \<in> set (planned ct k i items) \<Longrightarrow> id_prefix k' @ str_nat n = job_id j \<Longrightarrow> k' = k"
  using planned_ids [of j ct k i items] by (auto simp: job_id_inj)

declare planned.simps(2) [simp del] lines.simps(2) [simp del]

lemma planned_single_fresh:
  assumes "n \<noteq> i"
  shows "id_prefix k @ str_nat n \<notin> set (map job_id (planned ct k i [item]))"
proof
  assume "id_prefix k @ str_nat n \<in> set (map job_id (planned ct k i [item]))"
  then have "\<exists>j. j \<in> set (planned ct k i [item]) \<and> job_id j = id_prefix k @ str_nat n"
    by (auto simp: image_iff)
  then obtain j where j: "j \<in> set (planned ct k i [item])" "job_id j = id_prefix k @ str_nat n"
    by (elim exE conjE)
  from planned_Cons_mem [OF j(1)] have "new_job ct k i item = Inr (Some j)" by simp
  then have "job_id j = id_prefix k @ str_nat i" by (rule new_job_id)
  with j(2) have "id_prefix k @ str_nat n = id_prefix k @ str_nat i" by (rule trans [OF sym])
  then have "n = i" by (simp only: job_id_inj)
  with assms show False by simp
qed

lemma schedule_items_objs:
  assumes "list_all is_obj items"
    and "\<forall>n\<ge>i. id_prefix k @ str_nat n \<notin> set (map job_id (jobs w))"
  shows "schedule_items ct k i items w =
           (None, w\<lparr>jobs := jobs w @ planned ct k i items,
                     printed := printed w @ lines ct k i items\<rparr>)"
  using assms
proof (induction items arbitrary: i w)
  case Nil
  then show ?case by simp
next
  case (Cons item items)
  define w' where "w' = w\<lparr>jobs := jobs w @ planned ct k i [item],
                           printed := printed w @ lines ct k i [item]\<rparr>"
  from Cons.prems have obj: "is_obj item" and objs: "list_all is_obj items" by simp_all
  from Cons.prems have fresh: "id_prefix k @ str_nat i \<notin> set (map job_id (jobs w))" by simp
  have step: "schedule_item ct k i item w = (None, w')"
    unfolding w'_def by (rule schedule_item_obj [OF obj fresh])
  have fresh': "\<forall>n\<ge>Suc i. id_prefix k @ str_nat n \<notin> set (map job_id (jobs w'))"
  proof (intro allI impI)
    fix n assume n: "Suc i \<le> n"
    then have ni: "n \<noteq> i" by simp
    have old: "id_prefix k @ str_nat n \<notin> set (map job_id (jobs w))" using Cons.prems(2) n by simp
    from old planned_single_fresh [OF ni, of k ct item]
    show "id_prefix k @ str_nat n \<notin> set (map job_id (jobs w'))"
      by (simp add: w'_def)
  qed
  have rest: "schedule_items ct k (Suc i) items w' =
      (None, w'\<lparr>jobs := jobs w' @ planned ct k (Suc i) items,
                  printed := printed w' @ lines ct k (Suc i) items\<rparr>)"
    by (rule Cons.IH [OF objs fresh'])
  have same: "w'\<lparr>jobs := jobs w' @ planned ct k (Suc i) items,
                 printed := printed w' @ lines ct k (Suc i) items\<rparr>
      = w\<lparr>jobs := jobs w @ planned ct k i (item # items),
            printed := printed w @ lines ct k i (item # items)\<rparr>"
    by (simp add: w'_def planned_Cons_append [of ct k i item items]
        lines_Cons_append [of ct k i item items])
  have "schedule_items ct k i (item # items) w = schedule_items ct k (Suc i) items w'"
    by (simp add: step)
  then show ?case by (simp only: rest same)
qed

lemma well_formed_entries:
  assumes "well_formed doc"
  shows "py_get doc (list_key k) (JArr []) = Inr (JArr (entries k doc))"
    and "list_all is_obj (entries k doc)"
proof -
  from assms have
    "case py_get doc (list_key k) (JArr []) of Inr (JArr items) \<Rightarrow> list_all is_obj items | _ \<Rightarrow> False"
    by (cases k) (simp_all add: well_formed_def)
  then obtain items where i: "py_get doc (list_key k) (JArr []) = Inr (JArr items)"
    and o: "list_all is_obj items"
    by (auto split: sum.splits json.splits)
  from i show "py_get doc (list_key k) (JArr []) = Inr (JArr (entries k doc))"
    by (simp add: entries_def)
  from i o show "list_all is_obj (entries k doc)" by (simp add: entries_def)
qed

lemma schedule_kind_wf:
  assumes wf: "well_formed doc"
    and fresh: "\<forall>n. id_prefix k @ str_nat n \<notin> set (map job_id (jobs w))"
  shows "schedule_kind ct k doc w =
           (None, w\<lparr>jobs := jobs w @ planned ct k 0 (entries k doc),
                     printed := printed w @ lines ct k 0 (entries k doc)\<rparr>)"
proof -
  from fresh have f: "\<forall>n\<ge>0. id_prefix k @ str_nat n \<notin> set (map job_id (jobs w))" by simp
  have "schedule_kind ct k doc w = schedule_items ct k 0 (entries k doc) w"
    by (simp add: schedule_kind_def well_formed_entries(1) [OF wf])
  also note schedule_items_objs [OF well_formed_entries(2) [OF wf] f]
  finally show ?thesis .
qed

lemma planned_other_kind:
  "k' \<noteq> k \<Longrightarrow> id_prefix k' @ str_nat n \<notin> job_id ` set (planned ct k i items)"
proof
  assume ne: "k' \<noteq> k" and "id_prefix k' @ str_nat n \<in> job_id ` set (planned ct k i items)"
  then have "\<exists>j. j \<in> set (planned ct k i items) \<and> id_prefix k' @ str_nat n = job_id j"
    by (auto simp: image_iff)
  then obtain j where "j \<in> set (planned ct k i items)" "id_prefix k' @ str_nat n = job_id j"
    by (elim exE conjE)
  then have "k' = k" by (rule planned_ids_kind)
  with ne show False by simp
qed

lemma update_scheduler_wf:
  assumes cf: "fs w cron_file = Some (Document doc)" and wf: "well_formed doc"
  shows "update_scheduler ct w =
           (None, w\<lparr>jobs := planned_jobs ct doc, printed := printed w @ printed_lines ct doc\<rparr>)"
proof -
  define w0 where "w0 = remove_all_jobs w"
  define w1 where "w1 = w0\<lparr>jobs := jobs w0 @ planned ct Station 0 (entries Station doc),
                     printed := printed w0 @ lines ct Station 0 (entries Station doc)\<rparr>"
  define w2 where "w2 = w1\<lparr>jobs := jobs w1 @ planned ct Promo 0 (entries Promo doc),
                     printed := printed w1 @ lines ct Promo 0 (entries Promo doc)\<rparr>"
  define w3 where "w3 = w2\<lparr>jobs := jobs w2 @ planned ct Safety 0 (entries Safety doc),
                     printed := printed w2 @ lines ct Safety 0 (entries Safety doc)\<rparr>"
  have j0: "jobs w0 = []" by (simp add: w0_def remove_all_jobs_def)
  have s1: "schedule_kind ct Station doc w0 = (None, w1)"
    unfolding w1_def by (rule schedule_kind_wf [OF wf]) (simp add: j0)
  have j1: "jobs w1 = planned ct Station 0 (entries Station doc)" by (simp add: w1_def j0)
  have s2: "schedule_kind ct Promo doc w1 = (None, w2)"
    unfolding w2_def by (rule schedule_kind_wf [OF wf]) (simp add: j1 planned_other_kind del: id_prefix.simps)
  have j2: "jobs w2 = planned ct Station 0 (entries Station doc) @ planned ct Promo 0 (entries Promo doc)"
    by (simp add: w2_def j1)
  have s3: "schedule_kind ct Safety doc w2 = (None, w3)"
    unfolding w3_def by (rule schedule_kind_wf [OF wf]) (simp add: j2 planned_other_kind del: id_prefix.simps)
  have "update_scheduler ct w = (None, py_print Scheduler_updated w3)"
    using cf s1 s2 s3 by (simp add: update_scheduler_def w0_def)
  also have "py_print Scheduler_updated w3
      = w\<lparr>jobs := planned_jobs ct doc, printed := printed w @ printed_lines ct doc\<rparr>"
    by (simp add: py_print_def w3_def w2_def w1_def w0_def remove_all_jobs_def
        planned_jobs_def printed_lines_def)
  finally show ?thesis .
qed

lemma planned_job_ids:
  "map job_id (planned ct k i items)
     = map (\<lambda>(n, item). id_prefix k @ str_nat n)
         (filter (\<lambda>(n, item). entry_enabled item \<and> registers ct k item) (enumerate i items))"
proof (induction items arbitrary: i)
  case Nil
  show ?case by simp
next
  case (Cons item items)
  show ?case
  proof (cases "entry_enabled item")
    case False
    then show ?thesis by (simp add: planned_Cons_none Cons.IH)
  next
    case True
    show ?thesis
    proof (cases rule: new_job_cases [of ct k item])
      case (error e)
      then have "\<not> registers ct k item" by (simp add: registers_def)
      moreover from error have "\<exists>e. new_job ct k i item = Inl e" by blast
      ultimately show ?thesis by (simp add: planned_Cons_none Cons.IH)
    next
      case skip
      then have "\<not> registers ct k item" by (simp add: registers_def)
      with skip show ?thesis by (simp add: planned_Cons_none Cons.IH)
    next
      case (job trig vs)
      then have "registers ct k item" by (simp add: registers_def)
      with True planned_Cons_job [OF True job [of i]] show ?thesis by (simp add: Cons.IH)
    qed
  qed
qed

lemma planned_jobs_ids: "map job_id (planned_jobs ct doc) = all_job_ids ct doc"
  by (simp add: planned_jobs_def all_job_ids_def job_ids_def planned_job_ids)

lemma JSON_FILES_cron: "JSON_FILES ''cron'' = Some cron_file"
  by (simp add: JSON_FILES_def cron_file_def)

lemma api_schedule_wf:
  assumes sched: "map_of kvs ''schedule'' = Some doc" and wf: "well_formed doc"
  shows "api_schedule ct No_fault (JObj kvs) w =
           (Success (length (all_job_ids ct doc)),
            w\<lparr>fs := (fs w)(cron_file \<mapsto> Document doc),
              jobs := planned_jobs ct doc,
              printed := printed w @ printed_lines ct doc\<rparr>)"
proof -
  define w1 where "w1 = w\<lparr>fs := (fs w)(cron_file \<mapsto> Document doc)\<rparr>"
  from sched have ne: "kvs \<noteq> []" by auto
  have sv: "save_json No_fault ''cron'' doc w = (None, w1)"
    by (simp add: save_json_def JSON_FILES_cron w1_def)
  have "fs w1 cron_file = Some (Document doc)" by (simp add: w1_def)
  from update_scheduler_wf [OF this wf, of ct]
  have up: "update_scheduler ct w1 =
      (None, w1\<lparr>jobs := planned_jobs ct doc, printed := printed w1 @ printed_lines ct doc\<rparr>)" .
  have "length (planned_jobs ct doc) = length (all_job_ids ct doc)"
    using planned_jobs_ids [of ct doc, THEN arg_cong, of length] by simp
  with sched ne sv up show ?thesis
    by (simp add: api_schedule_def get_jobs_def w1_def)
qed

subsection \<open>Disabled entries\<close>

lemma job_ids_mem:
  "id_prefix k @ str_nat i \<in> set (job_ids ct k' items)
     \<longleftrightarrow> k' = k \<and> i < length items \<and> entry_enabled (items ! i) \<and> registers ct k (items ! i)"
proof
  assume "id_prefix k @ str_nat i \<in> set (job_ids ct k' items)"
  then have "\<exists>n item. (n, item) \<in> set (enumerate 0 items) \<and> entry_enabled item
      \<and> registers ct k' item \<and> id_prefix k @ str_nat i = id_prefix k' @ str_nat n"
    by (auto simp: job_ids_def simp del: id_prefix.simps)
  then obtain n item where m: "(n, item) \<in> set (enumerate 0 items)" and e: "entry_enabled item"
    and r: "registers ct k' item" and q: "id_prefix k @ str_nat i = id_prefix k' @ str_nat n"
    by (elim exE conjE)
  from q have kk: "k = k'" and ni: "i = n" by (simp_all only: job_id_inj)
  from m have "n < length items" "items ! n = item" by (simp_all add: in_set_enumerate_eq)
  with e r kk ni
  show "k' = k \<and> i < length items \<and> entry_enabled (items ! i) \<and> registers ct k (items ! i)"
    by simp
next
  assume a: "k' = k \<and> i < length items \<and> entry_enabled (items ! i) \<and> registers ct k (items ! i)"
  then have "(i, items ! i) \<in> set (enumerate 0 items)" by (simp add: in_set_enumerate_eq)
  with a have "(i, items ! i) \<in> set (filter (\<lambda>(n, item). entry_enabled item \<and> registers ct k' item)
      (enumerate 0 items))" by simp
  then have "(\<lambda>(n, item). id_prefix k' @ str_nat n) (i, items ! i) \<in> set (job_ids ct k' items)"
    unfolding job_ids_def set_map by (rule imageI)
  with a show "id_prefix k @ str_nat i \<in> set (job_ids ct k' items)" by simp
qed

lemma all_job_ids_mem:
  "id_prefix k @ str_nat i \<in> set (all_job_ids ct doc)
     \<longleftrightarrow> i < length (entries k doc) \<and> entry_enabled (entries k doc ! i)
         \<and> registers ct k (entries k doc ! i)"
  unfolding all_job_ids_def set_append Un_iff job_ids_mem by (cases k) auto

lemma length_filter_enumerate:
  "length (filter (\<lambda>(n, x). P x) (enumerate i xs)) = length (filter P xs)"
  by (induction xs arbitrary: i) auto

lemma length_job_ids:
  "length (job_ids ct k items)
     = length (filter (\<lambda>item. entry_enabled item \<and> registers ct k item) items)"
  by (simp add: job_ids_def length_filter_enumerate)

lemma length_all_job_ids:
  "length (all_job_ids ct doc)
     = length (filter (\<lambda>item. entry_enabled item \<and> registers ct Station item) (entries Station doc))
       + length (filter (\<lambda>item. entry_enabled item \<and> registers ct Promo item) (entries Promo doc))
       + length (filter (\<lambda>item. entry_enabled item \<and> registers ct Safety item) (entries Safety doc))"
  by (simp add: all_job_ids_def length_job_ids)

lemma run_job_jobs: "jobs (snd (run_job repr j w)) = jobs w"
  by (auto simp: run_job_def play_station_announcement_def play_safety_def play_promo_def
      start_thread_def py_print_def split: kind.splits list.splits json.splits)

lemma run_jobs_jobs: "jobs (run_jobs repr js w) = jobs w"
  by (induction js arbitrary: w) (simp_all add: run_job_jobs)

lemma tick_jobs: "jobs (tick matches repr now w) = jobs w"
  by (simp add: tick_def run_jobs_jobs)

lemma due_jobs_ids:
  "x \<notin> set (map job_id (jobs w)) \<Longrightarrow> x \<notin> set (map job_id (due_jobs matches now w))"
  by (auto simp: due_jobs_def get_jobs_def)

lemma crontab_item_disabled:
  "is_obj item \<Longrightarrow> \<not> entry_enabled item \<Longrightarrow>
     crontab_item repr BASE_DIR script_path k i item st = Inr st"
  by (cases item) (simp_all add: crontab_item_def entry_enabled_def)

lemma api_schedule_wf_jobs:
  assumes "map_of kvs ''schedule'' = Some doc" and "well_formed doc"
  shows "map job_id (jobs (snd (api_schedule ct No_fault (JObj kvs) w))) = all_job_ids ct doc"
    and "fst (api_schedule ct No_fault (JObj kvs) w) = Success (length (all_job_ids ct doc))"
  by (simp_all add: api_schedule_wf [OF assms] planned_jobs_ids)

lemma no_enabled_no_ids:
  "list_all (\<lambda>item. \<not> entry_enabled item) items \<Longrightarrow> job_ids ct k items = []"
proof -
  assume "list_all (\<lambda>item. \<not> entry_enabled item) items"
  then have "filter (\<lambda>item. entry_enabled item \<and> registers ct k item) items = []"
    by (simp add: list_all_iff filter_empty_conv)
  then have "length (job_ids ct k items) = 0" by (simp add: length_job_ids)
  then show ?thesis by simp
qed

text \<open>
  Claim C6.  Take a well-formed schedule document and an entry of it that is not enabled.
  Applying the document registers no job under that entry's id; the id is among the jobs
  due at no time, before or after any tick, since a tick leaves the set of jobs as it is;
  the answer counts exactly the entries that are enabled and registered, so it does not
  count this one; and when no entry of the document is enabled, as with a single disabled
  entry, the answer is zero active jobs.  The crontab variant writes no line for the
  entry.
\<close>

theorem C6_disabled_entry_is_never_registered:
  assumes sched: "map_of kvs ''schedule'' = Some doc" and wf: "well_formed doc"
    and i: "i < length (entries k doc)" and off: "\<not> entry_enabled (entries k doc ! i)"
  shows "id_prefix k @ str_nat i
           \<notin> set (map job_id (jobs (snd (api_schedule ct No_fault (JObj kvs) w))))
         \<and> id_prefix k @ str_nat i
           \<notin> set (map job_id (due_jobs matches now
                 (tick matches' repr now' (snd (api_schedule ct No_fault (JObj kvs) w)))))
         \<and> fst (api_schedule ct No_fault (JObj kvs) w)
           = Success
               (length (filter (\<lambda>item. entry_enabled item \<and> registers ct Station item)
                          (entries Station doc))
                + length (filter (\<lambda>item. entry_enabled item \<and> registers ct Promo item)
                            (entries Promo doc))
                + length (filter (\<lambda>item. entry_enabled item \<and> registers ct Safety item)
                            (entries Safety doc)))
         \<and> (list_all (\<lambda>item. \<not> entry_enabled item)
               (entries Station doc @ entries Promo doc @ entries Safety doc)
            \<longrightarrow> fst (api_schedule ct No_fault (JObj kvs) w) = Success 0)
         \<and> crontab_item repr' BASE_DIR script_path k i (entries k doc ! i) st = Inr st"
proof (intro conjI impI)
  let ?w = "snd (api_schedule ct No_fault (JObj kvs) w)"
  from off have "id_prefix k @ str_nat i \<notin> set (all_job_ids ct doc)"
    by (simp only: all_job_ids_mem) simp
  then show absent: "id_prefix k @ str_nat i \<notin> set (map job_id (jobs ?w))"
    by (simp add: api_schedule_wf_jobs(1) [OF sched wf] del: id_prefix.simps)
  have "jobs (tick matches' repr now' ?w) = jobs ?w" by (rule tick_jobs)
  with absent have "id_prefix k @ str_nat i \<notin> set (map job_id (jobs (tick matches' repr now' ?w)))"
    by simp
  then show "id_prefix k @ str_nat i
      \<notin> set (map job_id (due_jobs matches now (tick matches' repr now' ?w)))"
    by (rule due_jobs_ids)
  show "fst (api_schedule ct No_fault (JObj kvs) w)
           = Success
               (length (filter (\<lambda>item. entry_enabled item \<and> registers ct Station item)
                          (entries Station doc))
                + length (filter (\<lambda>item. entry_enabled item \<and> registers ct Promo item)
                            (entries Promo doc))
                + length (filter (\<lambda>item. entry_enabled item \<and> registers ct Safety item)
                            (entries Safety doc)))"
    by (simp only: api_schedule_wf_jobs(2) [OF sched wf] length_all_job_ids)
  from well_formed_entries(2) [OF wf, of k] i have "is_obj (entries k doc ! i)"
    by (simp add: list_all_length)
  then show "crontab_item repr' BASE_DIR script_path k i (entries k doc ! i) st = Inr st"
    using off by (rule crontab_item_disabled)
next
  assume "list_all (\<lambda>item. \<not> entry_enabled item)
               (entries Station doc @ entries Promo doc @ entries Safety doc)"
  then have "all_job_ids ct doc = []"
    by (simp add: all_job_ids_def no_enabled_no_ids)
  then show "fst (api_schedule ct No_fault (JObj kvs) w) = Success 0"
    by (simp add: api_schedule_wf_jobs(2) [OF sched wf])
qed

theorem C6_disabled_entry_is_never_registered_witness:
  "fst (api_schedule field_trigger No_fault (post scenario_b) station_world) = Success 0
   \<and> ''station_0''
       \<notin> set (map job_id (jobs (snd (api_schedule field_trigger No_fault (post scenario_b)
                                      station_world))))
   \<and> ''station_0''
       \<notin> set (map job_id (due_jobs (\<lambda>t m. True) (0 :: nat)
             (tick (\<lambda>t m. True) (\<lambda>v. []) (0 :: nat)
                (snd (api_schedule field_trigger No_fault (post scenario_b) station_world)))))"
proof -
  have sched: "map_of [(''schedule'', scenario_b)] ''schedule'' = Some scenario_b" by simp
  have wf: "well_formed scenario_b" by code_simp
  have en: "entries Station scenario_b = [station_entry ''0 8 * * 1-5'' False]"
    "entries Promo scenario_b = []" "entries Safety scenario_b = []"
    by (simp_all add: entries_def scenario_b_def document_def)
  have i: "0 < length (entries Station scenario_b)" by (simp add: en)
  have off: "\<not> entry_enabled (entries Station scenario_b ! 0)"
    by (simp add: en entry_enabled_def station_entry_def)
  have all_off: "list_all (\<lambda>item. \<not> entry_enabled item)
      (entries Station scenario_b @ entries Promo scenario_b @ entries Safety scenario_b)"
    by (simp add: en entry_enabled_def station_entry_def)
  have name: "id_prefix Station @ str_nat 0 = ''station_0''" by code_simp
  from C6_disabled_entry_is_never_registered [OF sched wf i off,
      of field_trigger station_world "\<lambda>t m. True" "0 :: nat" "\<lambda>t m. True" "\<lambda>v. []" "0 :: nat"]
    all_off
  show ?thesis unfolding post_def name by blast
qed

subsection \<open>Registration and the standalone validator\<close>

lemma registers_iff_validator:
  assumes c: "py_item item ''cron'' = Inr (JStr s)"
    and a: "py_items item (arg_keys k) = Inr vs"
  shows "registers ct k item \<longleftrightarrow> fst (validate_cron_expression_win ct s)"
proof (cases "unpack5 (py_split s)")
  case None
  with c show ?thesis
    by (simp add: registers_def new_job_def validate_cron_expression_win_def)
next
  case (Some t)
  obtain mi h d mo dw where t: "t = (mi, h, d, mo, dw)" by (cases t)
  show ?thesis
  proof (cases "ct mi h (if d \<noteq> ''*'' then Some d else None)
                 (if mo \<noteq> ''*'' then Some mo else None)
                 (if dw \<noteq> ''*'' then Some dw else None)")
    case (Inl e)
    with c a Some t show ?thesis
      by (simp add: registers_def new_job_def validate_cron_expression_win_def)
  next
    case (Inr trig)
    with c a Some t show ?thesis
      by (simp add: registers_def new_job_def validate_cron_expression_win_def)
  qed
qed

lemma crontab_item_enabled:
  assumes "is_obj item" and "entry_enabled item" and "py_item item ''cron'' = Inr cron_expr"
    and "py_items item (arg_keys k) = Inr vs"
  shows "crontab_item repr BASE_DIR script_path k i item st =
           Inr (fst st @ [py_str repr cron_expr @ '' ''
                           @ command BASE_DIR script_path k (map (py_str repr) vs)],
                snd st @ [Scheduled cron_expr (case vs of v # _ \<Rightarrow> v | [] \<Rightarrow> JNull)])"
proof -
  from assms(1) obtain kvs where item: "item = JObj kvs" by (cases item) auto
  from assms(2) have "truthy (case map_of kvs ''enabled'' of None \<Rightarrow> JNull | Some v \<Rightarrow> v)"
    by (simp add: entry_enabled_def item)
  with assms(3,4) show ?thesis by (simp add: crontab_item_def item)
qed

text \<open>
  Claim C4, as the code has it.  In the in-process variant the test made at registration
  is the test of that variant's standalone validator: for an entry with a cron text and
  all argument keys, \<open>new_job\<close> builds a job exactly when \<open>validate_cron_expression\<close>
  accepts the text, both being the split into five parts followed by the same call of
  \<open>CronTrigger\<close>.  After applying a well-formed document, the job named after kind and
  index is there exactly when the entry at that index is enabled and registered.  The
  crontab variant makes no test: an enabled entry with its keys is written as a crontab
  line that starts with its cron text, whatever that text is.
\<close>

theorem C4_registration_agrees_with_validator:
  assumes sched: "map_of kvs ''schedule'' = Some doc" and wf: "well_formed doc"
    and cron: "py_item item ''cron'' = Inr (JStr s)"
    and keys: "py_items item (arg_keys k') = Inr vs"
  shows "(registers ct k' item \<longleftrightarrow> fst (validate_cron_expression_win ct s))
         \<and> (id_prefix k @ str_nat i
               \<in> set (map job_id (jobs (snd (api_schedule ct No_fault (JObj kvs) w))))
             \<longleftrightarrow> i < length (entries k doc) \<and> entry_enabled (entries k doc ! i)
                 \<and> registers ct k (entries k doc ! i))
         \<and> (is_obj item \<and> entry_enabled item
             \<longrightarrow> crontab_item repr BASE_DIR script_path k' n item st =
                   Inr (fst st @ [s @ '' '' @ command BASE_DIR script_path k' (map (py_str repr) vs)],
                        snd st @ [Scheduled (JStr s) (case vs of v # _ \<Rightarrow> v | [] \<Rightarrow> JNull)]))"
proof (intro conjI impI)
  show "registers ct k' item \<longleftrightarrow> fst (validate_cron_expression_win ct s)"
    using cron keys by (rule registers_iff_validator)
  show "id_prefix k @ str_nat i
               \<in> set (map job_id (jobs (snd (api_schedule ct No_fault (JObj kvs) w))))
             \<longleftrightarrow> i < length (entries k doc) \<and> entry_enabled (entries k doc ! i)
                 \<and> registers ct k (entries k doc ! i)"
    by (simp only: api_schedule_wf_jobs(1) [OF sched wf] all_job_ids_mem)
next
  assume "is_obj item \<and> entry_enabled item"
  then have o: "is_obj item" and e: "entry_enabled item" by simp_all
  from crontab_item_enabled [OF o e cron keys, of repr BASE_DIR script_path n st]
  show "crontab_item repr BASE_DIR script_path k' n item st =
                   Inr (fst st @ [s @ '' '' @ command BASE_DIR script_path k' (map (py_str repr) vs)],
                        snd st @ [Scheduled (JStr s) (case vs of v # _ \<Rightarrow> v | [] \<Rightarrow> JNull)])"
    by simp
qed

theorem C4_registration_agrees_with_validator_witness:
  "\<not> registers field_trigger Station (station_entry ''99 8 * * *'' True)
   \<and> ''station_0''
       \<notin> set (map job_id (jobs (snd (api_schedule field_trigger No_fault (post scenario_c)
                                       station_world))))
   \<and> crontab_item (\<lambda>v. []) ''/home/pi/tarr'' ''/home/pi/tarr/app.py'' Station 0
        (station_entry ''99 8 * * *'' True) ([], [])
      = Inr ([''99 8 * * *'' @ '' ''
                @ command ''/home/pi/tarr'' ''/home/pi/tarr/app.py'' Station
                    [''1'', ''westbound'', ''goodwin_station'', ''1'']],
             [Scheduled (JStr ''99 8 * * *'') (JStr ''1'')])"
proof -
  have sched: "map_of [(''schedule'', scenario_c)] ''schedule'' = Some scenario_c" by simp
  have wf: "well_formed scenario_c" by code_simp
  have cron: "py_item (station_entry ''99 8 * * *'' True) ''cron'' = Inr (JStr ''99 8 * * *'')"
    by (simp add: station_entry_def)
  have keys: "py_items (station_entry ''99 8 * * *'' True) (arg_keys Station)
      = Inr [JStr ''1'', JStr ''westbound'', JStr ''goodwin_station'', JStr ''1'']"
    by (simp add: station_entry_def)
  have refused: "\<not> fst (validate_cron_expression_win field_trigger ''99 8 * * *'')"
    by code_simp
  have en: "entries Station scenario_c = [station_entry ''99 8 * * *'' True]"
    by (simp add: entries_def scenario_c_def document_def)
  have on: "is_obj (station_entry ''99 8 * * *'' True) \<and> entry_enabled (station_entry ''99 8 * * *'' True)"
    by (simp add: station_entry_def entry_enabled_def)
  have name: "id_prefix Station @ str_nat 0 = ''station_0''" by code_simp
  note inst = C4_registration_agrees_with_validator [OF sched wf cron keys,
      of field_trigger Station 0 station_world "\<lambda>v. []" "''/home/pi/tarr''"
         "''/home/pi/tarr/app.py''" 0 "([], [])"]
  from inst refused have r: "\<not> registers field_trigger Station (station_entry ''99 8 * * *'' True)"
    by blast
  from inst r have absent: "''station_0''
       \<notin> set (map job_id (jobs (snd (api_schedule field_trigger No_fault (post scenario_c)
                                       station_world))))"
    unfolding post_def name en by simp
  from inst on have line: "crontab_item (\<lambda>v. []) ''/home/pi/tarr'' ''/home/pi/tarr/app.py'' Station 0
        (station_entry ''99 8 * * *'' True) ([], [])
      = Inr ([''99 8 * * *'' @ '' ''
                @ command ''/home/pi/tarr'' ''/home/pi/tarr/app.py'' Station
                    [''1'', ''westbound'', ''goodwin_station'', ''1'']],
             [Scheduled (JStr ''99 8 * * *'') (JStr ''1'')])"
    by simp
  from r absent line show ?thesis by (intro conjI)
qed

text \<open>
  The claim's wording fails on the crontab variant: an enabled promo entry whose cron
  text is the word \<open>bogus\<close> gets its crontab line, and both validators refuse that text
  for its number of parts.
\<close>

theorem C4_crontab_takes_any_cron_text:
  "cron_entries (\<lambda>v. []) ''/home/pi/tarr'' ''/home/pi/tarr/app.py'' bogus_promo
     = Inr ([''# TARR Annunciator scheduled announcements'',
             ''bogus '' @ command ''/home/pi/tarr'' ''/home/pi/tarr/app.py'' Promo [''promo_english'']],
            [Scheduled (JStr ''bogus'') (JStr ''promo_english'')])
   \<and> validate_cron_expression ''bogus'' = (False, Wrong_number_of_parts 1)
   \<and> validate_cron_expression_win field_trigger ''bogus'' = (False, Wrong_number_of_parts 1)"
  by code_simp

subsection \<open>An invalid entry does not stop the others\<close>

lemma typed_entry_parts:
  assumes "typed_entry k item"
  obtains s vs where "is_obj item" and "py_item item ''cron'' = Inr (JStr s)"
    and "cron_text item = s" and "py_items item (arg_keys k) = Inr vs"
proof -
  from assms have o: "is_obj item"
    and c: "case py_item item ''cron'' of Inr (JStr s) \<Rightarrow> True | _ \<Rightarrow> False"
    and a: "case py_items item (arg_keys k) of Inr vs \<Rightarrow> True | Inl e \<Rightarrow> False"
    by (simp_all add: typed_entry_def)
  from c obtain s where s: "py_item item ''cron'' = Inr (JStr s)"
    by (auto split: sum.splits json.splits)
  from a obtain vs where vs: "py_items item (arg_keys k) = Inr vs"
    by (auto split: sum.splits)
  from s have t: "cron_text item = s" by (simp add: cron_text_def)
  show ?thesis by (rule that [OF o s t vs])
qed

lemma typed_registers_iff_valid:
  assumes "typed_entry k item"
  shows "registers ct k item \<longleftrightarrow> valid_entry ct item"
proof -
  from assms obtain s vs where c: "py_item item ''cron'' = Inr (JStr s)"
    and t: "cron_text item = s" and a: "py_items item (arg_keys k) = Inr vs"
    by (rule typed_entry_parts)
  from registers_iff_validator [OF c a, of ct] t show ?thesis by (simp add: valid_entry_def)
qed

lemma typed_lines_single:
  assumes "typed_entry k item"
  shows "lines ct k i [item] = entry_log ct k i item"
proof -
  from assms obtain s vs where c: "py_item item ''cron'' = Inr (JStr s)"
    and t: "cron_text item = s" and a: "py_items item (arg_keys k) = Inr vs"
    by (rule typed_entry_parts)
  show ?thesis
  proof (cases "entry_enabled item")
    case False
    then show ?thesis by (simp add: lines_Cons_none entry_log_def)
  next
    case True
    show ?thesis
    proof (cases "unpack5 (py_split s)")
      case None
      with c have "new_job ct k i item = Inr None" by (simp add: new_job_def)
      with True have l: "lines ct k i [item] = []" by (simp add: lines_Cons_none)
      from None have "validate_cron_expression_win ct s
          = (False, Wrong_number_of_parts (length (py_split s)))"
        by (simp add: validate_cron_expression_win_def)
      with True t l show ?thesis by (simp add: entry_log_def)
    next
      case (Some u)
      obtain mi h d mo dw where u: "u = (mi, h, d, mo, dw)" by (cases u)
      show ?thesis
      proof (cases "ct mi h (if d \<noteq> ''*'' then Some d else None)
                     (if mo \<noteq> ''*'' then Some mo else None)
                     (if dw \<noteq> ''*'' then Some dw else None)")
        case (Inl e)
        with c Some u have "new_job ct k i item = Inl e" by (simp add: new_job_def)
        with True have l: "lines ct k i [item] = [Error_scheduling k i e]"
          by (simp add: lines_Cons_error)
        from Inl Some u have "validate_cron_expression_win ct s = (False, Invalid_cron_expression e)"
          by (simp add: validate_cron_expression_win_def)
        with True t l show ?thesis by (simp add: entry_log_def)
      next
        case (Inr trig)
        define j where "j = \<lparr>job_id = id_prefix k @ str_nat i, job_name = name_prefix k @ str_nat (i + 1),
                    func = k, args = vs, trigger = trig\<rparr>"
        from Inr c a Some u have nj: "new_job ct k i item = Inr (Some j)"
          by (simp add: new_job_def j_def)
        from lines_Cons_job [OF True nj, of "[]"]
        have l: "lines ct k i [item] = [scheduled_line item j]" by simp
        from Inr Some u have v: "validate_cron_expression_win ct s = (True, Valid_cron_expression)"
          by (simp add: validate_cron_expression_win_def)
        have "scheduled_line item j
            = Scheduled (JStr s) (case vs of v # vs \<Rightarrow> v | [] \<Rightarrow> JNull)"
          by (simp add: scheduled_line_def c j_def)
        also have "(case vs of v # vs \<Rightarrow> v | [] \<Rightarrow> JNull)
            = (case py_items item (arg_keys k) of Inr (v # vs) \<Rightarrow> v | _ \<Rightarrow> JNull)"
          by (simp add: a split: list.splits)
        finally show ?thesis using True t l v by (simp add: entry_log_def)
      qed
    qed
  qed
qed

lemma typed_lines:
  "list_all (typed_entry k) items \<Longrightarrow>
     lines ct k i items = concat (map (\<lambda>(n, item). entry_log ct k n item) (enumerate i items))"
proof (induction items arbitrary: i)
  case Nil
  show ?case by simp
next
  case (Cons item items)
  from Cons.prems have t: "typed_entry k item" and ts: "list_all (typed_entry k) items"
    by simp_all
  have "lines ct k i (item # items) = lines ct k i [item] @ lines ct k (Suc i) items"
    by (rule lines_Cons_append)
  also have "\<dots> = entry_log ct k i item
      @ concat (map (\<lambda>(n, item). entry_log ct k n item) (enumerate (Suc i) items))"
    by (simp only: typed_lines_single [OF t] Cons.IH [OF ts])
  finally show ?case by simp
qed

lemma typed_document_entries:
  assumes "typed_document doc"
  shows "well_formed doc" and "list_all (typed_entry k) (entries k doc)"
proof -
  from assms show "well_formed doc" by (simp add: typed_document_def)
  from assms show "list_all (typed_entry k) (entries k doc)"
    by (cases k) (simp_all add: typed_document_def)
qed

lemma typed_count:
  assumes "list_all (typed_entry k) items"
  shows "length (filter (\<lambda>item. entry_enabled item \<and> registers ct k item) items)
       = length (filter (\<lambda>item. entry_enabled item \<and> valid_entry ct item) items)"
proof -
  have "filter (\<lambda>item. entry_enabled item \<and> registers ct k item) items
      = filter (\<lambda>item. entry_enabled item \<and> valid_entry ct item) items"
  proof (rule filter_cong [OF refl])
    fix item assume "item \<in> set items"
    with assms have "typed_entry k item" by (simp add: list_all_iff)
    then show "(entry_enabled item \<and> registers ct k item) = (entry_enabled item \<and> valid_entry ct item)"
      by (simp add: typed_registers_iff_valid)
  qed
  then show ?thesis by simp
qed

lemma api_schedule_wf_world:
  assumes "map_of kvs ''schedule'' = Some doc" and "well_formed doc"
  shows "printed (snd (api_schedule ct No_fault (JObj kvs) w)) = printed w @ printed_lines ct doc"
    and "fs (snd (api_schedule ct No_fault (JObj kvs) w)) = (fs w)(cron_file \<mapsto> Document doc)"
  by (simp_all add: api_schedule_wf [OF assms])

text \<open>
  Claim C3, as the code has it.  Applying a document of typed entries through the
  schedule endpoint succeeds: the document is saved, and the answer is the number of
  entries that are both enabled and valid.  The job named after kind and index is in the
  table exactly when the entry at that index is enabled and valid, so an invalid entry is
  passed over and the valid ones are registered all the same.  What is printed is, entry
  by entry in the order of the three lists, the confirmation for an enabled valid entry
  and the error for an enabled entry whose five fields the trigger constructor refuses
  (minute 99, say), and then the closing line; an enabled entry whose cron text has
  another number of fields is passed over without a line, since the test for five parts
  has no \<open>else\<close>.
\<close>

theorem C3_invalid_entries_are_skipped:
  assumes sched: "map_of kvs ''schedule'' = Some doc" and typed: "typed_document doc"
  shows "fst (api_schedule ct No_fault (JObj kvs) w)
           = Success (length (filter (\<lambda>item. entry_enabled item \<and> valid_entry ct item)
                                (entries Station doc @ entries Promo doc @ entries Safety doc)))
         \<and> (id_prefix k @ str_nat i
               \<in> set (map job_id (jobs (snd (api_schedule ct No_fault (JObj kvs) w))))
             \<longleftrightarrow> i < length (entries k doc) \<and> entry_enabled (entries k doc ! i)
                 \<and> valid_entry ct (entries k doc ! i))
         \<and> printed (snd (api_schedule ct No_fault (JObj kvs) w))
             = printed w @ kind_log ct Station (entries Station doc)
               @ kind_log ct Promo (entries Promo doc)
               @ kind_log ct Safety (entries Safety doc) @ [Scheduler_updated]
         \<and> fs (snd (api_schedule ct No_fault (JObj kvs) w)) = (fs w)(cron_file \<mapsto> Document doc)
         \<and> (i < length (entries k doc) \<and> entry_enabled (entries k doc ! i)
              \<and> validate_cron_expression_win ct (cron_text (entries k doc ! i))
                  = (False, Invalid_cron_expression e)
            \<longrightarrow> entry_log ct k i (entries k doc ! i) = [Error_scheduling k i e]
                \<and> id_prefix k @ str_nat i
                    \<notin> set (map job_id (jobs (snd (api_schedule ct No_fault (JObj kvs) w)))))
         \<and> (i < length (entries k doc) \<and> entry_enabled (entries k doc ! i)
              \<and> validate_cron_expression_win ct (cron_text (entries k doc ! i))
                  = (False, Wrong_number_of_parts n)
            \<longrightarrow> entry_log ct k i (entries k doc ! i) = []
                \<and> id_prefix k @ str_nat i
                    \<notin> set (map job_id (jobs (snd (api_schedule ct No_fault (JObj kvs) w)))))"
proof -
  note wf = typed_document_entries(1) [OF typed]
  note ty = typed_document_entries(2) [OF typed]
  have count: "fst (api_schedule ct No_fault (JObj kvs) w)
           = Success (length (filter (\<lambda>item. entry_enabled item \<and> valid_entry ct item)
                                (entries Station doc @ entries Promo doc @ entries Safety doc)))"
    by (simp add: api_schedule_wf_jobs(2) [OF sched wf] length_all_job_ids
        typed_count [OF ty])
  have "id_prefix k @ str_nat i
               \<in> set (map job_id (jobs (snd (api_schedule ct No_fault (JObj kvs) w))))
             \<longleftrightarrow> i < length (entries k doc) \<and> entry_enabled (entries k doc ! i)
                 \<and> registers ct k (entries k doc ! i)"
    by (simp only: api_schedule_wf_jobs(1) [OF sched wf] all_job_ids_mem)
  also have "\<dots> \<longleftrightarrow> i < length (entries k doc) \<and> entry_enabled (entries k doc ! i)
                 \<and> valid_entry ct (entries k doc ! i)"
  proof (cases "i < length (entries k doc)")
    case True
    with ty [of k] have "typed_entry k (entries k doc ! i)" by (simp add: list_all_length)
    then show ?thesis by (simp add: typed_registers_iff_valid)
  next
    case False
    then show ?thesis by simp
  qed
  finally have mem: "id_prefix k @ str_nat i
               \<in> set (map job_id (jobs (snd (api_schedule ct No_fault (JObj kvs) w))))
             \<longleftrightarrow> i < length (entries k doc) \<and> entry_enabled (entries k doc ! i)
                 \<and> valid_entry ct (entries k doc ! i)" .
  have out: "printed (snd (api_schedule ct No_fault (JObj kvs) w))
             = printed w @ kind_log ct Station (entries Station doc)
               @ kind_log ct Promo (entries Promo doc)
               @ kind_log ct Safety (entries Safety doc) @ [Scheduler_updated]"
    by (simp add: api_schedule_wf_world(1) [OF sched wf] printed_lines_def kind_log_def
        typed_lines [OF ty])
  have saved: "fs (snd (api_schedule ct No_fault (JObj kvs) w)) = (fs w)(cron_file \<mapsto> Document doc)"
    by (rule api_schedule_wf_world(2) [OF sched wf])
  have refused: "entry_log ct k i (entries k doc ! i) = [Error_scheduling k i e]
                \<and> id_prefix k @ str_nat i
                    \<notin> set (map job_id (jobs (snd (api_schedule ct No_fault (JObj kvs) w))))"
    if "i < length (entries k doc) \<and> entry_enabled (entries k doc ! i)
              \<and> validate_cron_expression_win ct (cron_text (entries k doc ! i))
                  = (False, Invalid_cron_expression e)"
    using that mem by (simp add: valid_entry_def entry_log_def del: id_prefix.simps)
  have dropped: "entry_log ct k i (entries k doc ! i) = []
                \<and> id_prefix k @ str_nat i
                    \<notin> set (map job_id (jobs (snd (api_schedule ct No_fault (JObj kvs) w))))"
    if "i < length (entries k doc) \<and> entry_enabled (entries k doc ! i)
              \<and> validate_cron_expression_win ct (cron_text (entries k doc ! i))
                  = (False, Wrong_number_of_parts n)"
    using that mem by (simp add: valid_entry_def entry_log_def del: id_prefix.simps)
  from count mem out saved refused dropped show ?thesis by blast
qed

theorem C3_invalid_entries_are_skipped_witness:
  "fst (api_schedule field_trigger No_fault (post scenario_c) station_world) = Success 1
   \<and> ''promo_0''
       \<in> set (map job_id (jobs (snd (api_schedule field_trigger No_fault (post scenario_c)
                                      station_world))))
   \<and> ''station_0''
       \<notin> set (map job_id (jobs (snd (api_schedule field_trigger No_fault (post scenario_c)
                                      station_world))))
   \<and> printed (snd (api_schedule field_trigger No_fault (post scenario_c) station_world))
       = [Error_scheduling Station 0 ValueError,
          Scheduled (JStr ''0 12 * * *'') (JStr ''promo_english''), Scheduler_updated]"
proof -
  have sched: "map_of [(''schedule'', scenario_c)] ''schedule'' = Some scenario_c" by simp
  have typed: "typed_document scenario_c" by code_simp
  have en: "entries Station scenario_c = [station_entry ''99 8 * * *'' True]"
    "entries Promo scenario_c = [promo_entry ''0 12 * * *'' True]"
    "entries Safety scenario_c = []"
    by (simp_all add: entries_def scenario_c_def document_def)
  have on: "entry_enabled (station_entry ''99 8 * * *'' True)"
    "entry_enabled (promo_entry ''0 12 * * *'' True)"
    by (simp_all add: entry_enabled_def station_entry_def promo_entry_def)
  have v: "\<not> valid_entry field_trigger (station_entry ''99 8 * * *'' True)"
    "valid_entry field_trigger (promo_entry ''0 12 * * *'' True)"
    by code_simp+
  have logs: "kind_log field_trigger Station [station_entry ''99 8 * * *'' True]
      = [Error_scheduling Station 0 ValueError]"
    "kind_log field_trigger Promo [promo_entry ''0 12 * * *'' True]
      = [Scheduled (JStr ''0 12 * * *'') (JStr ''promo_english'')]"
    "kind_log field_trigger Safety [] = []"
    by code_simp+
  have names: "id_prefix Station @ str_nat 0 = ''station_0''"
    "id_prefix Promo @ str_nat 0 = ''promo_0''"
    by code_simp+
  have none: "printed station_world = []" by (simp add: station_world_def)
  note s = C3_invalid_entries_are_skipped [OF sched typed, of field_trigger station_world Station 0,
      unfolded post_def [symmetric] en names]
  note p = C3_invalid_entries_are_skipped [OF sched typed, of field_trigger station_world Promo 0,
      unfolded post_def [symmetric] en names]
  from s have count: "fst (api_schedule field_trigger No_fault (post scenario_c) station_world)
      = Success (length (filter (\<lambda>item. entry_enabled item \<and> valid_entry field_trigger item)
           ([station_entry ''99 8 * * *'' True] @ [promo_entry ''0 12 * * *'' True] @ [])))"
    by (rule conjunct1)
  from s have st: "''station_0''
       \<in> set (map job_id (jobs (snd (api_schedule field_trigger No_fault (post scenario_c)
                                      station_world))))
      \<longleftrightarrow> 0 < length [station_entry ''99 8 * * *'' True]
          \<and> entry_enabled ([station_entry ''99 8 * * *'' True] ! 0)
          \<and> valid_entry field_trigger ([station_entry ''99 8 * * *'' True] ! 0)"
    by (rule conjunct2 [THEN conjunct1])
  from p have pr: "''promo_0''
       \<in> set (map job_id (jobs (snd (api_schedule field_trigger No_fault (post scenario_c)
                                      station_world))))
      \<longleftrightarrow> 0 < length [promo_entry ''0 12 * * *'' True]
          \<and> entry_enabled ([promo_entry ''0 12 * * *'' True] ! 0)
          \<and> valid_entry field_trigger ([promo_entry ''0 12 * * *'' True] ! 0)"
    by (rule conjunct2 [THEN conjunct1])
  from s have out: "printed (snd (api_schedule field_trigger No_fault (post scenario_c) station_world))
      = printed station_world @ kind_log field_trigger Station [station_entry ''99 8 * * *'' True]
        @ kind_log field_trigger Promo [promo_entry ''0 12 * * *'' True]
        @ kind_log field_trigger Safety [] @ [Scheduler_updated]"
    by (rule conjunct2 [THEN conjunct2, THEN conjunct1])
  show ?thesis
    unfolding count st pr out by (simp add: on v logs none)
qed

text \<open>
  The claim's own wording fails where it promises a logged warning for the invalid entry.
  Take the promo entry of scenario C, enabled and valid, and beside it an enabled station
  entry with the four-field cron text \<open>0 8 * *\<close>, which both validators refuse.  The
  update registers the promo entry and answers with one active job, and the log holds the
  confirmation of the promo entry and the closing line: no line for the station entry.
\<close>

theorem C3_four_field_entry_is_skipped_silently:
  "fst (api_schedule field_trigger No_fault (post four_fields) station_world) = Success 1
   \<and> map job_id (jobs (snd (api_schedule field_trigger No_fault (post four_fields) station_world)))
       = [''promo_0'']
   \<and> printed (snd (api_schedule field_trigger No_fault (post four_fields) station_world))
       = [Scheduled (JStr ''0 12 * * *'') (JStr ''promo_english''), Scheduler_updated]
   \<and> entries Station four_fields = [station_entry ''0 8 * *'' True]
   \<and> entry_enabled (station_entry ''0 8 * *'' True)
   \<and> validate_cron_expression_win field_trigger ''0 8 * *'' = (False, Wrong_number_of_parts 4)
   \<and> validate_cron_expression ''0 8 * *'' = (False, Wrong_number_of_parts 4)
   \<and> entries Promo four_fields = [promo_entry ''0 12 * * *'' True]
   \<and> entry_enabled (promo_entry ''0 12 * * *'' True)
   \<and> validate_cron_expression_win field_trigger ''0 12 * * *'' = (True, Valid_cron_expression)
   \<and> validate_cron_expression ''0 12 * * *'' = (True, Valid_cron_expression)"
  by code_simp

subsection \<open>Applying a document twice\<close>

text \<open>
  The loops look at the state only where \<open>add_job\<close> looks for the id among the jobs: what
  they answer and which jobs they leave depends on the jobs they start from and on
  nothing else in the state.
\<close>

lemma schedule_item_jobs:
  assumes "jobs w = jobs v"
  shows "fst (schedule_item ct k i item w) = fst (schedule_item ct k i item v)
         \<and> jobs (snd (schedule_item ct k i item w)) = jobs (snd (schedule_item ct k i item v))"
  using assms unfolding schedule_item_def
  by (auto simp: add_job_def py_print_def split: sum.splits option.splits)

lemma schedule_items_jobs:
  assumes "jobs w = jobs v"
  shows "fst (schedule_items ct k i items w) = fst (schedule_items ct k i items v)
         \<and> jobs (snd (schedule_items ct k i items w)) = jobs (snd (schedule_items ct k i items v))"
  using assms
proof (induction items arbitrary: i w v)
  case Nil
  then show ?case by simp
next
  case (Cons item items)
  obtain r w1 where sw: "schedule_item ct k i item w = (r, w1)" by (cases "schedule_item ct k i item w")
  obtain r' v1 where sv: "schedule_item ct k i item v = (r', v1)" by (cases "schedule_item ct k i item v")
  from schedule_item_jobs [OF Cons.prems, of ct k i item] sw sv
  have rr: "r' = r" and j1: "jobs w1 = jobs v1" by simp_all
  show ?case
  proof (cases r)
    case None
    with sw sv rr Cons.IH [OF j1, of "Suc i"] show ?thesis by simp
  next
    case (Some e)
    with sw sv rr j1 show ?thesis by simp
  qed
qed

lemma schedule_kind_jobs:
  assumes "jobs w = jobs v"
  shows "fst (schedule_kind ct k doc w) = fst (schedule_kind ct k doc v)
         \<and> jobs (snd (schedule_kind ct k doc w)) = jobs (snd (schedule_kind ct k doc v))"
  using assms schedule_items_jobs [OF assms, of ct k 0]
  unfolding schedule_kind_def by (auto split: sum.splits)

lemma update_scheduler_document:
  assumes "fs w cron_file = Some (Document doc)" and "fs v cron_file = Some (Document doc)"
  shows "fst (update_scheduler ct w) = fst (update_scheduler ct v)
         \<and> jobs (snd (update_scheduler ct w)) = jobs (snd (update_scheduler ct v))"
proof -
  define w0 where "w0 = remove_all_jobs w"
  define v0 where "v0 = remove_all_jobs v"
  have j0: "jobs w0 = jobs v0" by (simp add: w0_def v0_def remove_all_jobs_def)
  obtain r1 w1 where w1: "schedule_kind ct Station doc w0 = (r1, w1)"
    by (cases "schedule_kind ct Station doc w0")
  obtain q1 v1 where v1: "schedule_kind ct Station doc v0 = (q1, v1)"
    by (cases "schedule_kind ct Station doc v0")
  from schedule_kind_jobs [OF j0, of ct Station doc] w1 v1
  have e1: "q1 = r1" and j1: "jobs w1 = jobs v1" by simp_all
  obtain r2 w2 where w2: "schedule_kind ct Promo doc w1 = (r2, w2)"
    by (cases "schedule_kind ct Promo doc w1")
  obtain q2 v2 where v2: "schedule_kind ct Promo doc v1 = (q2, v2)"
    by (cases "schedule_kind ct Promo doc v1")
  from schedule_kind_jobs [OF j1, of ct Promo doc] w2 v2
  have e2: "q2 = r2" and j2: "jobs w2 = jobs v2" by simp_all
  obtain r3 w3 where w3: "schedule_kind ct Safety doc w2 = (r3, w3)"
    by (cases "schedule_kind ct Safety doc w2")
  obtain q3 v3 where v3: "schedule_kind ct Safety doc v2 = (q3, v3)"
    by (cases "schedule_kind ct Safety doc v2")
  from schedule_kind_jobs [OF j2, of ct Safety doc] w3 v3
  have e3: "q3 = r3" and j3: "jobs w3 = jobs v3" by simp_all
  have uw: "update_scheduler ct w =
      (case r1 of Some e \<Rightarrow> (Some e, w1)
       | None \<Rightarrow> (case r2 of Some e \<Rightarrow> (Some e, w2)
                   | None \<Rightarrow> (case r3 of Some e \<Rightarrow> (Some e, w3)
                               | None \<Rightarrow> (None, py_print Scheduler_updated w3))))"
    using assms(1) w1 w2 w3 by (simp add: update_scheduler_def w0_def split: option.splits)
  have uv: "update_scheduler ct v =
      (case r1 of Some e \<Rightarrow> (Some e, v1)
       | None \<Rightarrow> (case r2 of Some e \<Rightarrow> (Some e, v2)
                   | None \<Rightarrow> (case r3 of Some e \<Rightarrow> (Some e, v3)
                               | None \<Rightarrow> (None, py_print Scheduler_updated v3))))"
    using assms(2) v1 v2 v3 e1 e2 e3 by (simp add: update_scheduler_def v0_def split: option.splits)
  show ?thesis unfolding uw uv using j1 j2 j3
    by (simp add: py_print_def split: option.splits)
qed

lemma update_scheduler_twice:
  "fst (update_scheduler ct (snd (update_scheduler ct w))) = fst (update_scheduler ct w)
   \<and> jobs (snd (update_scheduler ct (snd (update_scheduler ct w))))
       = jobs (snd (update_scheduler ct w))"
proof (cases "fs w cron_file")
  case None
  then show ?thesis by (simp add: update_scheduler_def)
next
  case (Some c)
  show ?thesis
  proof (cases c)
    case Other
    with Some show ?thesis by (simp add: update_scheduler_def)
  next
    case (Document doc)
    with Some have a: "fs w cron_file = Some (Document doc)" by simp
    then have b: "fs (snd (update_scheduler ct w)) cron_file = Some (Document doc)"
      by (simp add: update_scheduler_same)
    from update_scheduler_document [OF b a] show ?thesis .
  qed
qed

lemma api_schedule_accepted:
  assumes "map_of kvs ''schedule'' = Some doc"
  shows "api_schedule ct fault (JObj kvs) w =
     (case save_json fault ''cron'' doc w of
        (Some e, w1) \<Rightarrow> (Server_error e, w1)
      | (None, w1) \<Rightarrow>
          (case update_scheduler ct w1 of
             (Some e, w2) \<Rightarrow> (Server_error e, w2)
           | (None, w2) \<Rightarrow> (Success (length (get_jobs w2)), w2)))"
proof -
  from assms have "kvs \<noteq> []" by auto
  with assms show ?thesis by (simp add: api_schedule_def)
qed

lemma api_schedule_saved:
  assumes "map_of kvs ''schedule'' = Some doc"
  shows "api_schedule ct No_fault (JObj kvs) w =
     (case update_scheduler ct (w\<lparr>fs := (fs w)(cron_file \<mapsto> Document doc)\<rparr>) of
        (Some e, w2) \<Rightarrow> (Server_error e, w2)
      | (None, w2) \<Rightarrow> (Success (length (jobs w2)), w2))"
  unfolding api_schedule_accepted [OF assms] get_jobs_def
  by (simp add: save_json_def JSON_FILES_cron)

lemma api_schedule_any_state:
  assumes "map_of kvs ''schedule'' = Some doc"
  shows "fst (api_schedule ct No_fault (JObj kvs) w) = fst (api_schedule ct No_fault (JObj kvs) v)
         \<and> jobs (snd (api_schedule ct No_fault (JObj kvs) w))
             = jobs (snd (api_schedule ct No_fault (JObj kvs) v))"
proof -
  define w1 where "w1 = w\<lparr>fs := (fs w)(cron_file \<mapsto> Document doc)\<rparr>"
  define v1 where "v1 = v\<lparr>fs := (fs v)(cron_file \<mapsto> Document doc)\<rparr>"
  have a: "fs w1 cron_file = Some (Document doc)" by (simp add: w1_def)
  have b: "fs v1 cron_file = Some (Document doc)" by (simp add: v1_def)
  obtain r w2 where uw: "update_scheduler ct w1 = (r, w2)" by (cases "update_scheduler ct w1")
  obtain q v2 where uv: "update_scheduler ct v1 = (q, v2)" by (cases "update_scheduler ct v1")
  from update_scheduler_document [OF a b, of ct] uw uv
  have e: "q = r" and j: "jobs w2 = jobs v2" by simp_all
  show ?thesis
    unfolding api_schedule_saved [OF assms] w1_def [symmetric] v1_def [symmetric] uw uv e
    using j by (simp split: option.splits)
qed

lemma api_schedule_twice:
  "fst (api_schedule ct fault data (snd (api_schedule ct fault data w)))
     = fst (api_schedule ct fault data w)
   \<and> jobs (snd (api_schedule ct fault data (snd (api_schedule ct fault data w))))
       = jobs (snd (api_schedule ct fault data w))"
proof (cases "\<exists>kvs doc. data = JObj kvs \<and> map_of kvs ''schedule'' = Some doc")
  case False
  have "api_schedule ct fault data w = (fst (api_schedule ct fault data w), w)"
  proof (cases data)
    case (JObj kvs)
    with False have "map_of kvs ''schedule'' = None" by (cases "map_of kvs ''schedule''") auto
    with JObj show ?thesis by (simp add: api_schedule_def)
  qed (auto simp: api_schedule_def split: sum.splits)
  then have "snd (api_schedule ct fault data w) = w" by (metis snd_conv)
  then show ?thesis by simp
next
  case True
  then obtain kvs doc where d: "data = JObj kvs" and s: "map_of kvs ''schedule'' = Some doc"
    by blast
  show ?thesis
  proof (cases fault)
    case No_fault
    from api_schedule_any_state [OF s, of ct "snd (api_schedule ct No_fault (JObj kvs) w)" w]
    show ?thesis unfolding d No_fault .
  next
    case Open_fails
    then have "api_schedule ct fault data w = (Server_error OSError, w)"
      by (simp add: d api_schedule_accepted [OF s] save_json_def JSON_FILES_cron)
    then show ?thesis by simp
  next
    case Dump_fails
    define w1 where "w1 = w\<lparr>fs := (fs w)(cron_file \<mapsto> Other)\<rparr>"
    have r: "\<And>v. api_schedule ct fault data v = (Server_error OSError, v\<lparr>fs := (fs v)(cron_file \<mapsto> Other)\<rparr>)"
      by (simp add: Dump_fails d api_schedule_accepted [OF s] save_json_def JSON_FILES_cron)
    show ?thesis by (simp add: r)
  qed
qed

lemma all_job_ids_shape:
  assumes "x \<in> set (all_job_ids ct doc)"
  shows "\<exists>k i. x = id_prefix k @ str_nat i \<and> i < length (entries k doc)
           \<and> entry_enabled (entries k doc ! i)"
proof -
  have one: "\<exists>i. x = id_prefix k @ str_nat i \<and> i < length items \<and> entry_enabled (items ! i)"
    if "x \<in> set (job_ids ct k items)" for k items
    using that by (auto simp: job_ids_def in_set_enumerate_eq simp del: id_prefix.simps)
  from assms have "x \<in> set (job_ids ct Station (entries Station doc))
      \<or> x \<in> set (job_ids ct Promo (entries Promo doc))
      \<or> x \<in> set (job_ids ct Safety (entries Safety doc))"
    by (simp add: all_job_ids_def)
  then show ?thesis using one by blast
qed

lemma distinct_job_ids: "distinct (job_ids ct k items)"
proof -
  have inj: "inj_on (\<lambda>(i, item). id_prefix k @ str_nat i)
      (set (filter (\<lambda>(i, item). entry_enabled item \<and> registers ct k item) (enumerate 0 items)))"
  proof (rule inj_onI)
    fix a b
    assume a: "a \<in> set (filter (\<lambda>(i, item). entry_enabled item \<and> registers ct k item) (enumerate 0 items))"
      and b: "b \<in> set (filter (\<lambda>(i, item). entry_enabled item \<and> registers ct k item) (enumerate 0 items))"
      and e: "(case a of (i, item) \<Rightarrow> id_prefix k @ str_nat i) = (case b of (i, item) \<Rightarrow> id_prefix k @ str_nat i)"
    obtain i x where ax: "a = (i, x)" by (cases a)
    obtain j y where bx: "b = (j, y)" by (cases b)
    from e ax bx have "id_prefix k @ str_nat i = id_prefix k @ str_nat j" by simp
    then have ij: "i = j" by (simp only: job_id_inj)
    from a ax have "x = items ! i" by (simp add: in_set_enumerate_eq)
    moreover from b bx have "y = items ! j" by (simp add: in_set_enumerate_eq)
    ultimately show "a = b" using ax bx ij by simp
  qed
  have "distinct (enumerate 0 items)" by (simp add: distinct_enumerate)
  then have "distinct (filter (\<lambda>(i, item). entry_enabled item \<and> registers ct k item) (enumerate 0 items))"
    by (rule distinct_filter)
  with inj show ?thesis unfolding job_ids_def by (simp add: distinct_map)
qed

lemma job_ids_kind:
  "x \<in> set (job_ids ct k items) \<Longrightarrow> \<exists>i. x = id_prefix k @ str_nat i"
  by (auto simp: job_ids_def simp del: id_prefix.simps)

lemma distinct_all_job_ids: "distinct (all_job_ids ct doc)"
proof -
  have disj: "set (job_ids ct k items) \<inter> set (job_ids ct k' items') = {}" if "k \<noteq> k'"
    for k k' items items'
  proof (rule ccontr)
    assume "set (job_ids ct k items) \<inter> set (job_ids ct k' items') \<noteq> {}"
    then obtain x where "x \<in> set (job_ids ct k items)" "x \<in> set (job_ids ct k' items')" by blast
    then obtain i j where "x = id_prefix k @ str_nat i" "x = id_prefix k' @ str_nat j"
      using job_ids_kind by blast
    then have "id_prefix k @ str_nat i = id_prefix k' @ str_nat j" by simp
    then have "k = k'" by (simp only: job_id_inj)
    with that show False by simp
  qed
  show ?thesis
    unfolding all_job_ids_def
    by (simp add: distinct_job_ids disj Int_Un_distrib)
qed

text \<open>
  Claim C5.  Applying the same schedule document twice in a row gives the same answer,
  hence the same number of active jobs, and the same jobs, hence the same job ids, as
  applying it once; this holds of the endpoint for every body and every fault of the
  file system, and of \<open>update_scheduler\<close> itself.  The update discards the jobs registered
  before: once the document is saved, the answer and the jobs do not depend on the state
  the update started from.  The ids come from the kind and the index alone: for a
  well-formed document every id in the table is the prefix of a kind followed by the
  index of an enabled entry of that kind's list, no id occurs twice, and two such ids
  are equal only for the same kind and the same index.
\<close>

theorem C5_applying_twice_is_applying_once:
  "fst (api_schedule ct fault data (snd (api_schedule ct fault data w)))
     = fst (api_schedule ct fault data w)
   \<and> jobs (snd (api_schedule ct fault data (snd (api_schedule ct fault data w))))
       = jobs (snd (api_schedule ct fault data w))
   \<and> set (map job_id (jobs (snd (api_schedule ct fault data (snd (api_schedule ct fault data w))))))
       = set (map job_id (jobs (snd (api_schedule ct fault data w))))
   \<and> fst (update_scheduler ct (snd (update_scheduler ct w))) = fst (update_scheduler ct w)
   \<and> jobs (snd (update_scheduler ct (snd (update_scheduler ct w))))
       = jobs (snd (update_scheduler ct w))
   \<and> (map_of kvs ''schedule'' = Some doc
      \<longrightarrow> fst (api_schedule ct No_fault (JObj kvs) w) = fst (api_schedule ct No_fault (JObj kvs) v)
          \<and> jobs (snd (api_schedule ct No_fault (JObj kvs) w))
              = jobs (snd (api_schedule ct No_fault (JObj kvs) v)))
   \<and> (fs w cron_file = Some (Document doc)
      \<longrightarrow> jobs (snd (update_scheduler ct (w\<lparr>jobs := js\<rparr>))) = jobs (snd (update_scheduler ct w)))
   \<and> (map_of kvs ''schedule'' = Some doc \<and> well_formed doc
      \<longrightarrow> distinct (map job_id (jobs (snd (api_schedule ct No_fault (JObj kvs) w))))
          \<and> (\<forall>x \<in> set (map job_id (jobs (snd (api_schedule ct No_fault (JObj kvs) w)))).
                \<exists>k i. x = id_prefix k @ str_nat i \<and> i < length (entries k doc)
                      \<and> entry_enabled (entries k doc ! i)))
   \<and> (id_prefix k @ str_nat i = id_prefix k' @ str_nat i' \<longleftrightarrow> k = k' \<and> i = i')"
proof (intro conjI impI)
  show "fst (api_schedule ct fault data (snd (api_schedule ct fault data w)))
     = fst (api_schedule ct fault data w)"
    by (rule api_schedule_twice [THEN conjunct1])
  show "jobs (snd (api_schedule ct fault data (snd (api_schedule ct fault data w))))
       = jobs (snd (api_schedule ct fault data w))"
    by (rule api_schedule_twice [THEN conjunct2])
  then show "set (map job_id (jobs (snd (api_schedule ct fault data (snd (api_schedule ct fault data w))))))
       = set (map job_id (jobs (snd (api_schedule ct fault data w))))"
    by (rule arg_cong)
  show "fst (update_scheduler ct (snd (update_scheduler ct w))) = fst (update_scheduler ct w)"
    by (rule update_scheduler_twice [THEN conjunct1])
  show "jobs (snd (update_scheduler ct (snd (update_scheduler ct w))))
       = jobs (snd (update_scheduler ct w))"
    by (rule update_scheduler_twice [THEN conjunct2])
  show "id_prefix k @ str_nat i = id_prefix k' @ str_nat i' \<longleftrightarrow> k = k' \<and> i = i'"
    by (rule job_id_inj)
next
  assume s: "map_of kvs ''schedule'' = Some doc"
  show "fst (api_schedule ct No_fault (JObj kvs) w) = fst (api_schedule ct No_fault (JObj kvs) v)"
    by (rule api_schedule_any_state [OF s, THEN conjunct1])
  show "jobs (snd (api_schedule ct No_fault (JObj kvs) w))
              = jobs (snd (api_schedule ct No_fault (JObj kvs) v))"
    by (rule api_schedule_any_state [OF s, THEN conjunct2])
next
  assume a: "fs w cron_file = Some (Document doc)"
  then have b: "fs (w\<lparr>jobs := js\<rparr>) cron_file = Some (Document doc)" by simp
  show "jobs (snd (update_scheduler ct (w\<lparr>jobs := js\<rparr>))) = jobs (snd (update_scheduler ct w))"
    by (rule update_scheduler_document [OF b a, THEN conjunct2])
next
  assume "map_of kvs ''schedule'' = Some doc \<and> well_formed doc"
  then have s: "map_of kvs ''schedule'' = Some doc" and wf: "well_formed doc" by simp_all
  note ids = api_schedule_wf_jobs(1) [OF s wf, of ct w]
  show "distinct (map job_id (jobs (snd (api_schedule ct No_fault (JObj kvs) w))))"
    unfolding ids by (rule distinct_all_job_ids)
  show "\<forall>x \<in> set (map job_id (jobs (snd (api_schedule ct No_fault (JObj kvs) w)))).
                \<exists>k i. x = id_prefix k @ str_nat i \<and> i < length (entries k doc)
                      \<and> entry_enabled (entries k doc ! i)"
    unfolding ids by (intro ballI all_job_ids_shape)
qed

theorem C5_applying_twice_is_applying_once_witness:
  "fst (api_schedule field_trigger No_fault (post scenario_c)
          (snd (api_schedule field_trigger No_fault (post scenario_c) station_world)))
     = Success 1
   \<and> map job_id (jobs (snd (api_schedule field_trigger No_fault (post scenario_c)
          (snd (api_schedule field_trigger No_fault (post scenario_c) station_world)))))
     = [''promo_0'']
   \<and> fst (api_schedule field_trigger No_fault (post scenario_c) station_world) = Success 1
   \<and> map job_id (jobs (snd (api_schedule field_trigger No_fault (post scenario_c) station_world)))
     = [''promo_0'']
   \<and> distinct (map job_id (jobs (snd (api_schedule field_trigger No_fault (post scenario_c)
                                       station_world))))"
proof -
  have sched: "map_of [(''schedule'', scenario_c)] ''schedule'' = Some scenario_c" by simp
  have wf: "well_formed scenario_c" by code_simp
  have ids: "all_job_ids field_trigger scenario_c = [''promo_0'']" by code_simp
  have once: "fst (api_schedule field_trigger No_fault (post scenario_c) station_world) = Success 1"
    "map job_id (jobs (snd (api_schedule field_trigger No_fault (post scenario_c) station_world)))
       = [''promo_0'']"
    unfolding post_def by (simp_all add: api_schedule_wf_jobs [OF sched wf] ids)
  note inst = C5_applying_twice_is_applying_once [of field_trigger No_fault "post scenario_c"
      station_world "[(''schedule'', scenario_c)]" scenario_c station_world "[]" Station 0 Station 0]
  from inst have a: "fst (api_schedule field_trigger No_fault (post scenario_c)
          (snd (api_schedule field_trigger No_fault (post scenario_c) station_world)))
     = fst (api_schedule field_trigger No_fault (post scenario_c) station_world)"
    by (rule conjunct1)
  from inst have b: "jobs (snd (api_schedule field_trigger No_fault (post scenario_c)
          (snd (api_schedule field_trigger No_fault (post scenario_c) station_world))))
     = jobs (snd (api_schedule field_trigger No_fault (post scenario_c) station_world))"
    by (rule conjunct2 [THEN conjunct1])
  from inst sched wf
  have d: "distinct (map job_id (jobs (snd (api_schedule field_trigger No_fault (post scenario_c)
                                       station_world))))"
    unfolding post_def by blast
  from once d show ?thesis unfolding a b by (intro conjI)
qed

subsection \<open>Saving the document\<close>

lemma cron_file_path: "cron_file = ''json/cron.json''"
  by (simp add: cron_file_def os_path_join_def JSON_DIR_def)

lemma api_schedule_fault:
  assumes "map_of kvs ''schedule'' = Some doc"
  shows "api_schedule ct Open_fails (JObj kvs) w = (Server_error OSError, w)"
    and "api_schedule ct Dump_fails (JObj kvs) w
           = (Server_error OSError, w\<lparr>fs := (fs w)(cron_file \<mapsto> Other)\<rparr>)"
  by (simp_all add: api_schedule_accepted [OF assms] save_json_def JSON_FILES_cron)

lemma api_schedule_saved_fs:
  assumes "map_of kvs ''schedule'' = Some doc"
  shows "fs (snd (api_schedule ct No_fault (JObj kvs) w)) = (fs w)(cron_file \<mapsto> Document doc)"
proof -
  define w1 where "w1 = w\<lparr>fs := (fs w)(cron_file \<mapsto> Document doc)\<rparr>"
  obtain r w2 where u: "update_scheduler ct w1 = (r, w2)" by (cases "update_scheduler ct w1")
  from update_scheduler_same(1) [of ct w1] u have "fs w2 = fs w1" by simp
  then show ?thesis
    unfolding api_schedule_saved [OF assms] w1_def [symmetric] u
    by (simp add: w1_def split: option.splits)
qed

lemma api_schedule_other_files:
  assumes "path \<noteq> cron_file"
  shows "fs (snd (api_schedule ct fault data w)) path = fs w path"
proof (cases "\<exists>kvs doc. data = JObj kvs \<and> map_of kvs ''schedule'' = Some doc")
  case False
  have "api_schedule ct fault data w = (fst (api_schedule ct fault data w), w)"
  proof (cases data)
    case (JObj kvs)
    with False have "map_of kvs ''schedule'' = None" by (cases "map_of kvs ''schedule''") auto
    with JObj show ?thesis by (simp add: api_schedule_def)
  qed (auto simp: api_schedule_def split: sum.splits)
  then have "snd (api_schedule ct fault data w) = w" by (metis snd_conv)
  then show ?thesis by simp
next
  case True
  then obtain kvs doc where d: "data = JObj kvs" and s: "map_of kvs ''schedule'' = Some doc"
    by blast
  show ?thesis
  proof (cases fault)
    case No_fault
    with assms show ?thesis by (simp add: d api_schedule_saved_fs [OF s])
  next
    case Open_fails
    then show ?thesis by (simp add: d api_schedule_fault(1) [OF s])
  next
    case Dump_fails
    with assms show ?thesis by (simp add: d api_schedule_fault(2) [OF s])
  qed
qed

text \<open>
  Claim C7, as the code has it.  The schedule endpoint saves the document by writing the
  schedule file itself, and does so before it updates the scheduler, which then reads
  that file; no other file is written, whatever the body and the fault, so there is no
  temporary file and no swap.  When the file cannot be written, the answer is the error
  and the jobs and the lines printed are as they were.  A write that fails after the file
  was opened leaves the file without a document.
\<close>

theorem C7_document_is_written_in_place:
  assumes "map_of kvs ''schedule'' = Some doc"
  shows "api_schedule ct No_fault (JObj kvs) w =
           (case update_scheduler ct (w\<lparr>fs := (fs w)(cron_file \<mapsto> Document doc)\<rparr>) of
              (Some e, w2) \<Rightarrow> (Server_error e, w2)
            | (None, w2) \<Rightarrow> (Success (length (jobs w2)), w2))
         \<and> fs (snd (api_schedule ct No_fault (JObj kvs) w)) = (fs w)(cron_file \<mapsto> Document doc)
         \<and> (path \<noteq> cron_file \<longrightarrow> fs (snd (api_schedule ct fault (JObj kvs) w)) path = fs w path)
         \<and> (fault \<noteq> No_fault
            \<longrightarrow> fst (api_schedule ct fault (JObj kvs) w) = Server_error OSError
                \<and> jobs (snd (api_schedule ct fault (JObj kvs) w)) = jobs w
                \<and> printed (snd (api_schedule ct fault (JObj kvs) w)) = printed w)
         \<and> api_schedule ct Open_fails (JObj kvs) w = (Server_error OSError, w)
         \<and> api_schedule ct Dump_fails (JObj kvs) w
             = (Server_error OSError, w\<lparr>fs := (fs w)(cron_file \<mapsto> Other)\<rparr>)"
proof (intro conjI impI)
  show "api_schedule ct No_fault (JObj kvs) w =
           (case update_scheduler ct (w\<lparr>fs := (fs w)(cron_file \<mapsto> Document doc)\<rparr>) of
              (Some e, w2) \<Rightarrow> (Server_error e, w2)
            | (None, w2) \<Rightarrow> (Success (length (jobs w2)), w2))"
    using assms by (rule api_schedule_saved)
  show "fs (snd (api_schedule ct No_fault (JObj kvs) w)) = (fs w)(cron_file \<mapsto> Document doc)"
    using assms by (rule api_schedule_saved_fs)
  show "api_schedule ct Open_fails (JObj kvs) w = (Server_error OSError, w)"
    using assms by (rule api_schedule_fault(1))
  show "api_schedule ct Dump_fails (JObj kvs) w
             = (Server_error OSError, w\<lparr>fs := (fs w)(cron_file \<mapsto> Other)\<rparr>)"
    using assms by (rule api_schedule_fault(2))
next
  assume "path \<noteq> cron_file"
  then show "fs (snd (api_schedule ct fault (JObj kvs) w)) path = fs w path"
    by (rule api_schedule_other_files)
next
  assume f: "fault \<noteq> No_fault"
  then show "fst (api_schedule ct fault (JObj kvs) w) = Server_error OSError"
    by (cases fault) (simp_all add: api_schedule_fault [OF assms])
  from f show "jobs (snd (api_schedule ct fault (JObj kvs) w)) = jobs w"
    by (cases fault) (simp_all add: api_schedule_fault [OF assms])
  from f show "printed (snd (api_schedule ct fault (JObj kvs) w)) = printed w"
    by (cases fault) (simp_all add: api_schedule_fault [OF assms])
qed

theorem C7_document_is_written_in_place_witness:
  "fs (snd (api_schedule field_trigger No_fault (post scenario_c) scheduled_world)) cron_file
     = Some (Document scenario_c)
   \<and> fs (snd (api_schedule field_trigger No_fault (post scenario_c) scheduled_world))
        ''json/cron.json.tmp''
     = None
   \<and> fst (api_schedule field_trigger Open_fails (post scenario_c) scheduled_world)
     = Server_error OSError
   \<and> jobs (snd (api_schedule field_trigger Open_fails (post scenario_c) scheduled_world)) = []
   \<and> fs (snd (api_schedule field_trigger Open_fails (post scenario_c) scheduled_world)) cron_file
     = Some (Document scenario_b)"
proof -
  have sched: "map_of [(''schedule'', scenario_c)] ''schedule'' = Some scenario_c" by simp
  have other: "''json/cron.json.tmp'' \<noteq> cron_file" unfolding cron_file_path by simp
  have start: "jobs scheduled_world = []" "fs scheduled_world ''json/cron.json.tmp'' = None"
    "fs scheduled_world cron_file = Some (Document scenario_b)"
    using other by (simp_all add: scheduled_world_def station_world_def)
  note a = C7_document_is_written_in_place [OF sched, of field_trigger scheduled_world
      "''json/cron.json.tmp''" No_fault, unfolded post_def [symmetric]]
  note b = C7_document_is_written_in_place [OF sched, of field_trigger scheduled_world
      cron_file Open_fails, unfolded post_def [symmetric]]
  from a have a2: "fs (snd (api_schedule field_trigger No_fault (post scenario_c) scheduled_world))
      = (fs scheduled_world)(cron_file \<mapsto> Document scenario_c)"
    by (rule conjunct2 [THEN conjunct1])
  from a other have a3: "fs (snd (api_schedule field_trigger No_fault (post scenario_c) scheduled_world))
        ''json/cron.json.tmp'' = fs scheduled_world ''json/cron.json.tmp''"
    by blast
  have nf: "Open_fails \<noteq> No_fault" by simp
  from b nf have b4: "fst (api_schedule field_trigger Open_fails (post scenario_c) scheduled_world)
        = Server_error OSError
      \<and> jobs (snd (api_schedule field_trigger Open_fails (post scenario_c) scheduled_world))
        = jobs scheduled_world"
    by blast
  from b have b5: "api_schedule field_trigger Open_fails (post scenario_c) scheduled_world
      = (Server_error OSError, scheduled_world)"
    by blast
  show ?thesis
    unfolding a3 by (simp add: a2 b4 b5 start)
qed

text \<open>
  The claim's own wording fails where it promises an atomic overwrite.  The schedule file
  holds the document of scenario B; the document of scenario C is posted and the write
  fails after the file was opened.  The answer is the error, and the file then holds
  neither the old document nor the new one.
\<close>

theorem C7_failed_write_loses_the_old_document:
  "fs scheduled_world cron_file = Some (Document scenario_b)
   \<and> fst (api_schedule field_trigger Dump_fails (post scenario_c) scheduled_world)
     = Server_error OSError
   \<and> fs (snd (api_schedule field_trigger Dump_fails (post scenario_c) scheduled_world)) cron_file
     = Some Other
   \<and> Some Other \<noteq> Some (Document scenario_b)
   \<and> Some Other \<noteq> Some (Document scenario_c)"
  by (simp add: api_schedule_fault(2) [of "[(''schedule'', scenario_c)]" scenario_c, folded post_def]
      scheduled_world_def)

subsection \<open>Loading the document\<close>

lemma schedule_kind_lists:
  assumes "py_get d1 (list_key k) (JArr []) = py_get d2 (list_key k) (JArr [])"
  shows "schedule_kind ct k d1 w = schedule_kind ct k d2 w"
  by (simp add: schedule_kind_def assms)

lemma update_scheduler_lists:
  assumes "fs w cron_file = Some (Document d1)" and "fs v cron_file = Some (Document d2)"
    and same: "\<And>k. py_get d1 (list_key k) (JArr []) = py_get d2 (list_key k) (JArr [])"
  shows "fst (update_scheduler ct w) = fst (update_scheduler ct v)
         \<and> jobs (snd (update_scheduler ct w)) = jobs (snd (update_scheduler ct v))"
proof -
  have k: "\<And>k u. schedule_kind ct k d2 u = schedule_kind ct k d1 u"
    by (rule schedule_kind_lists) (simp add: same)
  have "update_scheduler ct v =
      (case schedule_kind ct Station d2 (remove_all_jobs v) of
         (Some e, w1) \<Rightarrow> (Some e, w1)
       | (None, w1) \<Rightarrow>
           (case schedule_kind ct Promo d2 w1 of
              (Some e, w2) \<Rightarrow> (Some e, w2)
            | (None, w2) \<Rightarrow>
                (case schedule_kind ct Safety d2 w2 of
                   (Some e, w3) \<Rightarrow> (Some e, w3)
                 | (None, w3) \<Rightarrow> (None, py_print Scheduler_updated w3))))"
    using assms(2) by (simp add: update_scheduler_def)
  then have uv: "update_scheduler ct v =
      (case schedule_kind ct Station d1 (remove_all_jobs v) of
         (Some e, w1) \<Rightarrow> (Some e, w1)
       | (None, w1) \<Rightarrow>
           (case schedule_kind ct Promo d1 w1 of
              (Some e, w2) \<Rightarrow> (Some e, w2)
            | (None, w2) \<Rightarrow>
                (case schedule_kind ct Safety d1 w2 of
                   (Some e, w3) \<Rightarrow> (Some e, w3)
                 | (None, w3) \<Rightarrow> (None, py_print Scheduler_updated w3))))"
    unfolding k .
  show ?thesis
  proof -
    define w0 where "w0 = remove_all_jobs w"
    define v0 where "v0 = remove_all_jobs v"
    have j0: "jobs w0 = jobs v0" by (simp add: w0_def v0_def remove_all_jobs_def)
    obtain r1 w1 where w1: "schedule_kind ct Station d1 w0 = (r1, w1)"
      by (cases "schedule_kind ct Station d1 w0")
    obtain q1 v1 where v1: "schedule_kind ct Station d1 v0 = (q1, v1)"
      by (cases "schedule_kind ct Station d1 v0")
    from schedule_kind_jobs [OF j0, of ct Station d1] w1 v1
    have e1: "q1 = r1" and j1: "jobs w1 = jobs v1" by simp_all
    obtain r2 w2 where w2: "schedule_kind ct Promo d1 w1 = (r2, w2)"
      by (cases "schedule_kind ct Promo d1 w1")
    obtain q2 v2 where v2: "schedule_kind ct Promo d1 v1 = (q2, v2)"
      by (cases "schedule_kind ct Promo d1 v1")
    from schedule_kind_jobs [OF j1, of ct Promo d1] w2 v2
    have e2: "q2 = r2" and j2: "jobs w2 = jobs v2" by simp_all
    obtain r3 w3 where w3: "schedule_kind ct Safety d1 w2 = (r3, w3)"
      by (cases "schedule_kind ct Safety d1 w2")
    obtain q3 v3 where v3: "schedule_kind ct Safety d1 v2 = (q3, v3)"
      by (cases "schedule_kind ct Safety d1 v2")
    from schedule_kind_jobs [OF j2, of ct Safety d1] w3 v3
    have e3: "q3 = r3" and j3: "jobs w3 = jobs v3" by simp_all
    have uw: "update_scheduler ct w =
        (case r1 of Some e \<Rightarrow> (Some e, w1)
         | None \<Rightarrow> (case r2 of Some e \<Rightarrow> (Some e, w2)
                     | None \<Rightarrow> (case r3 of Some e \<Rightarrow> (Some e, w3)
                                 | None \<Rightarrow> (None, py_print Scheduler_updated w3))))"
      using assms(1) w1 w2 w3 by (simp add: update_scheduler_def w0_def split: option.splits)
    have uv2: "update_scheduler ct v =
        (case r1 of Some e \<Rightarrow> (Some e, v1)
         | None \<Rightarrow> (case r2 of Some e \<Rightarrow> (Some e, v2)
                     | None \<Rightarrow> (case r3 of Some e \<Rightarrow> (Some e, v3)
                                 | None \<Rightarrow> (None, py_print Scheduler_updated v3))))"
      unfolding uv using v1 v2 v3 e1 e2 e3 by (simp add: v0_def split: option.splits)
    show ?thesis unfolding uw uv2 using j1 j2 j3
      by (simp add: py_print_def split: option.splits)
  qed
qed

lemma map_of_extra_key:
  "key \<noteq> x \<Longrightarrow> map_of (kvs @ [(key, v)]) x = map_of kvs x"
  by (auto simp: map_add_def split: option.splits)

lemma load_json_cron:
  "load_json ''cron'' w =
     (case fs w cron_file of
        None \<Rightarrow> Inr (JArr [])
      | Some Other \<Rightarrow> Inl JSONDecodeError
      | Some (Document data) \<Rightarrow>
          (case data of
             JObj kvs \<Rightarrow>
               (case map_of kvs ''cron'' of
                  Some v \<Rightarrow> Inr v
                | None \<Rightarrow> (case kvs of [(key, v)] \<Rightarrow> Inr v | _ \<Rightarrow> Inr data))
           | _ \<Rightarrow> Inr data))"
  by (simp add: load_json_def JSON_FILES_cron)

lemma load_json_document:
  assumes "fs w cron_file = Some (Document (JObj kvs))" and "map_of kvs ''cron'' = None"
    and "length kvs \<noteq> 1"
  shows "load_json ''cron'' w = Inr (JObj kvs)"
proof -
  from assms(3) have "(case kvs of [(key, v)] \<Rightarrow> Inr v | _ \<Rightarrow> Inr (JObj kvs))
      = (Inr (JObj kvs) :: py_error + json)"
    by (cases kvs; cases "tl kvs") (auto split: prod.splits)
  with assms(1,2) show ?thesis by (simp add: load_json_cron)
qed

text \<open>
  Claim C8, as the code has it.  With no schedule file, \<open>load_json\<close> gives the empty list,
  which is what the schedule endpoint then answers, and the update of the scheduler
  returns without touching anything.  A stored object with no key \<open>cron\<close> and two keys or
  more is loaded as it is stored, every key included.  The update of the scheduler, which
  reads the file itself, looks only at the three lists: a further key in the stored
  document changes neither its answer nor the jobs, and a list that is absent is read
  as empty.
\<close>

theorem C8_load_returns_what_is_stored:
  "(fs w cron_file = None
     \<longrightarrow> load_json ''cron'' w = Inr (JArr []) \<and> api_schedule_get w = Schedule (JArr [])
         \<and> update_scheduler ct w = (None, w))
   \<and> (fs w cron_file = Some (Document (JObj kvs)) \<and> map_of kvs ''cron'' = None \<and> length kvs \<noteq> 1
     \<longrightarrow> load_json ''cron'' w = Inr (JObj kvs) \<and> api_schedule_get w = Schedule (JObj kvs))
   \<and> (fs w cron_file = Some (Document (JObj kvs))
       \<and> fs v cron_file = Some (Document (JObj (kvs @ [(key, x)])))
       \<and> key \<noteq> ''station_announcements'' \<and> key \<noteq> ''promo_announcements''
       \<and> key \<noteq> ''safety_announcements''
     \<longrightarrow> fst (update_scheduler ct v) = fst (update_scheduler ct w)
         \<and> jobs (snd (update_scheduler ct v)) = jobs (snd (update_scheduler ct w)))
   \<and> (map_of kvs (list_key k) = None \<longrightarrow> schedule_kind ct k (JObj kvs) w = (None, w))"
proof (intro conjI impI)
  assume n: "fs w cron_file = None"
  then show l: "load_json ''cron'' w = Inr (JArr [])" by (simp add: load_json_cron)
  then show "api_schedule_get w = Schedule (JArr [])" by (simp add: api_schedule_get_def)
  from n show "update_scheduler ct w = (None, w)" by (simp add: update_scheduler_def)
next
  assume "fs w cron_file = Some (Document (JObj kvs)) \<and> map_of kvs ''cron'' = None \<and> length kvs \<noteq> 1"
  then have "load_json ''cron'' w = Inr (JObj kvs)" by (simp add: load_json_document)
  then show "load_json ''cron'' w = Inr (JObj kvs)" "api_schedule_get w = Schedule (JObj kvs)"
    by (simp_all add: api_schedule_get_def)
next
  assume a: "fs w cron_file = Some (Document (JObj kvs))
       \<and> fs v cron_file = Some (Document (JObj (kvs @ [(key, x)])))
       \<and> key \<noteq> ''station_announcements'' \<and> key \<noteq> ''promo_announcements''
       \<and> key \<noteq> ''safety_announcements''"
  then have fw: "fs w cron_file = Some (Document (JObj kvs))"
    and fv: "fs v cron_file = Some (Document (JObj (kvs @ [(key, x)])))" by simp_all
  have same: "py_get (JObj (kvs @ [(key, x)])) (list_key k) (JArr [])
      = py_get (JObj kvs) (list_key k) (JArr [])" for k
    using a by (cases k) (simp_all add: map_of_extra_key del: map_of_append)
  note r = update_scheduler_lists [OF fv fw same, of ct]
  from r show "fst (update_scheduler ct v) = fst (update_scheduler ct w)" by (rule conjunct1)
  from r show "jobs (snd (update_scheduler ct v)) = jobs (snd (update_scheduler ct w))"
    by (rule conjunct2)
next
  assume "map_of kvs (list_key k) = None"
  then show "schedule_kind ct k (JObj kvs) w = (None, w)"
    by (simp add: schedule_kind_def)
qed

theorem C8_load_returns_what_is_stored_witness:
  "load_json ''cron'' station_world = Inr (JArr [])
   \<and> update_scheduler field_trigger station_world = (None, station_world)
   \<and> load_json ''cron'' annotated_world = Inr annotated
   \<and> jobs (snd (update_scheduler field_trigger annotated_world)) = []
   \<and> fst (update_scheduler field_trigger annotated_world) = None"
proof -
  define plain where "plain = [(''station_announcements'', JArr []), (''promo_announcements'', JArr []),
           (''safety_announcements'', JArr [])]"
  define w where "w = station_world\<lparr>fs := (fs station_world)(cron_file \<mapsto> Document (JObj plain))\<rparr>"
  have ann: "annotated = JObj (plain @ [(''note'', JStr ''summer timetable'')])"
    by (simp add: annotated_def plain_def)
  have missing: "fs station_world cron_file = None"
    unfolding cron_file_path by (simp add: station_world_def)
  have stored: "fs annotated_world cron_file
      = Some (Document (JObj (plain @ [(''note'', JStr ''summer timetable'')])))"
    by (simp add: annotated_world_def ann)
  have fw: "fs w cron_file = Some (Document (JObj plain))" by (simp add: w_def)
  have keys: "map_of (plain @ [(''note'', JStr ''summer timetable'')]) ''cron'' = None
      \<and> length (plain @ [(''note'', JStr ''summer timetable'')]) \<noteq> 1"
    by (simp add: plain_def)
  have plain_run: "fst (update_scheduler field_trigger w) = None"
    "jobs (snd (update_scheduler field_trigger w)) = []"
    using fw by (simp_all add: update_scheduler_def schedule_kind_def plain_def remove_all_jobs_def
        py_print_def)
  note a = C8_load_returns_what_is_stored [where w = station_world and ct = field_trigger
      and kvs = "[]" and v = station_world and key = "[]" and x = JNull and k = Station]
  note b = C8_load_returns_what_is_stored [where w = annotated_world and ct = field_trigger
      and kvs = "plain @ [(''note'', JStr ''summer timetable'')]" and v = annotated_world
      and key = "[]" and x = JNull and k = Station]
  note c = C8_load_returns_what_is_stored [where w = w and ct = field_trigger and kvs = plain
      and v = annotated_world and key = "''note''" and x = "JStr ''summer timetable''"
      and k = Station]
  from a missing have a1: "load_json ''cron'' station_world = Inr (JArr [])"
    "update_scheduler field_trigger station_world = (None, station_world)"
    by blast+
  from b stored keys have b1: "load_json ''cron'' annotated_world
      = Inr (JObj (plain @ [(''note'', JStr ''summer timetable'')]))"
    by blast
  have k: "''note'' \<noteq> ''station_announcements''" "''note'' \<noteq> ''promo_announcements''"
    "''note'' \<noteq> ''safety_announcements''" by simp_all
  from c fw stored k
  have c1: "fst (update_scheduler field_trigger annotated_world) = fst (update_scheduler field_trigger w)"
    "jobs (snd (update_scheduler field_trigger annotated_world))
       = jobs (snd (update_scheduler field_trigger w))"
    by blast+
  show ?thesis by (simp add: a1 b1 c1 plain_run ann)
qed

text \<open>
  The claim's own wording fails on both counts.  With no schedule file, what is loaded is
  the empty list, which is no document: it has no \<open>get\<close> to ask for a list.  And the
  stored document with the fourth key \<open>note\<close> is loaded with that key in it.
\<close>

theorem C8_missing_file_loads_a_list_and_extra_keys_stay:
  "fs station_world cron_file = None
   \<and> load_json ''cron'' station_world = Inr (JArr [])
   \<and> JArr [] \<noteq> document [] [] []
   \<and> py_get (JArr []) ''station_announcements'' (JArr []) = Inl AttributeError
   \<and> fs annotated_world cron_file = Some (Document annotated)
   \<and> load_json ''cron'' annotated_world = Inr annotated
   \<and> py_item annotated ''note'' = Inr (JStr ''summer timetable'')
   \<and> api_schedule_get annotated_world = Schedule annotated"
  unfolding cron_file_path
  by (simp add: load_json_def JSON_FILES_def JSON_DIR_def os_path_join_def station_world_def
      annotated_world_def annotated_def document_def api_schedule_get_def cron_file_path)

end
